(* ===== verification/Prelude.thy ===== *)
theory Prelude
  imports Complex_Main "HOL-Library.AList"
begin

text \<open>
  What every component of the model shares.

  \<^item> Python exceptions as values: \<open>exn\<close>, and \<open>exn + 'a\<close> for the outcome of a call that may raise
    (\<open>Inl\<close> the exception, \<open>Inr\<close> the value), with \<open>ebind\<close> for sequencing and \<open>emap\<close> for a loop
    that stops at the first exception.
  \<^item> Python floats: \<open>pyfloat\<close>, a finite real, one of the two infinities, or NaN. Comparison, the
    arithmetic on the special values, truthiness, \<open>max\<close> and \<open>round\<close> are Python's (a comparison
    with NaN is false, infinity minus infinity is NaN, \<open>round\<close> breaks ties to even). Finite values are exact: the
    rounding of a result to 53 bits, overflow to infinity and the sign of zero are not modelled, and a decimal literal
    stands for the decimal number it spells.
  \<^item> Python dicts in insertion order: association lists with \<open>AList.update\<close> for assignment.
  \<^item> Python strings: the list of the bytes of the UTF-8 encoding.
  \<^item> Text of numbers: \<open>rval\<close> is a string as Redis stores it, either the text of a float (\<open>RNum x\<close>,
    what \<open>str(x)\<close> writes and \<open>float(s)\<close> reads back) or a text \<open>float\<close> rejects (\<open>RTxt s\<close>).
\<close>

named_theorems fin_simps "arithmetic and comparison on finite floats"
named_theorems dict_simps "lookups in association-list dictionaries"

subsection \<open>Exceptions and results\<close>

datatype exn =
    ValueError
  | KeyError
  | TypeError
  | AttributeError
  | ZeroDivisionError
  | IndexError
  | OverflowError
  | RetryError
  | RedisError
  | KafkaException
  | IntegrityError
  | DeltaError
  | AnalysisException
  | APIConnectionError
  | APIError
  | HTTPException nat

fun ebind :: "exn + 'a \<Rightarrow> ('a \<Rightarrow> exn + 'b) \<Rightarrow> exn + 'b" where
  "ebind (Inl e) f = Inl e"
| "ebind (Inr x) f = f x"

fun emap :: "('a \<Rightarrow> exn + 'b) \<Rightarrow> 'a list \<Rightarrow> exn + 'b list" where
  "emap f [] = Inr []"
| "emap f (x # xs) = ebind (f x) (\<lambda>y. ebind (emap f xs) (\<lambda>ys. Inr (y # ys)))"

lemma ebind_Inr_iff: "ebind r f = Inr y \<longleftrightarrow> (\<exists>x. r = Inr x \<and> f x = Inr y)"
  by (cases r) auto

lemma ebind_Inl_iff: "ebind r f = Inl e \<longleftrightarrow> r = Inl e \<or> (\<exists>x. r = Inr x \<and> f x = Inl e)"
  by (cases r) auto

lemma ebind_assoc: "ebind (ebind r f) g = ebind r (\<lambda>x. ebind (f x) g)"
  by (cases r) auto

lemma emap_Inr_map: "(\<And>x. x \<in> set xs \<Longrightarrow> f x = Inr (g x)) \<Longrightarrow> emap f xs = Inr (map g xs)"
  by (induction xs) auto

lemma emap_length: "emap f xs = Inr ys \<Longrightarrow> length ys = length xs"
  by (induction xs arbitrary: ys) (auto simp: ebind_Inr_iff)

lemma emap_nth: "emap f xs = Inr ys \<Longrightarrow> i < length xs \<Longrightarrow> f (xs ! i) = Inr (ys ! i)"
proof (induction xs arbitrary: ys i)
  case Nil
  then show ?case by simp
next
  case (Cons x xs)
  then show ?case by (cases i) (auto simp: ebind_Inr_iff)
qed

lemma emap_Inr_iff: "emap f xs = Inr ys \<longleftrightarrow> list_all2 (\<lambda>x y. f x = Inr y) xs ys"
  by (induction xs arbitrary: ys) (auto simp: ebind_Inr_iff list_all2_Cons1)

lemma in_zipD: "x \<in> set (zip xs ys) \<Longrightarrow> fst x \<in> set xs \<and> snd x \<in> set ys"
  by (cases x) (auto dest: set_zip_leftD set_zip_rightD)

subsection \<open>Python floats\<close>

datatype pyfloat = Fin real | PInf | NInf | NaN

instantiation pyfloat :: "{zero, one, plus, uminus, minus, times, abs, ord}"
begin

definition zero_pyfloat :: pyfloat where
  "zero_pyfloat = Fin 0"

definition one_pyfloat :: pyfloat where
  "one_pyfloat = Fin 1"

fun plus_pyfloat :: "pyfloat \<Rightarrow> pyfloat \<Rightarrow> pyfloat" where
  "plus_pyfloat (Fin a) (Fin b) = Fin (a + b)"
| "plus_pyfloat NaN y = NaN"
| "plus_pyfloat x NaN = NaN"
| "plus_pyfloat PInf NInf = NaN"
| "plus_pyfloat NInf PInf = NaN"
| "plus_pyfloat PInf y = PInf"
| "plus_pyfloat x PInf = PInf"
| "plus_pyfloat NInf y = NInf"
| "plus_pyfloat x NInf = NInf"

fun uminus_pyfloat :: "pyfloat \<Rightarrow> pyfloat" where
  "uminus_pyfloat (Fin a) = Fin (- a)"
| "uminus_pyfloat PInf = NInf"
| "uminus_pyfloat NInf = PInf"
| "uminus_pyfloat NaN = NaN"

definition minus_pyfloat :: "pyfloat \<Rightarrow> pyfloat \<Rightarrow> pyfloat" where
  "minus_pyfloat x y = x + (- y)"

text \<open>An infinity times a finite number: NaN at zero, otherwise the sign decides.\<close>

fun times_pyfloat :: "pyfloat \<Rightarrow> pyfloat \<Rightarrow> pyfloat" where
  "times_pyfloat (Fin a) (Fin b) = Fin (a * b)"
| "times_pyfloat NaN y = NaN"
| "times_pyfloat x NaN = NaN"
| "times_pyfloat (Fin a) PInf = (if a = 0 then NaN else if 0 < a then PInf else NInf)"
| "times_pyfloat (Fin a) NInf = (if a = 0 then NaN else if 0 < a then NInf else PInf)"
| "times_pyfloat PInf (Fin b) = (if b = 0 then NaN else if 0 < b then PInf else NInf)"
| "times_pyfloat NInf (Fin b) = (if b = 0 then NaN else if 0 < b then NInf else PInf)"
| "times_pyfloat PInf PInf = PInf"
| "times_pyfloat PInf NInf = NInf"
| "times_pyfloat NInf PInf = NInf"
| "times_pyfloat NInf NInf = PInf"

fun abs_pyfloat :: "pyfloat \<Rightarrow> pyfloat" where
  "abs_pyfloat (Fin a) = Fin \<bar>a\<bar>"
| "abs_pyfloat NaN = NaN"
| "abs_pyfloat x = PInf"

fun less_eq_pyfloat :: "pyfloat \<Rightarrow> pyfloat \<Rightarrow> bool" where
  "less_eq_pyfloat (Fin a) (Fin b) = (a \<le> b)"
| "less_eq_pyfloat NaN y = False"
| "less_eq_pyfloat x NaN = False"
| "less_eq_pyfloat NInf y = True"
| "less_eq_pyfloat x PInf = True"
| "less_eq_pyfloat x y = False"

fun less_pyfloat :: "pyfloat \<Rightarrow> pyfloat \<Rightarrow> bool" where
  "less_pyfloat (Fin a) (Fin b) = (a < b)"
| "less_pyfloat NaN y = False"
| "less_pyfloat x NaN = False"
| "less_pyfloat NInf (Fin b) = True"
| "less_pyfloat NInf PInf = True"
| "less_pyfloat (Fin a) PInf = True"
| "less_pyfloat x y = False"

instance ..

end

text \<open>IEEE division, and Python's \<open>/\<close>, which raises for a zero divisor.\<close>

fun fdiv :: "pyfloat \<Rightarrow> pyfloat \<Rightarrow> pyfloat" where
  "fdiv (Fin a) (Fin b) = Fin (a / b)"
| "fdiv NaN y = NaN"
| "fdiv x NaN = NaN"
| "fdiv (Fin a) y = Fin 0"
| "fdiv PInf (Fin b) = (if 0 \<le> b then PInf else NInf)"
| "fdiv NInf (Fin b) = (if 0 \<le> b then NInf else PInf)"
| "fdiv x y = NaN"

definition pydiv :: "pyfloat \<Rightarrow> pyfloat \<Rightarrow> exn + pyfloat" where
  "pydiv x y = (if y = Fin 0 then Inl ZeroDivisionError else Inr (fdiv x y))"

text \<open>\<open>x == y\<close> in Python: NaN is not equal to itself.\<close>

definition feq :: "pyfloat \<Rightarrow> pyfloat \<Rightarrow> bool" where
  "feq x y \<longleftrightarrow> x = y \<and> x \<noteq> NaN"

text \<open>Truthiness: only zero is false. \<open>x or d\<close>.\<close>

definition f_or :: "pyfloat \<Rightarrow> pyfloat \<Rightarrow> pyfloat" where
  "f_or x d = (if x = Fin 0 then d else x)"

text \<open>Python's two-argument \<open>max\<close> and \<open>min\<close> keep the first argument unless the second is strictly better.\<close>

definition py_max :: "pyfloat \<Rightarrow> pyfloat \<Rightarrow> pyfloat" where
  "py_max x y = (if x < y then y else x)"

definition py_min :: "pyfloat \<Rightarrow> pyfloat \<Rightarrow> pyfloat" where
  "py_min x y = (if y < x then y else x)"

definition fnat :: "nat \<Rightarrow> pyfloat" where
  "fnat n = Fin (real n)"

fun is_fin :: "pyfloat \<Rightarrow> bool" where
  "is_fin (Fin a) = True"
| "is_fin x = False"

fun real_of :: "pyfloat \<Rightarrow> real" where
  "real_of (Fin a) = a"
| "real_of x = 0"

lemma is_fin_iff: "is_fin x \<longleftrightarrow> (\<exists>a. x = Fin a)"
  by (cases x) auto

lemma Fin_real_of: "is_fin x \<Longrightarrow> Fin (real_of x) = x"
  by (cases x) auto

lemma fin_arith [simp, fin_simps]:
  "Fin a + Fin b = Fin (a + b)" "Fin a - Fin b = Fin (a - b)" "Fin a * Fin b = Fin (a * b)"
  "- Fin a = Fin (- a)" "\<bar>Fin a\<bar> = Fin \<bar>a\<bar>" "fdiv (Fin a) (Fin b) = Fin (a / b)"
  "(0::pyfloat) = Fin 0" "(1::pyfloat) = Fin 1"
  by (simp_all add: minus_pyfloat_def zero_pyfloat_def one_pyfloat_def)

lemma fin_compare [simp, fin_simps]:
  "Fin a < Fin b \<longleftrightarrow> a < b" "Fin a \<le> Fin b \<longleftrightarrow> a \<le> b"
  by simp_all

lemma nan_compare [simp]:
  "\<not> NaN < x" "\<not> x < NaN" "\<not> NaN \<le> x" "\<not> x \<le> NaN"
  by (cases x; simp)+

lemma nan_arith [simp]:
  "NaN + x = NaN" "x + NaN = NaN" "NaN - x = NaN" "x - NaN = NaN" "NaN * x = NaN" "x * NaN = NaN"
  "fdiv NaN x = NaN" "fdiv x NaN = NaN"
  by (cases x; simp add: minus_pyfloat_def)+

lemma pydiv_fin [simp, fin_simps]:
  "b \<noteq> 0 \<Longrightarrow> pydiv (Fin a) (Fin b) = Inr (Fin (a / b))"
  by (simp add: pydiv_def)

lemma py_max_fin [simp, fin_simps]: "py_max (Fin a) (Fin b) = Fin (max a b)"
  by (simp add: py_max_def max_def)

lemma py_min_fin [simp, fin_simps]: "py_min (Fin a) (Fin b) = Fin (min a b)"
  by (simp add: py_min_def min_def)

lemma is_fin_fnat [simp]: "is_fin (fnat n)"
  by (simp add: fnat_def)

lemma sum_list_fin: "foldl (+) (Fin a) (map Fin xs) = Fin (a + sum_list xs)"
  by (induction xs arbitrary: a) (auto simp: algebra_simps)

text \<open>Python's \<open>sum\<close>: a left fold from the integer zero.\<close>

definition py_sum :: "pyfloat list \<Rightarrow> pyfloat" where
  "py_sum xs = foldl (+) (Fin 0) xs"

lemma py_sum_fin [simp]: "py_sum (map Fin xs) = Fin (sum_list xs)"
  by (simp add: py_sum_def sum_list_fin)

lemma map_Fin_real_of: "list_all is_fin xs \<Longrightarrow> map Fin (map real_of xs) = xs"
  by (induction xs) (auto simp: Fin_real_of)

lemma py_sum_finite:
  assumes "list_all is_fin xs"
  shows "py_sum xs = Fin (sum_list (map real_of xs))"
  using py_sum_fin [of "map real_of xs"] by (simp only: map_Fin_real_of [OF assms])

subsection \<open>Rounding\<close>

text \<open>\<open>round(x, n)\<close>: to the nearest multiple of \<open>10 ^ -n\<close>, ties to the even one.\<close>

definition half_even :: "real \<Rightarrow> int" where
  "half_even x = (let f = \<lfloor>x\<rfloor>; d = x - of_int f in
     if d < 1 / 2 then f else if 1 / 2 < d then f + 1 else if even f then f else f + 1)"

definition round_real :: "nat \<Rightarrow> real \<Rightarrow> real" where
  "round_real n x = of_int (half_even (x * 10 ^ n)) / 10 ^ n"

fun py_round :: "nat \<Rightarrow> pyfloat \<Rightarrow> pyfloat" where
  "py_round n (Fin x) = Fin (round_real n x)"
| "py_round n x = x"

lemma half_even_dist: "\<bar>of_int (half_even x) - x\<bar> \<le> 1 / 2"
  unfolding half_even_def Let_def by (auto split: if_splits)

lemma half_even_of_int [simp]: "half_even (of_int n) = n"
  by (simp add: half_even_def)

lemma half_even_0 [simp]: "half_even 0 = 0"
  using half_even_of_int [of 0] by simp

lemma half_even_mono:
  assumes "x \<le> y"
  shows "half_even x \<le> half_even y"
proof (cases "\<lfloor>x\<rfloor> = \<lfloor>y\<rfloor>")
  case True
  then show ?thesis using assms by (auto simp: half_even_def Let_def)
next
  case False
  then have "\<lfloor>x\<rfloor> + 1 \<le> \<lfloor>y\<rfloor>" using floor_mono [OF assms] by linarith
  then show ?thesis by (auto simp: half_even_def Let_def)
qed

lemma round_real_dist: "\<bar>round_real n x - x\<bar> \<le> 1 / (2 * 10 ^ n)"
proof -
  have "round_real n x - x = (of_int (half_even (x * 10 ^ n)) - x * 10 ^ n) / 10 ^ n"
    by (simp add: round_real_def diff_divide_distrib)
  then have "\<bar>round_real n x - x\<bar> = \<bar>of_int (half_even (x * 10 ^ n)) - x * 10 ^ n\<bar> / 10 ^ n"
    by (simp add: abs_divide)
  also have "\<dots> \<le> (1 / 2) / 10 ^ n"
    by (rule divide_right_mono [OF half_even_dist]) simp
  finally show ?thesis by simp
qed

lemma round_real_mono: "x \<le> y \<Longrightarrow> round_real n x \<le> round_real n y"
  by (simp add: round_real_def divide_right_mono half_even_mono)

lemma round_real_0 [simp]: "round_real n 0 = 0"
  by (simp add: round_real_def)

lemma round_real_nonneg: "0 \<le> x \<Longrightarrow> 0 \<le> round_real n x"
  using round_real_mono [of 0 x n] by simp

text \<open>A number with at most \<open>n\<close> decimals is its own rounding.\<close>

lemma round_real_decimal: "x * 10 ^ n = of_int k \<Longrightarrow> round_real n x = x"
proof -
  assume h: "x * 10 ^ n = of_int k"
  then have "x = of_int k / 10 ^ n" by (simp add: field_simps)
  with h show ?thesis by (simp add: round_real_def)
qed

lemma round_real_1 [simp]: "round_real n 1 = 1"
  by (rule round_real_decimal [where k = "10 ^ n"]) simp

lemma round_real_le_decimal:
  "x \<le> c \<Longrightarrow> c * 10 ^ n = of_int k \<Longrightarrow> round_real n x \<le> c"
  using round_real_mono [of x c n] round_real_decimal [of c n k] by simp

lemma is_fin_py_round [simp]: "is_fin (py_round n x) = is_fin x"
  by (cases x) auto

subsection \<open>Decimal numerals\<close>

definition digit :: "nat \<Rightarrow> char" where
  "digit d = char_of (48 + d)"

fun decimal :: "nat \<Rightarrow> string" where
  "decimal n = (if n < 10 then [digit n] else decimal (n div 10) @ [digit (n mod 10)])"

declare decimal.simps [simp del]

definition pad5 :: "nat \<Rightarrow> string" where
  "pad5 n = (let s = decimal n in replicate (5 - length s) (CHR ''0'') @ s)"

definition undecimal :: "string \<Rightarrow> nat" where
  "undecimal s = foldl (\<lambda>a c. 10 * a + (of_char c - 48)) 0 s"

lemma of_char_digit [simp]: "d < 10 \<Longrightarrow> of_char (digit d) = (48 + d :: nat)"
  by (simp add: digit_def)

lemma undecimal_decimal [simp]: "undecimal (decimal n) = n"
proof (induction n rule: decimal.induct)
  case (1 n)
  show ?case
  proof (cases "n < 10")
    case True
    then show ?thesis by (simp add: decimal.simps [of n] undecimal_def)
  next
    case False
    then have "foldl (\<lambda>a c. 10 * a + (of_char c - 48)) 0 (decimal (n div 10)) = n div 10"
      using 1 by (simp add: undecimal_def)
    moreover have "10 * (n div 10) + n mod 10 = n" by simp
    ultimately show ?thesis using False by (subst decimal.simps) (simp add: undecimal_def)
  qed
qed

lemma undecimal_pad5 [simp]: "undecimal (pad5 n) = n"
proof -
  have "foldl (\<lambda>a c. 10 * a + (of_char c - 48)) (0::nat) (replicate k (CHR ''0'')) = 0" for k
    by (induction k) simp_all
  then show ?thesis using undecimal_decimal [of n] by (simp add: pad5_def Let_def undecimal_def)
qed

lemma pad5_inject [simp]: "pad5 m = pad5 n \<longleftrightarrow> m = n"
  by (metis undecimal_pad5)

text \<open>\<open>f"{x:.nf}"\<close>: the number rounded to \<open>n\<close> decimals, written out.\<close>

fun fixed :: "nat \<Rightarrow> pyfloat \<Rightarrow> string" where
  "fixed n (Fin x) =
     (let k = nat (half_even (\<bar>x\<bar> * 10 ^ n)); frac = decimal (k mod 10 ^ n)
      in (if x < 0 then ''-'' else []) @ decimal (k div 10 ^ n) @ ''.''
        @ replicate (n - length frac) (CHR ''0'') @ frac)"
| "fixed n PInf = ''inf''"
| "fixed n NInf = ''-inf''"
| "fixed n NaN = ''nan''"

lemma length_pad5: "5 \<le> length (pad5 n)"
  by (simp add: pad5_def Let_def)

subsection \<open>Dictionaries\<close>

type_synonym 'v dict = "(string \<times> 'v) list"

definition dict_get :: "'v dict \<Rightarrow> string \<Rightarrow> 'v \<Rightarrow> 'v" where
  "dict_get d k v = (case map_of d k of None \<Rightarrow> v | Some x \<Rightarrow> x)"

text \<open>\<open>d[k]\<close>, which raises \<open>KeyError\<close> for a missing key.\<close>

definition dict_item :: "'v dict \<Rightarrow> string \<Rightarrow> exn + 'v" where
  "dict_item d k = (case map_of d k of None \<Rightarrow> Inl KeyError | Some x \<Rightarrow> Inr x)"

lemma map_of_AList_update [simp, dict_simps]: "map_of (AList.update k v d) = (map_of d)(k \<mapsto> v)"
  by (simp add: update_conv')

lemma keys_AList_update:
  "map fst (AList.update k v d) = (if k \<in> set (map fst d) then map fst d else map fst d @ [k])"
  by (induction d) auto

lemma distinct_keys_update: "distinct (map fst d) \<Longrightarrow> distinct (map fst (AList.update k v d))"
  by (rule distinct_update)

lemma map_of_map_values [dict_simps]: "map_of (map (\<lambda>(k, v). (k, f v)) d) x = map_option f (map_of d x)"
  by (induction d) auto

lemma map_of_map_keyed: "x \<in> set ks \<Longrightarrow> map_of (map (\<lambda>k. (k, f k)) ks) x = Some (f x)"
  by (induction ks) auto

lemma map_of_map_keyed_None: "x \<notin> set ks \<Longrightarrow> map_of (map (\<lambda>k. (k, f k)) ks) x = None"
  by (induction ks) auto

subsection \<open>Texts of numbers\<close>

datatype rval = RNum pyfloat | RTxt string

definition py_str :: "pyfloat \<Rightarrow> rval" where
  "py_str x = RNum x"

fun py_float :: "rval \<Rightarrow> exn + pyfloat" where
  "py_float (RNum x) = Inr x"
| "py_float (RTxt s) = Inl ValueError"

text \<open>A string is false exactly when it is empty; the text of a number is never empty.\<close>

fun rval_truthy :: "rval \<Rightarrow> bool" where
  "rval_truthy (RNum x) = True"
| "rval_truthy (RTxt s) = (s \<noteq> [])"

lemma py_float_str [simp]: "py_float (py_str x) = Inr x"
  by (simp add: py_str_def)

subsection \<open>JSON documents\<close>

text \<open>
  A JSON text is represented by the document it spells, so that \<open>json.dumps\<close> followed by
  \<open>encode\<close> and the reading of the bytes are inverse by construction. \<open>JTime t\<close> is the ISO text of
  the instant \<open>t\<close>.
\<close>

datatype json =
    JNull
  | JBool bool
  | JNum pyfloat
  | JStr string
  | JTime pyfloat
  | JArr "json list"
  | JObj "(string \<times> json) list"

fun obj_field :: "string \<Rightarrow> json \<Rightarrow> json option" where
  "obj_field k (JObj kvs) = map_of kvs k"
| "obj_field k j = None"

fun of_JNum :: "json \<Rightarrow> exn + pyfloat" where
  "of_JNum (JNum x) = Inr x"
| "of_JNum j = Inl ValueError"

fun of_JStr :: "json \<Rightarrow> exn + string" where
  "of_JStr (JStr s) = Inr s"
| "of_JStr j = Inl ValueError"

fun of_JTime :: "json \<Rightarrow> exn + pyfloat" where
  "of_JTime (JTime t) = Inr t"
| "of_JTime j = Inl ValueError"

definition jstr_opt :: "string option \<Rightarrow> json" where
  "jstr_opt x = (case x of None \<Rightarrow> JNull | Some s \<Rightarrow> JStr s)"

subsection \<open>Retrying\<close>

text \<open>
  The documented behaviour of \<open>tenacity.retry(stop=stop_after_attempt(n))\<close>: call until one attempt
  returns, at most \<open>n\<close> times; then \<open>RetryError\<close>. The library itself is a parameter \<open>rt\<close> of the
  definitions that are decorated with it; \<open>stop_after\<close> is what they rely on.
\<close>

fun attempts :: "nat \<Rightarrow> ('s \<Rightarrow> (exn + 'a) \<times> 's) \<Rightarrow> 's \<Rightarrow> (exn + 'a) \<times> 's" where
  "attempts 0 f s = (Inl RetryError, s)"
| "attempts (Suc n) f s =
     (case f s of (Inr x, s') \<Rightarrow> (Inr x, s') | (Inl e, s') \<Rightarrow> attempts n f s')"

definition stop_after :: "nat \<Rightarrow> (('s \<Rightarrow> (exn + 'a) \<times> 's) \<Rightarrow> 's \<Rightarrow> (exn + 'a) \<times> 's) \<Rightarrow> bool" where
  "stop_after n rt \<longleftrightarrow> (\<forall>f s. rt f s = attempts n f s)"

lemma stop_after_attempts [simp]: "stop_after n (attempts n)"
  by (simp add: stop_after_def)

text \<open>With \<open>reraise=True\<close> the exception of the last attempt is raised instead.\<close>

fun attempts_reraise :: "nat \<Rightarrow> ('s \<Rightarrow> (exn + 'a) \<times> 's) \<Rightarrow> 's \<Rightarrow> (exn + 'a) \<times> 's" where
  "attempts_reraise 0 f s = (Inl RetryError, s)"
| "attempts_reraise (Suc 0) f s = f s"
| "attempts_reraise (Suc (Suc n)) f s =
     (case f s of (Inr x, s') \<Rightarrow> (Inr x, s') | (Inl e, s') \<Rightarrow> attempts_reraise (Suc n) f s')"

definition reraise_after :: "nat \<Rightarrow> (('s \<Rightarrow> (exn + 'a) \<times> 's) \<Rightarrow> 's \<Rightarrow> (exn + 'a) \<times> 's) \<Rightarrow> bool" where
  "reraise_after n rt \<longleftrightarrow> (\<forall>f s. rt f s = attempts_reraise n f s)"

lemma reraise_after_attempts [simp]: "reraise_after n (attempts_reraise n)"
  by (simp add: reraise_after_def)

text \<open>
  Attempts that fail without a trace: the retried call either raises without a trace, or has the effect of one
  successful attempt.
\<close>

lemma attempts_reraise_outcome:
  assumes "\<And>s e s'. f s = (Inl e, s') \<Longrightarrow> P s' = P s"
    and "attempts_reraise n f s = (r, s')"
  shows "case r of Inl e \<Rightarrow> P s' = P s | Inr x \<Rightarrow> (\<exists>t. P t = P s \<and> f t = (Inr x, s'))"
  using assms
proof (induction n f s rule: attempts_reraise.induct)
  case (1 f s)
  then show ?case by auto
next
  case (2 f s)
  from 2(1) [of s _ s'] 2(2) show ?case by (cases r) auto
next
  case (3 n g s)
  show ?case
  proof (cases "g s")
    case (Pair q t)
    show ?thesis
    proof (cases q)
      case (Inl e)
      then have "P t = P s" using 3(2) Pair by blast
      moreover have "case r of Inl e \<Rightarrow> P s' = P t | Inr x \<Rightarrow> (\<exists>t'. P t' = P t \<and> g t' = (Inr x, s'))"
        using 3(1) [OF Pair [symmetric] Inl 3(2)] 3(3) Pair Inl by simp
      ultimately show ?thesis by (auto split: sum.splits)
    next
      case (Inr x)
      then show ?thesis using 3(3) Pair by auto
    qed
  qed
qed

text \<open>With \<open>retry_if_exception_type\<close>, an exception that does not match is raised at once.\<close>

fun attempts_on :: "(exn \<Rightarrow> bool) \<Rightarrow> nat \<Rightarrow> ('s \<Rightarrow> (exn + 'a) \<times> 's) \<Rightarrow> 's \<Rightarrow> (exn + 'a) \<times> 's" where
  "attempts_on p 0 f s = (Inl RetryError, s)"
| "attempts_on p (Suc n) f s =
     (case f s of
        (Inr x, s') \<Rightarrow> (Inr x, s')
      | (Inl e, s') \<Rightarrow> if p e then attempts_on p n f s' else (Inl e, s'))"

definition retry_on :: "(exn \<Rightarrow> bool) \<Rightarrow> nat \<Rightarrow> (('s \<Rightarrow> (exn + 'a) \<times> 's) \<Rightarrow> 's \<Rightarrow> (exn + 'a) \<times> 's) \<Rightarrow> bool" where
  "retry_on p n rt \<longleftrightarrow> (\<forall>f s. rt f s = attempts_on p n f s)"

lemma retry_on_attempts [simp]: "retry_on p n (attempts_on p n)"
  by (simp add: retry_on_def)

text \<open>An invariant of one attempt is an invariant of the retried call.\<close>

lemma attempts_invariant:
  assumes "P s" and "\<And>s r s'. P s \<Longrightarrow> f s = (r, s') \<Longrightarrow> P s'"
    and "attempts n f s = (r, s')"
  shows "P s'"
  using assms(1,3)
proof (induction n arbitrary: s)
  case 0
  then show ?case by simp
next
  case (Suc n)
  then show ?case using assms(2) by (auto split: prod.splits sum.splits)
qed

text \<open>A retried call that returns did so on an attempt from some state the earlier attempts left.\<close>

lemma attempts_success:
  assumes "attempts n f s = (Inr x, s')" and "P s"
    and "\<And>s e s'. P s \<Longrightarrow> f s = (Inl e, s') \<Longrightarrow> P s'"
  shows "\<exists>s0. P s0 \<and> f s0 = (Inr x, s')"
  using assms(1,2)
proof (induction n arbitrary: s)
  case 0
  then show ?case by simp
next
  case (Suc n)
  then show ?case using assms(3) by (auto split: prod.splits sum.splits)
qed

end
