(* ===== verification/Kafka.thy ===== *)
theory Kafka
  imports Prelude
begin

text \<open>
  The interface to Kafka, and \<open>ingestion/kafka_producer.py\<close>. The confluent client is not part of the
  repository: its three operations are the record \<open>producer\<close>, and the locale \<open>kafka_producer\<close> states
  what callers rely on, in terms of the log of accepted messages. \<open>FeatureStoreProducer\<close> wraps a client and has
  the same operations; that it has the same contract, with its five attempts, is the sublocale
  \<open>retried\<close> of \<open>retrying_producer\<close>, so every client of the interface may be given either.
\<close>

type_synonym kafka_msg = "string \<times> string \<times> json"

record 'p producer =
  p_produce :: "kafka_msg \<Rightarrow> 'p \<Rightarrow> (exn + unit) \<times> 'p"
  p_flush :: "pyfloat \<Rightarrow> 'p \<Rightarrow> nat \<times> 'p"
  p_poll :: "pyfloat \<Rightarrow> 'p \<Rightarrow> nat \<times> 'p"

subsection \<open>The wrapper\<close>

record ingestion_config =
  ic_kafka_bootstrap_servers :: string
  ic_kafka_topic_events :: string
  ic_event_rate_tps :: int
  ic_num_users :: int
  ic_producer_batch_size :: int
  ic_producer_linger_ms :: int

definition ingestion_config_default :: ingestion_config where
  "ingestion_config_default = \<lparr>
     ic_kafka_bootstrap_servers = ''localhost:9092'',
     ic_kafka_topic_events = ''ecommerce.events.raw'',
     ic_event_rate_tps = 100,
     ic_num_users = 10000,
     ic_producer_batch_size = 100,
     ic_producer_linger_ms = 10\<rparr>"

datatype setting = SInt int | SStr string

definition producer_settings :: "ingestion_config \<Rightarrow> setting dict" where
  "producer_settings cfg =
     [(''bootstrap.servers'', SStr (ic_kafka_bootstrap_servers cfg)),
      (''batch.size'', SInt (ic_producer_batch_size cfg * 1024)),
      (''linger.ms'', SInt (ic_producer_linger_ms cfg)),
      (''compression.type'', SStr ''snappy''),
      (''acks'', SStr ''1''),
      (''retries'', SInt 3),
      (''retry.backoff.ms'', SInt 500)]"

text \<open>A \<open>KafkaException\<close> is logged and raised again, any other exception propagates as it is.\<close>

definition produce_once :: "'p producer \<Rightarrow> kafka_msg \<Rightarrow> 'p \<Rightarrow> (exn + unit) \<times> 'p" where
  "produce_once P msg s =
     (case p_produce P msg s of
        (Inl KafkaException, s') \<Rightarrow> (Inl KafkaException, s')
      | (r, s') \<Rightarrow> (r, s'))"

definition FeatureStoreProducer ::
  "(('p \<Rightarrow> (exn + unit) \<times> 'p) \<Rightarrow> 'p \<Rightarrow> (exn + unit) \<times> 'p) \<Rightarrow> 'p producer \<Rightarrow> 'p producer" where
  "FeatureStoreProducer retry P = \<lparr>
     p_produce = (\<lambda>msg. retry (produce_once P msg)),
     p_flush = (\<lambda>timeout. p_flush P timeout),
     p_poll = (\<lambda>timeout. p_poll P timeout)\<rparr>"

lemma produce_once_eq [simp]: "produce_once P msg s = p_produce P msg s"
  by (auto simp: produce_once_def split: prod.splits sum.splits exn.splits)

lemma FeatureStoreProducer_sel [simp]:
  "p_produce (FeatureStoreProducer retry P) msg s = retry (produce_once P msg) s"
  "p_flush (FeatureStoreProducer retry P) = p_flush P"
  "p_poll (FeatureStoreProducer retry P) = p_poll P"
  by (simp_all add: FeatureStoreProducer_def)

subsection \<open>The contract\<close>

locale kafka_producer =
  fixes P :: "'p producer" and log :: "'p \<Rightarrow> kafka_msg list"
  assumes produce_ok: "p_produce P msg s = (Inr (), s') \<Longrightarrow> log s' = log s @ [msg]"
    and produce_raised: "p_produce P msg s = (Inl e, s') \<Longrightarrow> log s' = log s"
    and flush_log: "p_flush P t s = (n, s') \<Longrightarrow> log s' = log s"
    and poll_log: "p_poll P t s = (n, s') \<Longrightarrow> log s' = log s"
begin

lemma produce_log: "p_produce P msg s = (r, s') \<Longrightarrow> log s' = (case r of Inl e \<Rightarrow> log s | Inr u \<Rightarrow> log s @ [msg])"
  using produce_ok produce_raised by (cases r) auto

lemma retried_produce:
  assumes "attempts_reraise n (produce_once P msg) s = (r, s')"
  shows "log s' = (case r of Inl e \<Rightarrow> log s | Inr u \<Rightarrow> log s @ [msg])"
proof -
  have "case r of Inl e \<Rightarrow> log s' = log s | Inr x \<Rightarrow> \<exists>t. log t = log s \<and> produce_once P msg t = (Inr x, s')"
    by (rule attempts_reraise_outcome [OF _ assms]) (use produce_raised in auto)
  then show ?thesis using produce_ok [of msg] by (cases r; cases msg) auto
qed

lemma retried_contract:
  assumes "reraise_after n retry"
  shows "kafka_producer (FeatureStoreProducer retry P) log"
proof
  fix msg s s'
  assume "p_produce (FeatureStoreProducer retry P) msg s = (Inr (), s')"
  then show "log s' = log s @ [msg]"
    using assms retried_produce [of n msg s "Inr ()" s'] by (simp add: reraise_after_def)
next
  fix msg s e s'
  assume "p_produce (FeatureStoreProducer retry P) msg s = (Inl e, s')"
  then show "log s' = log s"
    using assms retried_produce [of n msg s "Inl e" s'] by (simp add: reraise_after_def)
next
  fix t s n s'
  assume "p_flush (FeatureStoreProducer retry P) t s = (n, s')"
  then show "log s' = log s" using flush_log by simp
next
  fix t s n s'
  assume "p_poll (FeatureStoreProducer retry P) t s = (n, s')"
  then show "log s' = log s" using poll_log by simp
qed

end

locale retrying_producer = kafka_producer P log
  for P :: "'p producer" and log :: "'p \<Rightarrow> kafka_msg list" +
  fixes retry :: "('p \<Rightarrow> (exn + unit) \<times> 'p) \<Rightarrow> 'p \<Rightarrow> (exn + unit) \<times> 'p"
  assumes five_attempts: "reraise_after 5 retry"

sublocale retrying_producer \<subseteq> retried: kafka_producer "FeatureStoreProducer retry P" log
  by (rule retried_contract [OF five_attempts])

subsection \<open>A producer that satisfies the contract\<close>

text \<open>The broker is unavailable for the next \<open>rl_faults\<close> attempts.\<close>

record ref_log =
  rl_log :: "kafka_msg list"
  rl_faults :: nat

definition ref_producer :: "ref_log producer" where
  "ref_producer = \<lparr>
     p_produce = (\<lambda>msg s. if 0 < rl_faults s then (Inl KafkaException, s\<lparr>rl_faults := rl_faults s - 1\<rparr>)
        else (Inr (), s\<lparr>rl_log := rl_log s @ [msg]\<rparr>)),
     p_flush = (\<lambda>timeout s. (0, s)),
     p_poll = (\<lambda>timeout s. (0, s))\<rparr>"

lemma ref_producer_sel [simp]:
  "p_produce ref_producer msg s = (if 0 < rl_faults s then (Inl KafkaException, s\<lparr>rl_faults := rl_faults s - 1\<rparr>)
        else (Inr (), s\<lparr>rl_log := rl_log s @ [msg]\<rparr>))"
  "p_flush ref_producer t s = (0, s)" "p_poll ref_producer t s = (0, s)"
  by (simp_all add: ref_producer_def)

lemma ref_producer_contract: "kafka_producer ref_producer rl_log"
  by unfold_locales (auto split: if_splits)

interpretation ref_kafka: kafka_producer ref_producer rl_log
  by (rule ref_producer_contract)

interpretation ref_retrying: retrying_producer ref_producer rl_log "attempts_reraise 5"
  by unfold_locales simp

text \<open>
  C18. The wrapper's \<open>produce\<close> puts a message into the client's queue exactly once when it returns and not at all
  when it raises, for every client that does so itself and whichever of the five attempts succeeds.
\<close>

theorem produce_exactly_once:
  assumes "kafka_producer P sent" and "reraise_after 5 retry"
    and "p_produce (FeatureStoreProducer retry P) msg s = (r, s')"
  shows "sent s' = (case r of Inl e \<Rightarrow> sent s | Inr u \<Rightarrow> sent s @ [msg])"
  using kafka_producer.produce_log [OF kafka_producer.retried_contract [OF assms(1,2)] assms(3)] .

lemma produce_exactly_once_witness:
  "\<exists>r s'. p_produce (FeatureStoreProducer (attempts_reraise 5) ref_producer) (''t'', ''k'', JNull)
       \<lparr>rl_log = [], rl_faults = 4\<rparr> = (r, s')
     \<and> r = Inr () \<and> rl_log s' = [(''t'', ''k'', JNull)]"
proof -
  have run: "p_produce (FeatureStoreProducer (attempts_reraise 5) ref_producer) (''t'', ''k'', JNull)
      \<lparr>rl_log = [], rl_faults = 4\<rparr> = (Inr (), \<lparr>rl_log = [(''t'', ''k'', JNull)], rl_faults = 0\<rparr>)"
    by (simp add: eval_nat_numeral)
  show ?thesis
    using produce_exactly_once [OF ref_producer_contract reraise_after_attempts run] run by simp
qed

end
