(* ===== verification/Validation.thy ===== *)
theory Validation
  imports Kafka
begin

text \<open>
  Offline against online consistency: \<open>validation/config.py\<close>,
  \<open>validation/consistency_validator.py\<close> and \<open>validation/skew_detector.py\<close>. The feature tables are
  dicts of dicts, \<open>validate_consistency\<close> is the two nested loops of the source over the running count and
  the growing deviation lists, and the report is a record. Divisions go through \<open>pydiv\<close>, which raises for a
  zero divisor; that none of them does is a theorem. The alert of \<open>skew_detector.py\<close> goes to a Kafka
  producer, whose two operations are a parameter.
\<close>

subsection \<open>Configuration and report\<close>

record validation_config =
  vc_consistency_threshold :: pyfloat
  vc_sample_size :: int
  vc_psi_warn_threshold :: pyfloat
  vc_psi_alert_threshold :: pyfloat

definition validation_config_default :: validation_config where
  "validation_config_default = \<lparr>
     vc_consistency_threshold = Fin 0.01,
     vc_sample_size = 1000,
     vc_psi_warn_threshold = Fin 0.1,
     vc_psi_alert_threshold = Fin 0.2\<rparr>"

definition FEATURE_NAMES :: "string list" where
  "FEATURE_NAMES = [''txn_count_5m'', ''avg_spend_1h'', ''session_activity_rate'',
     ''cart_abandon_ratio'', ''product_interaction_freq'', ''anomaly_score'']"

record consistency_report =
  cr_sample_size :: nat
  cr_consistent_users :: int
  cr_inconsistent_users :: nat
  cr_inconsistency_rate :: pyfloat
  cr_per_feature_deviation :: "pyfloat dict"
  cr_worst_feature :: "string option"
  cr_max_deviation :: pyfloat
  cr_computed_at :: pyfloat

definition is_healthy :: "validation_config \<Rightarrow> consistency_report \<Rightarrow> bool" where
  "is_healthy cfg report \<longleftrightarrow> cr_inconsistency_rate report \<le> vc_consistency_threshold cfg"

subsection \<open>The comparison\<close>

definition relative_deviation :: "pyfloat \<Rightarrow> pyfloat \<Rightarrow> exn + pyfloat" where
  "relative_deviation offline_val online_val =
     (let denom = \<bar>offline_val\<bar> + Fin (1 / 10 ^ 6)
      in pydiv \<bar>offline_val - online_val\<bar> denom)"

text \<open>The inner loop over the features of one user: the user's flag and the deviation lists.\<close>

fun feature_loop ::
  "pyfloat \<Rightarrow> pyfloat dict \<Rightarrow> pyfloat dict \<Rightarrow> string list \<Rightarrow> bool \<Rightarrow> pyfloat list dict
   \<Rightarrow> exn + bool \<times> pyfloat list dict" where
  "feature_loop threshold offline_vals online_vals [] user_inconsistent deviations =
     Inr (user_inconsistent, deviations)"
| "feature_loop threshold offline_vals online_vals (feature # features) user_inconsistent deviations =
     ebind (relative_deviation (dict_get offline_vals feature (Fin 0)) (dict_get online_vals feature (Fin 0)))
       (\<lambda>deviation.
         feature_loop threshold offline_vals online_vals features
           (if threshold < deviation then True else user_inconsistent)
           (AList.update feature (dict_get deviations feature [] @ [deviation]) deviations))"

fun user_loop ::
  "pyfloat \<Rightarrow> pyfloat dict dict \<Rightarrow> pyfloat dict dict \<Rightarrow> nat \<Rightarrow> pyfloat list dict
   \<Rightarrow> exn + nat \<times> pyfloat list dict" where
  "user_loop threshold online_features [] inconsistent_users deviations = Inr (inconsistent_users, deviations)"
| "user_loop threshold online_features ((user_id, offline_vals) # users) inconsistent_users deviations =
     ebind (feature_loop threshold offline_vals (dict_get online_features user_id []) FEATURE_NAMES False deviations)
       (\<lambda>(user_inconsistent, deviations').
         user_loop threshold online_features users
           (if user_inconsistent then Suc inconsistent_users else inconsistent_users) deviations')"

text \<open>\<open>max(d, key=d.get)\<close>: the first key that no later key strictly exceeds.\<close>

fun argmax_loop :: "('k \<Rightarrow> pyfloat) \<Rightarrow> 'k \<Rightarrow> 'k list \<Rightarrow> 'k" where
  "argmax_loop val best [] = best"
| "argmax_loop val best (k # ks) = argmax_loop val (if val best < val k then k else best) ks"

definition mean_deviation :: "pyfloat list \<Rightarrow> exn + pyfloat" where
  "mean_deviation devs =
     ebind (pydiv (py_sum devs) (fnat (max (length devs) 1))) (\<lambda>m. Inr (py_round 6 m))"

definition validate_consistency ::
  "validation_config \<Rightarrow> pyfloat \<Rightarrow> pyfloat dict dict \<Rightarrow> pyfloat dict dict \<Rightarrow> exn + consistency_report" where
  "validate_consistency cfg now offline_features online_features =
     (let sample_size = length offline_features in
      ebind (user_loop (vc_consistency_threshold cfg) online_features offline_features 0
               (map (\<lambda>f. (f, [])) FEATURE_NAMES)) (\<lambda>(inconsistent_users, feature_deviations).
      ebind (emap (\<lambda>(f, devs). ebind (mean_deviation devs) (\<lambda>m. Inr (f, m))) feature_deviations)
        (\<lambda>per_feature_deviation.
      let worst_feature =
            (case map fst per_feature_deviation of
               [] \<Rightarrow> None
             | k # ks \<Rightarrow> Some (argmax_loop (\<lambda>f. dict_get per_feature_deviation f (Fin 0)) k ks));
          max_deviation =
            (case worst_feature of
               None \<Rightarrow> Fin 0
             | Some w \<Rightarrow> if w \<noteq> [] then dict_get per_feature_deviation w (Fin 0) else Fin 0)
      in ebind (pydiv (fnat inconsistent_users) (fnat (max sample_size 1))) (\<lambda>inconsistency_rate.
         Inr \<lparr>cr_sample_size = sample_size,
              cr_consistent_users = int sample_size - int inconsistent_users,
              cr_inconsistent_users = inconsistent_users,
              cr_inconsistency_rate = py_round 6 inconsistency_rate,
              cr_per_feature_deviation = per_feature_deviation,
              cr_worst_feature = worst_feature,
              cr_max_deviation = max_deviation,
              cr_computed_at = now\<rparr>))))"

subsection \<open>The loops in closed form\<close>

definition deviation :: "pyfloat \<Rightarrow> pyfloat \<Rightarrow> pyfloat" where
  "deviation off on = fdiv \<bar>off - on\<bar> (\<bar>off\<bar> + Fin (1 / 10 ^ 6))"

definition deviation_at :: "pyfloat dict dict \<Rightarrow> string \<Rightarrow> string \<times> pyfloat dict \<Rightarrow> pyfloat" where
  "deviation_at online f row =
     deviation (dict_get (snd row) f (Fin 0)) (dict_get (dict_get online (fst row) []) f (Fin 0))"

definition user_bad :: "pyfloat \<Rightarrow> pyfloat dict dict \<Rightarrow> string \<times> pyfloat dict \<Rightarrow> bool" where
  "user_bad threshold online row \<longleftrightarrow> (\<exists>f \<in> set FEATURE_NAMES. threshold < deviation_at online f row)"

text \<open>The divisor is at least a millionth, infinite or NaN: the division never raises.\<close>

lemma relative_deviation_total: "relative_deviation off on = Inr (deviation off on)"
  by (cases off) (auto simp: relative_deviation_def deviation_def pydiv_def Let_def)

lemma feature_loop_eq:
  assumes "distinct fs"
  shows "feature_loop t off on fs b devs =
    Inr (b \<or> (\<exists>f \<in> set fs. t < deviation (dict_get off f (Fin 0)) (dict_get on f (Fin 0))),
         fold (\<lambda>f ds. AList.update f (dict_get ds f [] @
            [deviation (dict_get off f (Fin 0)) (dict_get on f (Fin 0))]) ds) fs devs)"
  using assms by (induction fs arbitrary: b devs) (auto simp: relative_deviation_total)

text \<open>Appending one value to each column of a table whose columns are known.\<close>

lemma update_column:
  assumes "distinct fs" and "f \<in> set fs"
  shows "AList.update f x (map (\<lambda>g. (g, c g)) fs) = map (\<lambda>g. (g, if g = f then x else c g)) fs"
  using assms by (induction fs) auto

lemma get_column: "f \<in> set fs \<Longrightarrow> dict_get (map (\<lambda>g. (g, c g)) fs) f d = c f"
  by (simp add: dict_get_def map_of_map_keyed)

lemma fold_append_columns:
  assumes "distinct fs" and "set gs \<subseteq> set fs" and "distinct gs"
  shows "fold (\<lambda>f ds. AList.update f (dict_get ds f [] @ [e f]) ds) gs (map (\<lambda>g. (g, c g)) fs)
    = map (\<lambda>g. (g, if g \<in> set gs then c g @ [e g] else c g)) fs"
  using assms(2,3)
proof (induction gs arbitrary: c)
  case Nil
  then show ?case by simp
next
  case (Cons g gs)
  then have "g \<in> set fs" "set gs \<subseteq> set fs" "distinct gs" "g \<notin> set gs" by auto
  then show ?case
    by (simp add: get_column update_column [OF assms(1)] Cons.IH [where c = "\<lambda>h. if h = g then c g @ [e g] else c h"])
qed

lemma distinct_FEATURE_NAMES [simp]: "distinct FEATURE_NAMES"
  by (simp add: FEATURE_NAMES_def)

lemma user_loop_eq:
  "user_loop t online rows n (map (\<lambda>f. (f, c f)) FEATURE_NAMES) =
     Inr (n + length (filter (user_bad t online) rows),
          map (\<lambda>f. (f, c f @ map (deviation_at online f) rows)) FEATURE_NAMES)"
proof (induction rows arbitrary: n c)
  case Nil
  then show ?case by simp
next
  case (Cons row rows)
  have step: "feature_loop t (snd row) (dict_get online (fst row) []) FEATURE_NAMES False
      (map (\<lambda>f. (f, c f)) FEATURE_NAMES)
    = Inr (user_bad t online row, map (\<lambda>f. (f, c f @ [deviation_at online f row])) FEATURE_NAMES)"
    using fold_append_columns [of FEATURE_NAMES FEATURE_NAMES "\<lambda>f. deviation_at online f row" c]
    by (simp add: feature_loop_eq user_bad_def deviation_at_def cong: map_cong)
  obtain user_id vals where row: "row = (user_id, vals)" by (cases row)
  show ?case
    using step unfolding row by (simp add: Cons.IH [where c = "\<lambda>f. c f @ [deviation_at online f (user_id, vals)]"])
qed

definition mean_dev :: "pyfloat list \<Rightarrow> pyfloat" where
  "mean_dev devs = py_round 6 (fdiv (py_sum devs) (fnat (max (length devs) 1)))"

lemma mean_deviation_total: "mean_deviation devs = Inr (mean_dev devs)"
  by (simp add: mean_deviation_def mean_dev_def pydiv_def fnat_def)

definition feature_means :: "pyfloat dict dict \<Rightarrow> pyfloat dict dict \<Rightarrow> pyfloat dict" where
  "feature_means offline online = map (\<lambda>f. (f, mean_dev (map (deviation_at online f) offline))) FEATURE_NAMES"

definition worst_of :: "pyfloat dict \<Rightarrow> string" where
  "worst_of means = argmax_loop (\<lambda>f. dict_get means f (Fin 0)) (hd FEATURE_NAMES) (tl FEATURE_NAMES)"

lemma argmax_loop_in: "argmax_loop val k ks \<in> insert k (set ks)"
  by (induction ks arbitrary: k) auto

lemma worst_of_in: "worst_of means \<in> set FEATURE_NAMES"
proof -
  have "insert (hd FEATURE_NAMES) (set (tl FEATURE_NAMES)) = set FEATURE_NAMES"
    by (simp add: FEATURE_NAMES_def)
  then show ?thesis
    unfolding worst_of_def using argmax_loop_in [of _ "hd FEATURE_NAMES" "tl FEATURE_NAMES"] by simp
qed

lemma argmax_loop_max:
  assumes "is_fin (val k)" and "\<forall>x \<in> set ks. is_fin (val x)"
  shows "\<forall>x \<in> insert k (set ks). val x \<le> val (argmax_loop val k ks)"
  using assms
proof (induction ks arbitrary: k)
  case Nil
  then show ?case by (auto simp: is_fin_iff)
next
  case (Cons y ys)
  let ?b = "if val k < val y then y else k"
  have b: "is_fin (val ?b)" "val k \<le> val ?b" "val y \<le> val ?b"
    using Cons.prems by (auto simp: is_fin_iff)
  have m: "\<forall>x \<in> insert ?b (set ys). val x \<le> val (argmax_loop val ?b ys)"
    using Cons.IH [OF b(1)] Cons.prems(2) by simp
  have "is_fin (val (argmax_loop val ?b ys))"
    using argmax_loop_in [of val ?b ys] b(1) Cons.prems(2) by auto
  then have "val k \<le> val (argmax_loop val ?b ys)" "val y \<le> val (argmax_loop val ?b ys)"
    using m b Cons.prems by (auto simp: is_fin_iff)
  with m show ?case by auto
qed

lemma validate_consistency_eq:
  "validate_consistency cfg now offline online =
     Inr \<lparr>cr_sample_size = length offline,
          cr_consistent_users = int (length offline)
            - int (length (filter (user_bad (vc_consistency_threshold cfg) online) offline)),
          cr_inconsistent_users = length (filter (user_bad (vc_consistency_threshold cfg) online) offline),
          cr_inconsistency_rate = Fin (round_real 6
            (real (length (filter (user_bad (vc_consistency_threshold cfg) online) offline))
             / real (max (length offline) 1))),
          cr_per_feature_deviation = feature_means offline online,
          cr_worst_feature = Some (worst_of (feature_means offline online)),
          cr_max_deviation = dict_get (feature_means offline online) (worst_of (feature_means offline online)) (Fin 0),
          cr_computed_at = now\<rparr>"
proof -
  have keys: "map fst (feature_means offline online) = FEATURE_NAMES"
    by (simp add: feature_means_def comp_def)
  have names: "FEATURE_NAMES = hd FEATURE_NAMES # tl FEATURE_NAMES" by (simp add: FEATURE_NAMES_def)
  have w: "worst_of (feature_means offline online) \<noteq> []"
    using worst_of_in [of "feature_means offline online"] by (auto simp: FEATURE_NAMES_def)
  have means: "emap (\<lambda>(f, devs). ebind (mean_deviation devs) (\<lambda>m. Inr (f, m)))
      (map (\<lambda>f. (f, map (deviation_at online f) offline)) FEATURE_NAMES) = Inr (feature_means offline online)"
    by (subst emap_Inr_map [where g = "\<lambda>(f, devs). (f, mean_dev devs)"])
      (auto simp: mean_deviation_total feature_means_def)
  have worst: "(case map fst (feature_means offline online) of [] \<Rightarrow> None
      | k # ks \<Rightarrow> Some (argmax_loop (\<lambda>f. dict_get (feature_means offline online) f (Fin 0)) k ks))
    = Some (worst_of (feature_means offline online))"
    by (subst keys, subst names) (simp add: worst_of_def)
  show ?thesis
    unfolding validate_consistency_def Let_def user_loop_eq [where c = "\<lambda>f. []"] ebind.simps prod.case append_Nil
      means worst
    using w by (simp add: pydiv_def fnat_def)
qed

subsection \<open>Properties of the report\<close>

lemma deviation_fin: "deviation (Fin a) (Fin b) = Fin (\<bar>a - b\<bar> / (\<bar>a\<bar> + 1 / 10 ^ 6))"
  by (simp add: deviation_def)

lemma deviation_self: "deviation x x = (if is_fin x then Fin 0 else NaN)"
  by (cases x) (simp_all add: deviation_def minus_pyfloat_def)

lemma deviation_nan [simp]: "deviation NaN y = NaN" "deviation x NaN = NaN"
  by (simp_all add: deviation_def)

text \<open>
  C15. The comparison never raises, whatever the tables and the floats in them: the report counts exactly the users with
  a feature whose relative deviation exceeds the threshold, the two counts add up to the sample size, and the rate is a
  number between 0 and 1 within half a millionth of the true ratio (0 for an empty sample).
\<close>

theorem validate_consistency_report:
  "\<exists>rep k q. validate_consistency cfg now offline online = Inr rep
     \<and> k = length (filter (\<lambda>row. \<exists>f \<in> set FEATURE_NAMES. vc_consistency_threshold cfg < deviation_at online f row) offline)
     \<and> cr_sample_size rep = length offline \<and> cr_inconsistent_users rep = k
     \<and> cr_consistent_users rep + int (cr_inconsistent_users rep) = int (cr_sample_size rep)
     \<and> cr_inconsistency_rate rep = Fin q \<and> 0 \<le> q \<and> q \<le> 1
     \<and> \<bar>q - real k / real (max (length offline) 1)\<bar> \<le> 1 / (2 * 10 ^ 6)"
proof -
  let ?k = "length (filter (user_bad (vc_consistency_threshold cfg) online) offline)"
  have "?k \<le> max (length offline) 1" by (rule le_trans [OF length_filter_le max.cobounded1])
  then have "real ?k \<le> real (max (length offline) 1)" by (simp only: of_nat_le_iff)
  then have le: "real ?k / real (max (length offline) 1) \<le> 1" by (rule divide_le_eq_1 [THEN iffD2, OF disjI1, OF conjI, rotated]) simp
  have bounds: "0 \<le> round_real 6 (real ?k / real (max (length offline) 1))"
    "round_real 6 (real ?k / real (max (length offline) 1)) \<le> 1"
    using round_real_mono [OF le, of 6] by (simp_all add: round_real_nonneg)
  have "user_bad (vc_consistency_threshold cfg) online =
      (\<lambda>row. \<exists>f \<in> set FEATURE_NAMES. vc_consistency_threshold cfg < deviation_at online f row)"
    by (simp add: fun_eq_iff user_bad_def)
  with bounds round_real_dist [of 6 "real ?k / real (max (length offline) 1)"] show ?thesis
    unfolding validate_consistency_eq by (intro exI conjI) auto
qed

lemma validate_zero_bad:
  assumes "\<And>row. row \<in> set offline \<Longrightarrow> \<not> user_bad (vc_consistency_threshold cfg) online row"
  shows "\<exists>rep. validate_consistency cfg now offline online = Inr rep \<and> cr_inconsistent_users rep = 0
    \<and> cr_consistent_users rep = int (length offline) \<and> cr_inconsistency_rate rep = Fin 0
    \<and> cr_per_feature_deviation rep = feature_means offline online"
proof -
  have none: "filter (user_bad (vc_consistency_threshold cfg) online) offline = []"
    using assms by (simp add: filter_empty_conv)
  show ?thesis unfolding validate_consistency_eq none by simp
qed

text \<open>
  A table compared with itself is fully consistent and healthy under any non-negative threshold, for every
  sample and even when it holds infinities or NaN.
\<close>

theorem validate_reflexive:
  assumes "distinct (map fst table)" and "Fin 0 \<le> vc_consistency_threshold cfg"
  shows "\<exists>rep. validate_consistency cfg now table table = Inr rep
    \<and> cr_inconsistent_users rep = 0 \<and> cr_inconsistency_rate rep = Fin 0 \<and> is_healthy cfg rep"
proof -
  have "dict_get table (fst row) [] = snd row" if "row \<in> set table" for row
    using that map_of_is_SomeI [OF assms(1), of "fst row" "snd row"] by (simp add: dict_get_def)
  moreover have "\<not> vc_consistency_threshold cfg < (if b then Fin 0 else NaN)" for b
    using assms(2) by (cases "vc_consistency_threshold cfg") auto
  ultimately have "\<not> user_bad (vc_consistency_threshold cfg) table row" if "row \<in> set table" for row
    using that by (auto simp: user_bad_def deviation_at_def deviation_self)
  then have "\<exists>rep. validate_consistency cfg now table table = Inr rep \<and> cr_inconsistent_users rep = 0
    \<and> cr_consistent_users rep = int (length table) \<and> cr_inconsistency_rate rep = Fin 0
    \<and> cr_per_feature_deviation rep = feature_means table table"
    by (rule validate_zero_bad)
  then show ?thesis using assms(2) by (auto simp: is_healthy_def)
qed

lemma validate_reflexive_witness:
  "\<exists>rep. validate_consistency validation_config_default (Fin 0)
       [(''usr_00001'', [(''avg_spend_1h'', Fin 45.2)])] [(''usr_00001'', [(''avg_spend_1h'', Fin 45.2)])] = Inr rep
     \<and> is_healthy validation_config_default rep"
proof -
  have d: "distinct (map fst [(''usr_00001'', [(''avg_spend_1h'', Fin 45.2)])])" by simp
  have t: "Fin 0 \<le> vc_consistency_threshold validation_config_default"
    by (simp add: validation_config_default_def)
  show ?thesis using validate_reflexive [OF d t] by blast
qed

text \<open>
  NaN hides every difference: when for each user and feature the offline or the online value is NaN, no user
  counts as inconsistent and the rate is 0, whatever the other side holds, because each comparison with the threshold is
  false.
\<close>

theorem validate_nan_blind:
  assumes "\<forall>row \<in> set offline. \<forall>f \<in> set FEATURE_NAMES.
      dict_get (snd row) f (Fin 0) = NaN \<or> dict_get (dict_get online (fst row) []) f (Fin 0) = NaN"
  shows "\<exists>rep. validate_consistency cfg now offline online = Inr rep
    \<and> cr_inconsistent_users rep = 0 \<and> cr_inconsistency_rate rep = Fin 0"
proof -
  have "\<not> user_bad (vc_consistency_threshold cfg) online row" if "row \<in> set offline" for row
    using that assms by (fastforce simp: user_bad_def deviation_at_def)
  from validate_zero_bad [OF this, where now = now] show ?thesis by auto
qed

lemma validate_nan_blind_witness:
  "\<exists>rep. validate_consistency validation_config_default (Fin 0)
       [(''u'', map (\<lambda>f. (f, NaN)) FEATURE_NAMES)] [(''u'', [(''avg_spend_1h'', Fin 100)])] = Inr rep
     \<and> cr_inconsistency_rate rep = Fin 0"
proof -
  have h: "\<forall>row \<in> set [(''u'', map (\<lambda>f. (f, NaN)) FEATURE_NAMES)]. \<forall>f \<in> set FEATURE_NAMES.
      dict_get (snd row) f (Fin 0) = NaN
      \<or> dict_get (dict_get [(''u'', [(''avg_spend_1h'', Fin 100)])] (fst row) []) f (Fin 0) = NaN"
    by (simp add: get_column)
  show ?thesis using validate_nan_blind [OF h] by blast
qed

text \<open>
  Rounding the rate to six decimals never changes the verdict for a sample below 20000 users: with the default
  threshold, the report is healthy exactly when at most one user in a hundred is inconsistent.
\<close>

theorem is_healthy_exact:
  assumes "length offline < 20000"
    and "validate_consistency validation_config_default now offline online = Inr rep"
  shows "is_healthy validation_config_default rep \<longleftrightarrow> 100 * cr_inconsistent_users rep \<le> max (length offline) 1"
proof -
  let ?k = "cr_inconsistent_users rep" and ?n = "max (length offline) 1"
  have rate: "cr_inconsistency_rate rep = Fin (round_real 6 (real ?k / real ?n))"
    using assms(2) by (auto simp: validate_consistency_eq)
  have n: "0 < real ?n" "real ?n < 20000" using assms(1) by auto
  have "round_real 6 (real ?k / real ?n) \<le> 0.01 \<longleftrightarrow> 100 * ?k \<le> ?n"
  proof (cases "100 * ?k \<le> ?n")
    case True
    then have "real ?k / real ?n \<le> 0.01" using n by (simp add: divide_le_eq of_nat_le_iff [symmetric] del: of_nat_le_iff)
    then have "round_real 6 (real ?k / real ?n) \<le> 0.01"
      by (rule round_real_le_decimal [where k = 10000]) simp
    with True show ?thesis by simp
  next
    case False
    then have "?n + 1 \<le> 100 * ?k" by simp
    then have "real ?n + 1 \<le> 100 * real ?k" by linarith
    then have "(real ?n + 1) / (100 * real ?n) \<le> 100 * real ?k / (100 * real ?n)"
      by (rule divide_right_mono) simp
    moreover have "0.01 + 1 / (100 * real ?n) = (real ?n + 1) / (100 * real ?n)"
      using n(1) by (simp only: field_simps) simp
    ultimately have "0.01 + 1 / (100 * real ?n) \<le> real ?k / real ?n" by simp
    moreover have "1 / (2 * 10 ^ 6) < 1 / (100 * real ?n)" using n by (simp add: field_simps)
    ultimately have "0.01 < round_real 6 (real ?k / real ?n)"
      using round_real_dist [of 6 "real ?k / real ?n"] by linarith
    with False show ?thesis by simp
  qed
  then show ?thesis by (simp add: is_healthy_def rate validation_config_default_def)
qed

lemma is_healthy_exact_witness:
  "\<exists>rep. validate_consistency validation_config_default (Fin 0) [] [] = Inr rep
     \<and> (is_healthy validation_config_default rep \<longleftrightarrow> 100 * cr_inconsistent_users rep \<le> 1)"
proof -
  obtain rep where rep: "validate_consistency validation_config_default (Fin 0) [] [] = Inr rep"
    by (auto simp: validate_consistency_eq)
  have l: "length ([] :: pyfloat dict dict) < 20000" by simp
  show ?thesis using is_healthy_exact [OF l rep] rep by auto
qed

text \<open>
  The feature named as the worst one is a monitored feature whose mean deviation is the largest, provided all of
  them are finite, and the maximal deviation of the report is its mean deviation.
\<close>

theorem worst_feature_max:
  assumes "validate_consistency cfg now offline online = Inr rep"
    and "\<forall>f \<in> set FEATURE_NAMES. is_fin (dict_get (cr_per_feature_deviation rep) f (Fin 0))"
  shows "\<exists>w \<in> set FEATURE_NAMES. cr_worst_feature rep = Some w
    \<and> cr_max_deviation rep = dict_get (cr_per_feature_deviation rep) w (Fin 0)
    \<and> (\<forall>f \<in> set FEATURE_NAMES. dict_get (cr_per_feature_deviation rep) f (Fin 0) \<le> cr_max_deviation rep)"
proof -
  let ?m = "feature_means offline online"
  have rep: "cr_worst_feature rep = Some (worst_of ?m)" "cr_max_deviation rep = dict_get ?m (worst_of ?m) (Fin 0)"
    "cr_per_feature_deviation rep = ?m"
    using assms(1) by (auto simp: validate_consistency_eq)
  have names: "set FEATURE_NAMES = insert (hd FEATURE_NAMES) (set (tl FEATURE_NAMES))"
    by (simp add: FEATURE_NAMES_def)
  have "\<forall>f \<in> insert (hd FEATURE_NAMES) (set (tl FEATURE_NAMES)).
      dict_get ?m f (Fin 0) \<le> dict_get ?m (worst_of ?m) (Fin 0)"
    unfolding worst_of_def by (rule argmax_loop_max) (use assms(2) in \<open>simp_all add: rep names\<close>)
  then show ?thesis using worst_of_in [of ?m] unfolding rep names by blast
qed

lemma worst_feature_max_witness:
  "\<exists>rep. validate_consistency validation_config_default (Fin 0) [] [] = Inr rep
     \<and> (\<exists>w \<in> set FEATURE_NAMES. cr_worst_feature rep = Some w)"
proof -
  obtain rep where rep: "validate_consistency validation_config_default (Fin 0) [] [] = Inr rep"
    by (auto simp: validate_consistency_eq)
  then have "cr_per_feature_deviation rep = feature_means [] []" by (auto simp: validate_consistency_eq)
  then have "\<forall>f \<in> set FEATURE_NAMES. is_fin (dict_get (cr_per_feature_deviation rep) f (Fin 0))"
    by (auto simp: feature_means_def get_column mean_dev_def py_sum_def fnat_def)
  from worst_feature_max [OF rep this] rep show ?thesis by blast
qed

subsection \<open>The skew alert\<close>

definition SKEW_SEVERITY_THRESHOLDS :: "pyfloat dict" where
  "SKEW_SEVERITY_THRESHOLDS =
     [(''critical'', Fin 0.10), (''high'', Fin 0.05), (''medium'', Fin 0.02), (''low'', Fin 0)]"

fun severity_loop :: "pyfloat \<Rightarrow> pyfloat dict \<Rightarrow> string" where
  "severity_loop rate [] = ''none''"
| "severity_loop rate ((level, threshold) # rest) = (if threshold < rate then level else severity_loop rate rest)"

definition classify_skew_severity :: "consistency_report \<Rightarrow> string" where
  "classify_skew_severity report = severity_loop (cr_inconsistency_rate report) SKEW_SEVERITY_THRESHOLDS"

definition skew_alert :: "pyfloat \<Rightarrow> consistency_report \<Rightarrow> json" where
  "skew_alert now report = JObj
     [(''alert_type'', JStr ''training_serving_skew''),
      (''severity'', JStr (classify_skew_severity report)),
      (''inconsistency_rate'', JNum (cr_inconsistency_rate report)),
      (''worst_feature'', jstr_opt (cr_worst_feature report)),
      (''max_deviation'', JNum (cr_max_deviation report)),
      (''sample_size'', JNum (fnat (cr_sample_size report))),
      (''timestamp'', JNum now)]"

text \<open>\<open>flush_default\<close> is the default timeout of the producer's \<open>flush\<close>.\<close>

definition emit_skew_alert ::
  "pyfloat \<Rightarrow> pyfloat \<Rightarrow> consistency_report \<Rightarrow> 'p producer option \<Rightarrow> 'p \<Rightarrow> (exn + unit) \<times> 'p" where
  "emit_skew_alert flush_default now report producer_arg s =
     (if classify_skew_severity report = ''none'' then (Inr (), s)
      else case producer_arg of
        None \<Rightarrow> (Inr (), s)
      | Some P \<Rightarrow>
          (case p_produce P (''ecommerce.alerts.drift'', ''skew_alert'', skew_alert now report) s of
             (Inl e, s') \<Rightarrow> (Inl e, s')
           | (Inr u, s') \<Rightarrow> (Inr (), snd (p_flush P flush_default s'))))"

text \<open>
  The severity of a report computed from data: \<open>none\<close> exactly when no user is inconsistent beyond rounding
  (rate 0), and otherwise the level of the interval the rate falls into; so an alert may be due for a report that is
  healthy.
\<close>

theorem skew_severity_levels:
  assumes "validate_consistency cfg now offline online = Inr rep"
  shows "\<exists>q. cr_inconsistency_rate rep = Fin q \<and> 0 \<le> q \<and>
    classify_skew_severity rep =
      (if q > 1 / 10 then ''critical'' else if q > 1 / 20 then ''high'' else if q > 1 / 50 then ''medium''
       else if q \<noteq> 0 then ''low'' else ''none'')"
proof -
  obtain q where q: "cr_inconsistency_rate rep = Fin q" "0 \<le> q"
    using assms by (auto simp: validate_consistency_eq round_real_nonneg)
  then show ?thesis
    by (auto simp: classify_skew_severity_def SKEW_SEVERITY_THRESHOLDS_def)
qed

lemma skew_severity_levels_witness:
  "\<exists>rep q. validate_consistency validation_config_default (Fin 0) [] [] = Inr rep
     \<and> cr_inconsistency_rate rep = Fin q \<and> 0 \<le> q"
proof -
  obtain rep where rep: "validate_consistency validation_config_default (Fin 0) [] [] = Inr rep"
    by (auto simp: validate_consistency_eq)
  with skew_severity_levels [OF rep] show ?thesis by blast
qed

text \<open>
  A returning alert puts exactly one message on the drift topic, keyed \<open>skew_alert\<close> and carrying the
  report's rate and severity, when the severity is not \<open>none\<close>, and nothing otherwise; a raising one leaves
  the queue as it was.
\<close>

theorem skew_alert_sent:
  assumes "kafka_producer P sent" and "emit_skew_alert t now rep (Some P) s = (r, s')"
  shows "sent s' = sent s @ (if r \<noteq> Inr () \<or> classify_skew_severity rep = ''none'' then []
      else [(''ecommerce.alerts.drift'', ''skew_alert'', skew_alert now rep)])
    \<and> obj_field ''severity'' (skew_alert now rep) = Some (JStr (classify_skew_severity rep))
    \<and> obj_field ''inconsistency_rate'' (skew_alert now rep) = Some (JNum (cr_inconsistency_rate rep))"
proof -
  note K = kafka_producer.produce_log [OF assms(1)] kafka_producer.flush_log [OF assms(1)]
  obtain q u where q: "p_produce P (''ecommerce.alerts.drift'', ''skew_alert'', skew_alert now rep) s = (q, u)"
    by fastforce
  obtain n v where v: "p_flush P t u = (n, v)" by fastforce
  show ?thesis
    using assms(2) K(1) [OF q] K(2) [OF v] q v
    by (auto simp: emit_skew_alert_def skew_alert_def split: if_splits sum.splits)
qed

definition sample_report :: consistency_report where
  "sample_report = \<lparr>cr_sample_size = 10, cr_consistent_users = 8, cr_inconsistent_users = 2,
     cr_inconsistency_rate = Fin (1 / 5), cr_per_feature_deviation = [], cr_worst_feature = None,
     cr_max_deviation = Fin 0, cr_computed_at = Fin 0\<rparr>"

lemma skew_alert_sent_witness:
  "\<exists>s'. emit_skew_alert (Fin 5) (Fin 0) sample_report (Some ref_producer) \<lparr>rl_log = [], rl_faults = 0\<rparr> = (Inr (), s')
     \<and> length (rl_log s') = 1 \<and> classify_skew_severity sample_report = ''critical''"
proof -
  have sev: "classify_skew_severity sample_report = ''critical''"
    by (simp add: classify_skew_severity_def SKEW_SEVERITY_THRESHOLDS_def sample_report_def)
  then obtain s' where run: "emit_skew_alert (Fin 5) (Fin 0) sample_report (Some ref_producer)
      \<lparr>rl_log = [], rl_faults = 0\<rparr> = (Inr (), s')"
    by (auto simp: emit_skew_alert_def)
  show ?thesis using skew_alert_sent [OF ref_producer_contract run] run sev by simp
qed

end
