(* ===== verification/Ingestion.thy ===== *)
theory Ingestion
  imports Kafka
begin

text \<open>
  The synthetic event source: \<open>ingestion/schemas.py\<close> and \<open>ingestion/event_generator.py\<close>. Every
  random draw and every reading of the clock is an argument, gathered in one record per event and one per batch; the
  generator is a step from the session map to a batch and the new session map, and \<open>run\<close> sends the batches of
  a given list. numpy's \<open>clip\<close> is a parameter with its documented behaviour \<open>clip_spec\<close>.
\<close>

subsection \<open>Events\<close>

record location =
  l_country :: string
  l_city :: string

record ecommerce_event =
  e_event_id :: string
  e_user_id :: string
  e_session_id :: string
  e_event_type :: string
  e_timestamp :: pyfloat
  e_transaction_amount :: pyfloat
  e_product_id :: string
  e_category :: string
  e_location :: location
  e_device_type :: string
  e_schema_version :: string

text \<open>The JSON document of an event, in the order of the class's fields, and its validation.\<close>

definition to_kafka_bytes :: "ecommerce_event \<Rightarrow> json" where
  "to_kafka_bytes e = JObj
     [(''event_id'', JStr (e_event_id e)),
      (''user_id'', JStr (e_user_id e)),
      (''session_id'', JStr (e_session_id e)),
      (''event_type'', JStr (e_event_type e)),
      (''timestamp'', JTime (e_timestamp e)),
      (''transaction_amount'', JNum (e_transaction_amount e)),
      (''product_id'', JStr (e_product_id e)),
      (''category'', JStr (e_category e)),
      (''location'', JObj [(''country'', JStr (l_country (e_location e))), (''city'', JStr (l_city (e_location e)))]),
      (''device_type'', JStr (e_device_type e)),
      (''schema_version'', JStr (e_schema_version e))]"

definition required :: "(json \<Rightarrow> exn + 'a) \<Rightarrow> string \<Rightarrow> json \<Rightarrow> exn + 'a" where
  "required of_json k j = (case obj_field k j of None \<Rightarrow> Inl ValueError | Some x \<Rightarrow> of_json x)"

definition with_default :: "(json \<Rightarrow> exn + 'a) \<Rightarrow> 'a \<Rightarrow> string \<Rightarrow> json \<Rightarrow> exn + 'a" where
  "with_default of_json d k j = (case obj_field k j of None \<Rightarrow> Inr d | Some x \<Rightarrow> of_json x)"

definition literal :: "string list \<Rightarrow> json \<Rightarrow> exn + string" where
  "literal allowed j = ebind (of_JStr j) (\<lambda>s. if s \<in> set allowed then Inr s else Inl ValueError)"

definition EVENT_TYPES :: "string list" where
  "EVENT_TYPES = [''page_view'', ''add_to_cart'', ''purchase'', ''search'', ''abandon'']"

definition DEVICE_TYPES :: "string list" where
  "DEVICE_TYPES = [''mobile'', ''desktop'', ''tablet'']"

definition location_of_json :: "json \<Rightarrow> exn + location" where
  "location_of_json j =
     ebind (required of_JStr ''country'' j) (\<lambda>country.
     ebind (required of_JStr ''city'' j) (\<lambda>city. Inr \<lparr>l_country = country, l_city = city\<rparr>))"

text \<open>\<open>fresh_id\<close> is the identifier the default factory makes for a message without one.\<close>

definition from_kafka_bytes :: "string \<Rightarrow> json \<Rightarrow> exn + ecommerce_event" where
  "from_kafka_bytes fresh_id j =
     ebind (with_default of_JStr fresh_id ''event_id'' j) (\<lambda>event_id.
     ebind (required of_JStr ''user_id'' j) (\<lambda>user_id.
     ebind (required of_JStr ''session_id'' j) (\<lambda>session_id.
     ebind (required (literal EVENT_TYPES) ''event_type'' j) (\<lambda>event_type.
     ebind (required of_JTime ''timestamp'' j) (\<lambda>timestamp.
     ebind (required of_JNum ''transaction_amount'' j) (\<lambda>amount.
     ebind (required of_JStr ''product_id'' j) (\<lambda>product_id.
     ebind (required of_JStr ''category'' j) (\<lambda>category.
     ebind (required location_of_json ''location'' j) (\<lambda>loc.
     ebind (required (literal DEVICE_TYPES) ''device_type'' j) (\<lambda>device_type.
     ebind (with_default of_JStr ''1.0'' ''schema_version'' j) (\<lambda>version.
       Inr \<lparr>e_event_id = event_id, e_user_id = user_id, e_session_id = session_id, e_event_type = event_type,
            e_timestamp = timestamp, e_transaction_amount = amount, e_product_id = product_id,
            e_category = category, e_location = loc, e_device_type = device_type,
            e_schema_version = version\<rparr>)))))))))))"

definition event_valid :: "ecommerce_event \<Rightarrow> bool" where
  "event_valid e \<longleftrightarrow> e_event_type e \<in> set EVENT_TYPES \<and> e_device_type e \<in> set DEVICE_TYPES"

lemma event_json_roundtrip: "event_valid e \<Longrightarrow> from_kafka_bytes i (to_kafka_bytes e) = Inr e"
  by (simp add: event_valid_def from_kafka_bytes_def to_kafka_bytes_def required_def with_default_def literal_def
      location_of_json_def)

subsection \<open>Draws\<close>

text \<open>
  \<open>random.choices(population, weights, k)\<close> is one number of \<open>[0, 1)\<close> per item, located among the
  cumulative weights; \<open>random.choice\<close> is an index. \<open>np.clip\<close> comes with its documented behaviour.
\<close>

definition EVENT_WEIGHTS :: "real list" where
  "EVENT_WEIGHTS = [0.50, 0.20, 0.15, 0.10, 0.05]"

definition DEVICE_WEIGHTS :: "real list" where
  "DEVICE_WEIGHTS = [0.60, 0.30, 0.10]"

definition CATEGORIES :: "string list" where
  "CATEGORIES = [''electronics'', ''clothing'', ''home'', ''sports'', ''books'', ''beauty'', ''food'', ''toys'']"

definition CITIES_BY_COUNTRY :: "string list dict" where
  "CITIES_BY_COUNTRY =
     [(''US'', [''New York'', ''Los Angeles'', ''Chicago'', ''Austin'', ''Seattle'']),
      (''UK'', [''London'', ''Manchester'', ''Birmingham'']),
      (''DE'', [''Berlin'', ''Munich'', ''Hamburg'']),
      (''IN'', [''Mumbai'', ''Bangalore'', ''Delhi'']),
      (''BR'', [''S'' @ [CHR 0xC3, CHR 0xA3] @ ''o Paulo'', ''Rio de Janeiro''])]"

definition COUNTRIES :: "string list" where
  "COUNTRIES = map fst CITIES_BY_COUNTRY"

fun accumulate :: "real \<Rightarrow> real list \<Rightarrow> real list" where
  "accumulate a [] = []"
| "accumulate a (w # ws) = (a + w) # accumulate (a + w) ws"

definition weighted_choice :: "'a list \<Rightarrow> real list \<Rightarrow> real \<Rightarrow> 'a" where
  "weighted_choice population weights u =
     (let cum = accumulate 0 weights
      in population ! min (length (takeWhile (\<lambda>c. c \<le> u * last cum) cum)) (length population - 1))"

definition uniform_choice :: "'a list \<Rightarrow> real \<Rightarrow> 'a" where
  "uniform_choice population u = population ! min (nat \<lfloor>u * real (length population)\<rfloor>) (length population - 1)"

definition choice :: "'a list \<Rightarrow> nat \<Rightarrow> 'a" where
  "choice xs i = xs ! (i mod length xs)"

definition clip_spec :: "(int \<Rightarrow> int \<Rightarrow> int list \<Rightarrow> int list) \<Rightarrow> bool" where
  "clip_spec clip \<longleftrightarrow> (\<forall>lo hi xs. clip lo hi xs = map (\<lambda>x. min (max x lo) hi) xs)"

definition np_clip :: "int \<Rightarrow> int \<Rightarrow> int list \<Rightarrow> int list" where
  "np_clip lo hi xs = map (\<lambda>x. min (max x lo) hi) xs"

lemma clip_spec_np_clip: "clip_spec np_clip"
  by (simp add: clip_spec_def np_clip_def)

lemma choice_in: "xs \<noteq> [] \<Longrightarrow> choice xs i \<in> set xs"
  by (simp add: choice_def)

lemma weighted_choice_in: "population \<noteq> [] \<Longrightarrow> weighted_choice population weights u \<in> set population"
proof -
  assume "population \<noteq> []"
  then have "min n (length population - 1) < length population" for n by (cases population) auto
  then show ?thesis by (simp add: weighted_choice_def Let_def)
qed

subsection \<open>The generator\<close>

definition zipf_user_pool :: "(int \<Rightarrow> int \<Rightarrow> int list \<Rightarrow> int list) \<Rightarrow> int list \<Rightarrow> int \<Rightarrow> string list" where
  "zipf_user_pool clip ranks num_users = map (\<lambda>r. ''usr_'' @ pad5 (nat r)) (clip 1 num_users ranks)"

definition random_location :: "nat \<Rightarrow> nat \<Rightarrow> location" where
  "random_location i j =
     (let country = choice COUNTRIES i;
          city = choice (dict_get CITIES_BY_COUNTRY country []) j
      in \<lparr>l_country = country, l_city = city\<rparr>)"

definition random_amount :: "pyfloat \<Rightarrow> string \<Rightarrow> bool \<Rightarrow> pyfloat" where
  "random_amount draw event_type is_fraud =
     (if event_type \<noteq> ''purchase'' then Fin 0
      else
        let amount = py_round 2 (py_max (Fin 1) (py_min draw (Fin 2000)))
        in if is_fraud then py_round 2 (amount * Fin 10) else amount)"

definition generate_session_id :: "string \<Rightarrow> string" where
  "generate_session_id uuid_hex = ''ses_'' @ take 12 uuid_hex"

record event_draws =
  ed_session_random :: real
  ed_uuid_hex :: string
  ed_fraud_random :: real
  ed_amount :: pyfloat
  ed_product :: nat
  ed_country :: nat
  ed_city :: nat
  ed_now :: pyfloat
  ed_event_id :: string

definition new_session :: "(string \<rightharpoonup> string) \<Rightarrow> string \<Rightarrow> event_draws \<Rightarrow> bool" where
  "new_session session_map user_id d \<longleftrightarrow> session_map user_id = None \<or> ed_session_random d < 0.05"

definition make_event :: "string \<times> string \<times> string \<times> string \<Rightarrow> string \<Rightarrow> event_draws \<Rightarrow> ecommerce_event" where
  "make_event = (\<lambda>(user_id, event_type, device_type, category) session_id d.
     let is_fraud = (event_type = ''purchase'' \<and> ed_fraud_random d < 0.02) in
     \<lparr>e_event_id = ed_event_id d, e_user_id = user_id, e_session_id = session_id, e_event_type = event_type,
      e_timestamp = ed_now d, e_transaction_amount = random_amount (ed_amount d) event_type is_fraud,
      e_product_id = ''prod_'' @ pad5 (ed_product d), e_category = category,
      e_location = random_location (ed_country d) (ed_city d), e_device_type = device_type,
      e_schema_version = ''1.0''\<rparr>)"

fun event_loop ::
  "(string \<rightharpoonup> string) \<Rightarrow> ((string \<times> string \<times> string \<times> string) \<times> event_draws) list
   \<Rightarrow> ecommerce_event list \<times> (string \<rightharpoonup> string)" where
  "event_loop session_map [] = ([], session_map)"
| "event_loop session_map ((item, d) # items) =
     (let user_id = fst item;
          session_map' = (if new_session session_map user_id d
            then session_map(user_id \<mapsto> generate_session_id (ed_uuid_hex d)) else session_map);
          event = make_event item (the (session_map' user_id)) d;
          (events, session_map'') = event_loop session_map' items
      in (event # events, session_map''))"

record batch_draws =
  bd_ranks :: "int list"
  bd_types :: "real list"
  bd_devices :: "real list"
  bd_categories :: "real list"
  bd_events :: "event_draws list"

definition batch_items ::
  "(int \<Rightarrow> int \<Rightarrow> int list \<Rightarrow> int list) \<Rightarrow> ingestion_config \<Rightarrow> batch_draws
   \<Rightarrow> ((string \<times> string \<times> string \<times> string) \<times> event_draws) list" where
  "batch_items clip cfg b =
     (let user_ids = zipf_user_pool clip (bd_ranks b) (ic_num_users cfg);
          event_types = map (weighted_choice EVENT_TYPES EVENT_WEIGHTS) (bd_types b);
          device_types = map (weighted_choice DEVICE_TYPES DEVICE_WEIGHTS) (bd_devices b);
          categories = map (uniform_choice CATEGORIES) (bd_categories b)
      in zip (zip user_ids (zip event_types (zip device_types categories))) (bd_events b))"

definition next_batch ::
  "(int \<Rightarrow> int \<Rightarrow> int list \<Rightarrow> int list) \<Rightarrow> ingestion_config \<Rightarrow> (string \<rightharpoonup> string) \<Rightarrow> batch_draws
   \<Rightarrow> ecommerce_event list \<times> (string \<rightharpoonup> string)" where
  "next_batch clip cfg session_map b = event_loop session_map (batch_items clip cfg b)"

text \<open>The generator, run for as many batches as there are draws.\<close>

fun event_stream ::
  "(int \<Rightarrow> int \<Rightarrow> int list \<Rightarrow> int list) \<Rightarrow> ingestion_config \<Rightarrow> (string \<rightharpoonup> string) \<Rightarrow> batch_draws list
   \<Rightarrow> ecommerce_event list list" where
  "event_stream clip cfg session_map [] = []"
| "event_stream clip cfg session_map (b # bs) =
     (let (events, session_map') = next_batch clip cfg session_map b
      in events # event_stream clip cfg session_map' bs)"

subsection \<open>The main loop\<close>

definition batch_size :: "ingestion_config \<Rightarrow> int" where
  "batch_size cfg = min (ic_event_rate_tps cfg) 200"

definition sleep_interval :: "ingestion_config \<Rightarrow> exn + pyfloat" where
  "sleep_interval cfg = pydiv (Fin (of_int (batch_size cfg))) (Fin (of_int (ic_event_rate_tps cfg)))"

fun send_batch ::
  "'p producer \<Rightarrow> string \<Rightarrow> ecommerce_event list \<Rightarrow> nat \<Rightarrow> 'p \<Rightarrow> (exn + nat) \<times> 'p" where
  "send_batch P topic [] total_sent s = (Inr total_sent, s)"
| "send_batch P topic (event # events) total_sent s =
     (case p_produce P (topic, e_user_id event, to_kafka_bytes event) s of
        (Inl e, s') \<Rightarrow> (Inl e, s')
      | (Inr u, s') \<Rightarrow> send_batch P topic events (Suc total_sent) s')"

fun run_loop ::
  "'p producer \<Rightarrow> string \<Rightarrow> ecommerce_event list list \<Rightarrow> nat \<Rightarrow> 'p \<Rightarrow> (exn + nat) \<times> 'p" where
  "run_loop P topic [] total_sent s = (Inr total_sent, s)"
| "run_loop P topic (batch # batches) total_sent s =
     (case send_batch P topic batch total_sent s of
        (Inl e, s') \<Rightarrow> (Inl e, s')
      | (Inr total', s') \<Rightarrow> run_loop P topic batches total' (snd (p_poll P (Fin 0) s')))"

definition run ::
  "(int \<Rightarrow> int \<Rightarrow> int list \<Rightarrow> int list) \<Rightarrow> (('p \<Rightarrow> (exn + unit) \<times> 'p) \<Rightarrow> 'p \<Rightarrow> (exn + unit) \<times> 'p)
   \<Rightarrow> 'p producer \<Rightarrow> ingestion_config \<Rightarrow> batch_draws list \<Rightarrow> 'p \<Rightarrow> (exn + nat) \<times> 'p" where
  "run clip retry P cfg draws s =
     (case sleep_interval cfg of
        Inl e \<Rightarrow> (Inl e, s)
      | Inr interval \<Rightarrow>
          run_loop (FeatureStoreProducer retry P) (ic_kafka_topic_events cfg)
            (event_stream clip cfg Map.empty draws) 0 s)"

subsection \<open>Properties of the generated events\<close>

text \<open>
  Amounts: zero unless the event is a purchase; a purchase is between 1 and 2000, a fraudulent one between 10
  and 20000, whatever the draw of the log-normal distribution, an infinite or undefined one included.
\<close>

theorem amount_bounds:
  "\<exists>a. random_amount draw event_type is_fraud = Fin a
     \<and> (if event_type \<noteq> ''purchase'' then a = 0
        else if is_fraud then 10 \<le> a \<and> a \<le> 20000 else 1 \<le> a \<and> a \<le> 2000)"
proof -
  obtain x where x: "py_max (Fin 1) (py_min draw (Fin 2000)) = Fin x" "1 \<le> x" "x \<le> 2000"
  proof (cases draw)
    case (Fin c)
    then show ?thesis by (intro that [of "max 1 (min c 2000)"]) simp_all
  qed (rule that [of 2000] that [of 1]; simp add: py_max_def py_min_def)+
  let ?a = "round_real 2 x"
  have a: "1 \<le> ?a" "?a \<le> 2000"
    using round_real_mono [OF x(2), of 2] round_real_le_decimal [OF x(3), of 2 200000] by simp_all
  have "round_real 2 10 = 10" by (rule round_real_decimal [where k = 1000]) simp
  then have "10 \<le> round_real 2 (?a * 10)" using round_real_mono [of 10 "?a * 10" 2] a by simp
  moreover have "round_real 2 (?a * 10) \<le> 20000"
    by (rule round_real_le_decimal [where k = 2000000]) (use a in simp_all)
  ultimately show ?thesis using a by (auto simp: random_amount_def Let_def x)
qed

lemma make_event_fields [simp]:
  "e_user_id (make_event item sid d) = fst item"
  "e_session_id (make_event item sid d) = sid"
  "e_event_type (make_event item sid d) = fst (snd item)"
  "e_device_type (make_event item sid d) = fst (snd (snd item))"
  by (simp_all add: make_event_def Let_def split: prod.splits)

lemma event_loop_length: "length (fst (event_loop m items)) = length items"
  by (induction m items rule: event_loop.induct) (auto simp: Let_def split: prod.splits)

text \<open>The session a user is in after some events, starting from a session map.\<close>

fun session_after :: "(string \<rightharpoonup> string) \<Rightarrow> ecommerce_event list \<Rightarrow> string \<rightharpoonup> string" where
  "session_after m [] = m"
| "session_after m (e # es) = session_after (m(e_user_id e \<mapsto> e_session_id e)) es"

lemma event_loop_map: "snd (event_loop m items) = session_after m (fst (event_loop m items))"
proof (induction m items rule: event_loop.induct)
  case (1 m)
  then show ?case by simp
next
  case (2 m item d items)
  let ?m = "if new_session m (fst item) d then m(fst item \<mapsto> generate_session_id (ed_uuid_hex d)) else m"
  have m: "?m(fst item \<mapsto> the (?m (fst item))) = ?m"
    by (auto simp: new_session_def fun_eq_iff)
  show ?case using 2 [OF refl refl] m by (auto simp: Let_def split: prod.splits if_splits)
qed

lemma event_loop_nth:
  "i < length items \<Longrightarrow>
   e_user_id (fst (event_loop m items) ! i) = fst (fst (items ! i))
   \<and> e_session_id (fst (event_loop m items) ! i) =
     (case session_after m (take i (fst (event_loop m items))) (fst (fst (items ! i))) of
        Some sid \<Rightarrow> if ed_session_random (snd (items ! i)) < 0.05
          then generate_session_id (ed_uuid_hex (snd (items ! i))) else sid
      | None \<Rightarrow> generate_session_id (ed_uuid_hex (snd (items ! i))))"
proof (induction m items arbitrary: i rule: event_loop.induct)
  case (1 m)
  then show ?case by simp
next
  case (2 m item d items)
  define M where "M = (if new_session m (fst item) d then m(fst item \<mapsto> generate_session_id (ed_uuid_hex d)) else m)"
  let ?rest = "fst (event_loop M items)"
  have m: "m(fst item \<mapsto> the (M (fst item))) = M"
    by (auto simp: M_def new_session_def fun_eq_iff)
  have unfold: "fst (event_loop m ((item, d) # items)) = make_event item (the (M (fst item))) d # ?rest"
    by (simp add: Let_def M_def split: prod.splits)
  show ?case
  proof (cases i)
    case 0
    show ?thesis unfolding unfold 0 by (auto simp: M_def new_session_def split: option.splits)
  next
    case (Suc j)
    then have "j < length items" using 2(2) by simp
    from 2(1) [OF refl M_def refl this] show ?thesis
      by (simp only: unfold Suc nth_Cons_Suc take_Suc_Cons session_after.simps make_event_fields m)
  qed
qed


definition sample_draws :: event_draws where
  "sample_draws = \<lparr>ed_session_random = 0.5, ed_uuid_hex = ''0123456789abcdef'', ed_fraud_random = 0.5,
     ed_amount = Fin 40, ed_product = 17, ed_country = 0, ed_city = 1, ed_now = Fin 1000, ed_event_id = ''e1''\<rparr>"

definition sample_batch :: batch_draws where
  "sample_batch = \<lparr>bd_ranks = [3, 3], bd_types = [0.1, 0.8], bd_devices = [0.1, 0.7], bd_categories = [0.1, 0.9],
     bd_events = [sample_draws, sample_draws\<lparr>ed_uuid_hex := ''fedcba9876543210''\<rparr>]\<rparr>"


subsection \<open>Delivery\<close>

lemma event_loop_valid:
  "(\<forall>it \<in> set items. fst (snd (fst it)) \<in> set EVENT_TYPES \<and> fst (snd (snd (fst it))) \<in> set DEVICE_TYPES)
   \<Longrightarrow> list_all event_valid (fst (event_loop m items))"
  by (induction m items rule: event_loop.induct) (auto simp: Let_def event_valid_def split: prod.splits)

lemma batch_items_valid:
  "it \<in> set (batch_items clip cfg b) \<Longrightarrow>
     fst (snd (fst it)) \<in> set EVENT_TYPES \<and> fst (snd (snd (fst it))) \<in> set DEVICE_TYPES"
proof -
  assume "it \<in> set (batch_items clip cfg b)"
  then have "fst (snd (fst it)) \<in> set (map (weighted_choice EVENT_TYPES EVENT_WEIGHTS) (bd_types b))"
    "fst (snd (snd (fst it))) \<in> set (map (weighted_choice DEVICE_TYPES DEVICE_WEIGHTS) (bd_devices b))"
    unfolding batch_items_def Let_def by (blast dest: in_zipD)+
  moreover have "EVENT_TYPES \<noteq> []" "DEVICE_TYPES \<noteq> []" by (simp_all add: EVENT_TYPES_def DEVICE_TYPES_def)
  ultimately show ?thesis using weighted_choice_in by fastforce
qed

lemma event_stream_valid: "list_all (list_all event_valid) (event_stream clip cfg m bs)"
proof (induction bs arbitrary: m)
  case Nil
  then show ?case by simp
next
  case (Cons b bs)
  have "list_all event_valid (fst (next_batch clip cfg m b))"
    unfolding next_batch_def by (rule event_loop_valid) (use batch_items_valid in blast)
  then show ?case using Cons by (cases "next_batch clip cfg m b") simp
qed

definition event_msg :: "string \<Rightarrow> ecommerce_event \<Rightarrow> kafka_msg" where
  "event_msg topic e = (topic, e_user_id e, to_kafka_bytes e)"

text \<open>The messages added by a loop over \<open>es\<close>: all of them when it returns, a strict prefix when it raises.\<close>

definition sent_prefix :: "string \<Rightarrow> ecommerce_event list \<Rightarrow> nat \<Rightarrow> exn + nat \<Rightarrow> kafka_msg list \<Rightarrow> bool" where
  "sent_prefix topic es n0 r added \<longleftrightarrow>
     (case r of
        Inl e \<Rightarrow> (\<exists>n < length es. added = map (event_msg topic) (take n es))
      | Inr n \<Rightarrow> added = map (event_msg topic) es \<and> n = n0 + length es)"

lemma sent_prefix_Cons:
  "sent_prefix topic es (Suc n0) r added \<Longrightarrow> sent_prefix topic (e # es) n0 r (event_msg topic e # added)"
  by (cases r) (force simp: sent_prefix_def intro: exI [of _ "Suc n" for n])+

lemma sent_prefix_append:
  assumes "sent_prefix topic bs (n0 + length as) r added"
  shows "sent_prefix topic (as @ bs) n0 r (map (event_msg topic) as @ added)"
proof (cases r)
  case (Inl e)
  with assms obtain n where "n < length bs" "added = map (event_msg topic) (take n bs)"
    by (auto simp: sent_prefix_def)
  then show ?thesis unfolding Inl sent_prefix_def by (auto intro!: exI [of _ "length as + n"])
next
  case (Inr t)
  with assms show ?thesis by (simp add: sent_prefix_def)
qed

lemma sent_prefix_raised: "sent_prefix topic as n0 (Inl e) added \<Longrightarrow> sent_prefix topic (as @ bs) n0 (Inl e) added"
proof -
  assume "sent_prefix topic as n0 (Inl e) added"
  then obtain n where "n < length as" "added = map (event_msg topic) (take n as)" by (auto simp: sent_prefix_def)
  then show ?thesis unfolding sent_prefix_def by (auto intro!: exI [of _ n])
qed

context kafka_producer
begin

lemma send_batch_log:
  "send_batch P topic events total_sent s = (r, s') \<Longrightarrow>
   \<exists>added. log s' = log s @ added \<and> sent_prefix topic events total_sent r added"
proof (induction events arbitrary: total_sent s)
  case Nil
  then show ?case by (auto simp: sent_prefix_def)
next
  case (Cons e es)
  obtain q t where q: "p_produce P (event_msg topic e) s = (q, t)"
    by (cases "p_produce P (event_msg topic e) s")
  note step = produce_log [OF q]
  show ?case
  proof (cases q)
    case (Inl x)
    then show ?thesis using Cons.prems q step by (auto simp: event_msg_def sent_prefix_def)
  next
    case (Inr u)
    then have "send_batch P topic es (Suc total_sent) t = (r, s')"
      using Cons.prems q by (simp add: event_msg_def)
    from Cons.IH [OF this] show ?thesis using step Inr sent_prefix_Cons by fastforce
  qed
qed

lemma run_loop_log:
  "run_loop P topic batches total_sent s = (r, s') \<Longrightarrow>
   \<exists>added. log s' = log s @ added \<and> sent_prefix topic (concat batches) total_sent r added"
proof (induction batches arbitrary: total_sent s)
  case Nil
  then show ?case by (auto simp: sent_prefix_def)
next
  case (Cons b bs)
  obtain q t where q: "send_batch P topic b total_sent s = (q, t)" by (cases "send_batch P topic b total_sent s")
  from send_batch_log [OF q] obtain added where added: "log t = log s @ added" "sent_prefix topic b total_sent q added"
    by blast
  show ?case
  proof (cases q)
    case (Inl x)
    then show ?thesis using Cons.prems q added sent_prefix_raised by fastforce
  next
    case (Inr m)
    obtain k t' where poll: "p_poll P (Fin 0) t = (k, t')" by (cases "p_poll P (Fin 0) t")
    have "run_loop P topic bs (total_sent + length b) t' = (r, s')"
      using Cons.prems q poll Inr added(2) by (simp add: sent_prefix_def)
    from Cons.IH [OF this] obtain more where
      "log s' = log t' @ more" "sent_prefix topic (concat bs) (total_sent + length b) r more" by blast
    then show ?thesis using added Inr poll_log [OF poll] sent_prefix_append
      by (fastforce simp: sent_prefix_def [of topic b])
  qed
qed

end

lemma run_log:
  assumes "kafka_producer P sent" and "reraise_after 5 retry" and "ic_event_rate_tps cfg \<noteq> 0"
    and "run clip retry P cfg draws s = (r, s')"
  shows "\<exists>added. sent s' = sent s @ added
      \<and> sent_prefix (ic_kafka_topic_events cfg) (concat (event_stream clip cfg Map.empty draws)) 0 r added"
proof -
  have "run_loop (FeatureStoreProducer retry P) (ic_kafka_topic_events cfg) (event_stream clip cfg Map.empty draws) 0 s = (r, s')"
    using assms(3,4) by (simp add: run_def sleep_interval_def pydiv_def)
  then show ?thesis by (rule kafka_producer.run_loop_log [OF kafka_producer.retried_contract [OF assms(1,2)]])
qed

text \<open>
  C16. The generator's main loop delivers its events to the topic in order, each once and keyed with its user, and
  counts them: all of them when every send succeeds within five attempts; if one fails, the loop stops with its exception
  and exactly the events before it were accepted. Each message decodes to the event it was made from.
\<close>

theorem run_delivers:
  assumes "kafka_producer P sent" and "reraise_after 5 retry" and "ic_event_rate_tps cfg \<noteq> 0"
    and "run clip retry P cfg draws s = (r, s')"
  shows "\<exists>added. sent s' = sent s @ added
      \<and> sent_prefix (ic_kafka_topic_events cfg) (concat (event_stream clip cfg Map.empty draws)) 0 r added
      \<and> list_all (\<lambda>e. from_kafka_bytes fresh_id (to_kafka_bytes e) = Inr e)
          (concat (event_stream clip cfg Map.empty draws))"
proof -
  have "list_all (\<lambda>e. from_kafka_bytes fresh_id (to_kafka_bytes e) = Inr e)
      (concat (event_stream clip cfg Map.empty draws))"
    using event_stream_valid [of clip cfg Map.empty draws] event_json_roundtrip by (auto simp: list_all_iff)
  with run_log [OF assms] show ?thesis by blast
qed

lemma run_delivers_witness:
  "\<exists>r s'. run np_clip (attempts_reraise 5) ref_producer ingestion_config_default [sample_batch]
       \<lparr>rl_log = [], rl_faults = 3\<rparr> = (r, s') \<and> r = Inr 2 \<and> map (fst \<circ> snd) (rl_log s') = [''usr_00003'', ''usr_00003'']"
proof -
  have rate: "ic_event_rate_tps ingestion_config_default \<noteq> 0" by (simp add: ingestion_config_default_def)
  obtain r s' where go: "run np_clip (attempts_reraise 5) ref_producer ingestion_config_default [sample_batch]
      \<lparr>rl_log = [], rl_faults = 3\<rparr> = (r, s')" by (cases "run np_clip (attempts_reraise 5) ref_producer
      ingestion_config_default [sample_batch] \<lparr>rl_log = [], rl_faults = 3\<rparr>")
  have users: "map e_user_id (concat (event_stream np_clip ingestion_config_default Map.empty [sample_batch]))
      = [''usr_00003'', ''usr_00003'']"
    by code_simp
  have "isl (fst (run np_clip (attempts_reraise 5) ref_producer ingestion_config_default [sample_batch]
      \<lparr>rl_log = [], rl_faults = 3\<rparr>)) = False" by code_simp
  then have ok: "\<exists>n. r = Inr n" using go by (cases r) simp_all
  show ?thesis
    using run_delivers [OF ref_producer_contract reraise_after_attempts rate go] users ok go
    by (auto simp: sent_prefix_def event_msg_def comp_def)
qed

end
