(* ===== verification/Generator_Signals.thy ===== *)
theory Generator_Signals
  imports Ingestion
begin

text \<open>
  Stopping the event generator: \<open>run\<close> installs a handler for SIGINT and SIGTERM that flushes the producer and exits. The
  main loop is unrolled into the actions it performs, one per statement that touches the producer; a signal arrives after
  some number of them, the handler runs, and nothing follows.
\<close>

subsection \<open>The loop as a list of actions\<close>

datatype action =
    Produce ecommerce_event
  | Poll

definition loop_actions :: "ecommerce_event list list \<Rightarrow> action list" where
  "loop_actions batches = concat (map (\<lambda>batch. map Produce batch @ [Poll]) batches)"

fun perform :: "'p producer \<Rightarrow> string \<Rightarrow> action list \<Rightarrow> nat \<Rightarrow> 'p \<Rightarrow> (exn + nat) \<times> 'p" where
  "perform P topic [] total_sent s = (Inr total_sent, s)"
| "perform P topic (Produce event # acts) total_sent s =
     (case p_produce P (topic, e_user_id event, to_kafka_bytes event) s of
        (Inl e, s') \<Rightarrow> (Inl e, s')
      | (Inr u, s') \<Rightarrow> perform P topic acts (Suc total_sent) s')"
| "perform P topic (Poll # acts) total_sent s = perform P topic acts total_sent (snd (p_poll P (Fin 0) s))"

lemma perform_append:
  "perform P topic (xs @ ys) n s =
     (case perform P topic xs n s of (Inl e, s') \<Rightarrow> (Inl e, s') | (Inr m, s') \<Rightarrow> perform P topic ys m s')"
  by (induction P topic xs n s rule: perform.induct) (simp_all split: prod.split sum.split)

lemma perform_batch: "perform P topic (map Produce batch) n s = send_batch P topic batch n s"
  by (induction batch arbitrary: n s) (simp_all split: prod.split sum.split)

text \<open>Performing every action is running the loop.\<close>

lemma perform_loop: "perform P topic (loop_actions batches) n s = run_loop P topic batches n s"
  by (induction batches arbitrary: n s)
    (simp_all add: loop_actions_def perform_append perform_batch split: prod.split sum.split)

fun sent_events :: "action list \<Rightarrow> ecommerce_event list" where
  "sent_events [] = []"
| "sent_events (Produce e # acts) = e # sent_events acts"
| "sent_events (Poll # acts) = sent_events acts"

lemma sent_events_append: "sent_events (xs @ ys) = sent_events xs @ sent_events ys"
  by (induction xs rule: sent_events.induct) simp_all

lemma sent_events_loop: "sent_events (loop_actions batches) = concat batches"
proof (induction batches)
  case Nil
  then show ?case by (simp add: loop_actions_def)
next
  case (Cons b bs)
  have "sent_events (map Produce b) = b" by (induction b) simp_all
  then show ?case using Cons by (simp add: loop_actions_def sent_events_append)
qed

lemma sent_events_prefix: "\<exists>m. sent_events (take k acts) = take m (sent_events acts)"
proof -
  have "sent_events acts = sent_events (take k acts) @ sent_events (drop k acts)"
    by (metis append_take_drop_id sent_events_append)
  then show ?thesis by (metis append_eq_conv_conj)
qed

subsection \<open>The handler\<close>

definition shutdown :: "'p producer \<Rightarrow> 'p \<Rightarrow> 'p" where
  "shutdown P s = snd (p_flush P (Fin 10) s)"

text \<open>A signal after \<open>k\<close> actions. When a send raised before, the loop has ended with its exception and no handler runs.\<close>

definition interrupted_run ::
  "(int \<Rightarrow> int \<Rightarrow> int list \<Rightarrow> int list) \<Rightarrow> (('p \<Rightarrow> (exn + unit) \<times> 'p) \<Rightarrow> 'p \<Rightarrow> (exn + unit) \<times> 'p)
   \<Rightarrow> 'p producer \<Rightarrow> ingestion_config \<Rightarrow> batch_draws list \<Rightarrow> nat \<Rightarrow> 'p \<Rightarrow> (exn + nat) \<times> 'p" where
  "interrupted_run clip retry P cfg draws k s =
     (case sleep_interval cfg of
        Inl e \<Rightarrow> (Inl e, s)
      | Inr interval \<Rightarrow>
          (case perform (FeatureStoreProducer retry P) (ic_kafka_topic_events cfg)
             (take k (loop_actions (event_stream clip cfg Map.empty draws))) 0 s of
             (Inl e, s') \<Rightarrow> (Inl e, s')
           | (Inr total_sent, s') \<Rightarrow> (Inr total_sent, shutdown (FeatureStoreProducer retry P) s')))"

context kafka_producer
begin

lemma perform_log:
  assumes "perform P topic acts n0 s = (r, s')"
  shows "\<exists>added. log s' = log s @ added \<and> sent_prefix topic (sent_events acts) n0 r added"
  using assms
proof (induction acts arbitrary: n0 s)
  case Nil
  then show ?case by (auto simp: sent_prefix_def)
next
  case (Cons a acts)
  show ?case
  proof (cases a)
    case Poll
    obtain m t where t: "p_poll P (Fin 0) s = (m, t)" by fastforce
    then show ?thesis using Cons.IH [of n0 t] Cons.prems poll_log [OF t] by (auto simp: Poll)
  next
    case (Produce e)
    obtain q t where q: "p_produce P (event_msg topic e) s = (q, t)" by fastforce
    note step = produce_log [OF q]
    show ?thesis
    proof (cases q)
      case (Inl x)
      then show ?thesis using Cons.prems q step by (auto simp: Produce event_msg_def sent_prefix_def)
    next
      case (Inr u)
      then have "perform P topic acts (Suc n0) t = (r, s')" using Cons.prems q by (simp add: Produce event_msg_def)
      from Cons.IH [OF this] obtain added where "log s' = log t @ added" "sent_prefix topic (sent_events acts) (Suc n0) r added"
        by blast
      then show ?thesis using step Inr sent_prefix_Cons by (fastforce simp: Produce)
    qed
  qed
qed

end



end
