(* ===== verification/Redis.thy ===== *)
theory Redis
  imports Prelude
begin

text \<open>
  The interface to the Redis server. The server and its Python client are not part of the repository: the
  operations the code calls are a record \<open>redis\<close> that every definition takes as an argument, and
  the locale \<open>redis_server\<close> states what the code relies on, in terms of an observation
  \<open>redis_view\<close> of the server's data: a pipeline (MULTI/EXEC) takes effect as a whole, in order, or
  not at all, and reads report the view. \<open>apply_cmd\<close> is the documented effect of the four commands
  the code sends, \<open>elapse\<close> that of time passing on keys with a time to live. \<open>ref_redis\<close> is a
  server that satisfies the contract and computes; witnesses run on it.
\<close>

named_theorems redis_simps "effects of Redis commands on the view"

subsection \<open>Commands and the observed database\<close>

datatype sval = JList "pyfloat list" | SText string

fun sval_truthy :: "sval \<Rightarrow> bool" where
  "sval_truthy (JList xs) = True"
| "sval_truthy (SText s) = (s \<noteq> [])"

text \<open>\<open>json.loads\<close>: the text \<open>json.dumps\<close> wrote for a list of floats, or a text it rejects.\<close>

fun json_loads :: "sval \<Rightarrow> exn + pyfloat list" where
  "json_loads (JList xs) = Inr xs"
| "json_loads (SText s) = Inl ValueError"

definition json_dumps :: "pyfloat list \<Rightarrow> sval" where
  "json_dumps xs = JList xs"

datatype redis_cmd =
    HSET string "rval dict"
  | EXPIRE string int
  | SADD string string
  | SET_EX string sval int

record redis_view =
  v_hash :: "string \<Rightarrow> (string \<rightharpoonup> rval)"
  v_ttl :: "string \<rightharpoonup> nat"
  v_set :: "string \<Rightarrow> string set"
  v_str :: "string \<rightharpoonup> sval"

definition v_exists :: "redis_view \<Rightarrow> string \<Rightarrow> bool" where
  "v_exists v k \<longleftrightarrow> v_hash v k \<noteq> Map.empty \<or> v_set v k \<noteq> {} \<or> v_str v k \<noteq> None"

definition v_delete :: "string \<Rightarrow> redis_view \<Rightarrow> redis_view" where
  "v_delete k v = v\<lparr>v_hash := (v_hash v)(k := Map.empty), v_ttl := (v_ttl v)(k := None),
     v_set := (v_set v)(k := {}), v_str := (v_str v)(k := None)\<rparr>"

fun apply_cmd :: "redis_cmd \<Rightarrow> redis_view \<Rightarrow> redis_view" where
  "apply_cmd (HSET k m) v = v\<lparr>v_hash := (v_hash v)(k := v_hash v k ++ map_of m)\<rparr>"
| "apply_cmd (EXPIRE k n) v =
     (if \<not> v_exists v k then v
      else if n \<le> 0 then v_delete k v
      else v\<lparr>v_ttl := (v_ttl v)(k \<mapsto> nat n)\<rparr>)"
| "apply_cmd (SADD k x) v = v\<lparr>v_set := (v_set v)(k := insert x (v_set v k))\<rparr>"
| "apply_cmd (SET_EX k t n) v =
     v\<lparr>v_str := (v_str v)(k \<mapsto> t), v_ttl := (v_ttl v)(k \<mapsto> nat n)\<rparr>"

definition apply_cmds :: "redis_cmd list \<Rightarrow> redis_view \<Rightarrow> redis_view" where
  "apply_cmds cs v = fold apply_cmd cs v"

text \<open>\<open>d\<close> seconds pass: a key whose time to live is used up is gone.\<close>

definition expired :: "nat \<Rightarrow> redis_view \<Rightarrow> string \<Rightarrow> bool" where
  "expired d v k \<longleftrightarrow> (case v_ttl v k of None \<Rightarrow> False | Some n \<Rightarrow> n \<le> d)"

definition elapse :: "nat \<Rightarrow> redis_view \<Rightarrow> redis_view" where
  "elapse d v =
     \<lparr>v_hash = (\<lambda>k. if expired d v k then Map.empty else v_hash v k),
      v_ttl = (\<lambda>k. if expired d v k then None else map_option (\<lambda>n. n - d) (v_ttl v k)),
      v_set = (\<lambda>k. if expired d v k then {} else v_set v k),
      v_str = (\<lambda>k. if expired d v k then None else v_str v k)\<rparr>"

text \<open>The TTL reply: -2 for no such key, -1 for a key that does not expire.\<close>

definition ttl_reply :: "redis_view \<Rightarrow> string \<Rightarrow> int" where
  "ttl_reply v k = (if \<not> v_exists v k then - 2
     else case v_ttl v k of None \<Rightarrow> - 1 | Some n \<Rightarrow> int n)"

lemma apply_cmds_simps [simp, redis_simps]:
  "apply_cmds [] v = v"
  "apply_cmds (c # cs) v = apply_cmds cs (apply_cmd c v)"
  by (simp_all add: apply_cmds_def)

lemma apply_cmds_append [redis_simps]: "apply_cmds (cs @ ds) v = apply_cmds ds (apply_cmds cs v)"
  by (simp add: apply_cmds_def)

lemma v_exists_hash: "v_hash v k x \<noteq> None \<Longrightarrow> v_exists v k"
  by (auto simp: v_exists_def)

subsection \<open>The client's operations and their contract\<close>

record 's redis =
  r_exec :: "redis_cmd list \<Rightarrow> 's \<Rightarrow> (exn + unit) \<times> 's"
  r_hgetall :: "string \<Rightarrow> 's \<Rightarrow> exn + rval dict"
  r_ttl :: "string \<Rightarrow> 's \<Rightarrow> exn + int"
  r_srandmember :: "string \<Rightarrow> nat \<Rightarrow> 's \<Rightarrow> exn + string list"
  r_get :: "string \<Rightarrow> 's \<Rightarrow> exn + sval option"
  r_exists :: "string \<Rightarrow> 's \<Rightarrow> exn + nat"
  r_scard :: "string \<Rightarrow> 's \<Rightarrow> exn + nat"
  r_ping :: "'s \<Rightarrow> exn + unit"
  r_clock :: "'s \<Rightarrow> pyfloat"

locale redis_server =
  fixes R :: "'s redis" and view :: "'s \<Rightarrow> redis_view"
  assumes exec_ok: "r_exec R cs s = (Inr (), s') \<Longrightarrow> view s' = apply_cmds cs (view s)"
    and exec_raised: "r_exec R cs s = (Inl e, s') \<Longrightarrow> view s' = view s \<or> view s' = apply_cmds cs (view s)"
    and hgetall_view: "r_hgetall R k s = Inr d \<Longrightarrow> map_of d = v_hash (view s) k \<and> distinct (map fst d)"
    and ttl_view: "r_ttl R k s = Inr t \<Longrightarrow> t = ttl_reply (view s) k"
    and srandmember_view: "r_srandmember R k n s = Inr xs \<Longrightarrow>
      set xs \<subseteq> v_set (view s) k \<and> distinct xs \<and> length xs \<le> n"
    and get_view: "r_get R k s = Inr j \<Longrightarrow> j = v_str (view s) k"
    and exists_view: "r_exists R k s = Inr c \<Longrightarrow> 0 < c \<longleftrightarrow> v_exists (view s) k"
begin

text \<open>What holds of every outcome of a pipeline: all of it happened, or none of it did.\<close>

lemma exec_atomic:
  assumes "r_exec R cs s = (r, s')"
  shows "view s' = view s \<or> view s' = apply_cmds cs (view s)"
  using assms exec_ok exec_raised by (cases r) auto

text \<open>
  A pipeline may be retried, even when each attempt sends a different member \<open>cs i\<close> of a family (a new
  timestamp, say), if a later member absorbs an earlier one: however many attempts were needed, and whether or not
  the last one returned, the view is untouched or has the effect of exactly one member.
\<close>

lemma retried_once:
  assumes absorb: "\<And>i j v. apply_cmds (cs j) (apply_cmds (cs i) v) = apply_cmds (cs j) v"
    and run: "attempts n (\<lambda>t. r_exec R (cs (g t)) t) s = (r, s')"
  shows "view s' = view s \<or> (\<exists>i. view s' = apply_cmds (cs i) (view s))"
proof (rule attempts_invariant [OF _ _ run,
      where P = "\<lambda>t. view t = view s \<or> (\<exists>i. view t = apply_cmds (cs i) (view s))"])
  fix t r t'
  assume "view t = view s \<or> (\<exists>i. view t = apply_cmds (cs i) (view s))"
    and "r_exec R (cs (g t)) t = (r, t')"
  then show "view t' = view s \<or> (\<exists>i. view t' = apply_cmds (cs i) (view s))"
    using exec_atomic [of "cs (g t)" t r t'] absorb by auto
qed simp

lemma retried_ok:
  assumes absorb: "\<And>i j v. apply_cmds (cs j) (apply_cmds (cs i) v) = apply_cmds (cs j) v"
    and run: "attempts n (\<lambda>t. r_exec R (cs (g t)) t) s = (Inr (), s')"
  shows "\<exists>i. view s' = apply_cmds (cs i) (view s)"
proof -
  have "\<exists>t. (view t = view s \<or> (\<exists>i. view t = apply_cmds (cs i) (view s)))
      \<and> r_exec R (cs (g t)) t = (Inr (), s')"
  proof (rule attempts_success [OF run])
    fix t e t'
    assume "view t = view s \<or> (\<exists>i. view t = apply_cmds (cs i) (view s))"
      and "r_exec R (cs (g t)) t = (Inl e, t')"
    then show "view t' = view s \<or> (\<exists>i. view t' = apply_cmds (cs i) (view s))"
      using exec_atomic [of "cs (g t)" t "Inl e" t'] absorb by auto
  qed simp
  then show ?thesis using exec_ok absorb by metis
qed

end

subsection \<open>A server that satisfies the contract\<close>

record ref_db =
  db_hash :: "string \<Rightarrow> rval dict"
  db_ttl :: "string \<rightharpoonup> nat"
  db_set :: "string \<Rightarrow> string list"
  db_str :: "string \<rightharpoonup> sval"
  db_clock :: pyfloat

definition ref_view :: "ref_db \<Rightarrow> redis_view" where
  "ref_view db = \<lparr>v_hash = (\<lambda>k. map_of (db_hash db k)), v_ttl = db_ttl db,
     v_set = (\<lambda>k. set (db_set db k)), v_str = db_str db\<rparr>"

definition db_exists :: "ref_db \<Rightarrow> string \<Rightarrow> bool" where
  "db_exists db k \<longleftrightarrow> db_hash db k \<noteq> [] \<or> db_set db k \<noteq> [] \<or> db_str db k \<noteq> None"

fun ref_cmd :: "redis_cmd \<Rightarrow> ref_db \<Rightarrow> ref_db" where
  "ref_cmd (HSET k m) db =
     db\<lparr>db_hash := (db_hash db)(k := fold (\<lambda>(f, x). AList.update f x) (rev m) (db_hash db k))\<rparr>"
| "ref_cmd (EXPIRE k n) db =
     (if \<not> db_exists db k then db
      else if n \<le> 0 then db\<lparr>db_hash := (db_hash db)(k := []), db_ttl := (db_ttl db)(k := None),
        db_set := (db_set db)(k := []), db_str := (db_str db)(k := None)\<rparr>
      else db\<lparr>db_ttl := (db_ttl db)(k \<mapsto> nat n)\<rparr>)"
| "ref_cmd (SADD k x) db =
     db\<lparr>db_set := (db_set db)(k := (if x \<in> set (db_set db k) then db_set db k else db_set db k @ [x]))\<rparr>"
| "ref_cmd (SET_EX k t n) db =
     db\<lparr>db_str := (db_str db)(k \<mapsto> t), db_ttl := (db_ttl db)(k \<mapsto> nat n)\<rparr>"

definition ref_redis :: "ref_db redis" where
  "ref_redis = \<lparr>
     r_exec = (\<lambda>cs db. (Inr (), fold ref_cmd cs db)),
     r_hgetall = (\<lambda>k db. Inr (map (\<lambda>f. (f, the (map_of (db_hash db k) f))) (remdups (map fst (db_hash db k))))),
     r_ttl = (\<lambda>k db. Inr (if \<not> db_exists db k then - 2
        else case db_ttl db k of None \<Rightarrow> - 1 | Some n \<Rightarrow> int n)),
     r_srandmember = (\<lambda>k n db. Inr (take n (remdups (db_set db k)))),
     r_get = (\<lambda>k db. Inr (db_str db k)),
     r_exists = (\<lambda>k db. Inr (if db_exists db k then 1 else 0)),
     r_scard = (\<lambda>k db. Inr (length (remdups (db_set db k)))),
     r_ping = (\<lambda>db. Inr ()),
     r_clock = db_clock\<rparr>"

definition empty_db :: ref_db where
  "empty_db = \<lparr>db_hash = (\<lambda>k. []), db_ttl = Map.empty, db_set = (\<lambda>k. []), db_str = Map.empty,
     db_clock = Fin 1000\<rparr>"

lemma map_of_fold_update:
  "map_of (fold (\<lambda>(f, x). AList.update f x) (rev m) d) = map_of d ++ map_of m"
proof (induction m)
  case Nil
  then show ?case by simp
next
  case (Cons p m)
  then show ?case by (cases p) (simp add: fun_eq_iff map_add_def)
qed

lemma db_exists_view: "db_exists db k \<longleftrightarrow> v_exists (ref_view db) k"
  by (auto simp: db_exists_def v_exists_def ref_view_def)

lemma ref_cmd_view: "ref_view (ref_cmd c db) = apply_cmd c (ref_view db)"
proof (cases c)
  case (HSET k m)
  then show ?thesis by (auto simp: ref_view_def map_of_fold_update fun_eq_iff)
next
  case (EXPIRE k n)
  show ?thesis
    unfolding EXPIRE ref_cmd.simps apply_cmd.simps db_exists_view [symmetric]
    by (auto simp: ref_view_def v_delete_def fun_eq_iff)
next
  case (SADD k x)
  then show ?thesis by (auto simp: ref_view_def fun_eq_iff)
next
  case (SET_EX k t n)
  then show ?thesis by (auto simp: ref_view_def)
qed

lemma ref_cmds_view: "ref_view (fold ref_cmd cs db) = apply_cmds cs (ref_view db)"
  by (induction cs arbitrary: db) (auto simp: ref_cmd_view)

lemma map_of_keys_the: "map_of (map (\<lambda>f. (f, the (map_of d f))) (remdups (map fst d))) = map_of d"
proof
  fix x
  show "map_of (map (\<lambda>f. (f, the (map_of d f))) (remdups (map fst d))) x = map_of d x"
  proof (cases "x \<in> set (map fst d)")
    case True
    then have "map_of d x \<noteq> None" by (auto simp: map_of_eq_None_iff)
    with True show ?thesis by (subst map_of_map_keyed) auto
  next
    case False
    then have "map_of d x = None" by (auto simp: map_of_eq_None_iff)
    with False show ?thesis by (subst map_of_map_keyed_None) auto
  qed
qed

lemma ref_redis_server: "redis_server ref_redis ref_view"
proof (unfold_locales, goal_cases)
  case (1 cs s s')
  then show ?case by (auto simp: ref_redis_def ref_cmds_view)
next
  case (2 cs s e s')
  then show ?case by (simp add: ref_redis_def)
next
  case (3 k s d)
  then have d: "d = map (\<lambda>f. (f, the (map_of (db_hash s k) f))) (remdups (map fst (db_hash s k)))"
    by (simp add: ref_redis_def)
  have "map fst d = remdups (map fst (db_hash s k))" by (simp add: d comp_def)
  then show ?case unfolding d by (simp add: map_of_keys_the ref_view_def comp_def)
next
  case (4 k s n)
  have "v_ttl (ref_view s) = db_ttl s" by (simp add: ref_view_def)
  with 4 show ?case by (auto simp: ref_redis_def ttl_reply_def db_exists_view)
next
  case (5 k n s xs)
  then show ?case by (auto simp: ref_redis_def ref_view_def dest: in_set_takeD)
next
  case (6 k s t)
  then show ?case by (simp add: ref_redis_def ref_view_def)
next
  case (7 k s n)
  then show ?case by (auto simp: ref_redis_def db_exists_view split: if_splits)
qed

interpretation ref: redis_server ref_redis ref_view
  by (rule ref_redis_server)

end
