(* ===== verification/Online_Store.thy ===== *)
theory Online_Store
  imports Redis
begin

text \<open>
  The online store, \<open>online_store/\<close>: the configuration, the Redis key patterns of
  \<open>key_schema.py\<close>, the operations of \<open>SyncRedisClient\<close> (\<open>redis_client.py\<close>) and
  the proactive TTL refresh (\<open>cache_refresh.py\<close>). Every operation takes the Redis client \<open>R\<close>
  and the state of the world, and returns the outcome and the new state; logging is left out. A user's
  features are one hash \<open>features:<user>\<close>.
\<close>

subsection \<open>Configuration and keys\<close>

record online_config =
  oc_redis_host :: string
  oc_redis_port :: int
  oc_redis_db :: int
  oc_redis_max_connections :: int
  oc_feature_ttl_seconds :: int
  oc_refresh_threshold_ratio :: pyfloat

text \<open>
  The defaults, which environment variables may override. The ratio \<open>0.80\<close> is the 53-bit number Python
  reads it as, just above 4/5: the threshold below depends on the difference.
\<close>

definition online_config_default :: online_config where
  "online_config_default = \<lparr>
     oc_redis_host = ''localhost'',
     oc_redis_port = 6379,
     oc_redis_db = 0,
     oc_redis_max_connections = 20,
     oc_feature_ttl_seconds = 300,
     oc_refresh_threshold_ratio = Fin (3602879701896397 / 4503599627370496)\<rparr>"

definition feature_key :: "string \<Rightarrow> string" where
  "feature_key user_id = ''features:'' @ user_id"

definition feature_meta_key :: "string \<Rightarrow> string" where
  "feature_meta_key user_id = ''features:'' @ user_id @ '':meta''"

definition baseline_key :: "string \<Rightarrow> string" where
  "baseline_key feature_name = ''baseline:dist:'' @ feature_name"

definition USER_INDEX_KEY :: string where
  "USER_INDEX_KEY = ''index:active_users''"

definition FEATURE_FIELDS :: "string list" where
  "FEATURE_FIELDS = [''txn_count_5m'', ''avg_spend_1h'', ''session_activity_rate'',
     ''cart_abandon_ratio'', ''product_interaction_freq'', ''anomaly_score'', ''computed_at'']"

lemma feature_key_inject [simp]: "feature_key u = feature_key u' \<longleftrightarrow> u = u'"
  by (simp add: feature_key_def)

lemma feature_key_neq_index [simp]: "feature_key u \<noteq> USER_INDEX_KEY" "USER_INDEX_KEY \<noteq> feature_key u"
  by (simp_all add: feature_key_def USER_INDEX_KEY_def)

lemma feature_key_neq_baseline [simp]: "feature_key u \<noteq> baseline_key f" "baseline_key f \<noteq> feature_key u"
  by (simp_all add: feature_key_def baseline_key_def)

lemma baseline_key_inject [simp]: "baseline_key f = baseline_key f' \<longleftrightarrow> f = f'"
  by (simp add: baseline_key_def)

text \<open>
  Keys of different users, of different baselines and of the user index never coincide, so no write of one of
  them touches another; but the metadata key of a user \<open>u\<close> is the feature key of the user
  \<open>u:meta\<close>.
\<close>

theorem keys_disjoint:
  "(feature_key u = feature_key u') = (u = u')
   \<and> (baseline_key f = baseline_key f') = (f = f')
   \<and> feature_key u \<noteq> baseline_key f \<and> feature_key u \<noteq> USER_INDEX_KEY
   \<and> baseline_key f \<noteq> USER_INDEX_KEY
   \<and> (feature_meta_key u = feature_key w) = (w = u @ '':meta'')"
  by (auto simp: baseline_key_def USER_INDEX_KEY_def feature_meta_key_def feature_key_def)

subsection \<open>Writing and reading features\<close>

text \<open>The three commands every writer puts into its pipeline for one user.\<close>

definition feature_cmds :: "int \<Rightarrow> string \<Rightarrow> rval dict \<Rightarrow> redis_cmd list" where
  "feature_cmds ttl user_id payload =
     [HSET (feature_key user_id) payload,
      EXPIRE (feature_key user_id) ttl,
      SADD ''index:active_users'' user_id]"

text \<open>\<open>computed_at or time.time()\<close>: both \<open>None\<close> and \<open>0.0\<close> are false.\<close>

definition stamp :: "pyfloat option \<Rightarrow> pyfloat \<Rightarrow> pyfloat" where
  "stamp computed_at now = (case computed_at of None \<Rightarrow> now | Some t \<Rightarrow> f_or t now)"

definition write_payload :: "pyfloat dict \<Rightarrow> pyfloat \<Rightarrow> rval dict" where
  "write_payload features ts =
     AList.update ''computed_at'' (py_str ts) (map (\<lambda>(k, v). (k, py_str v)) features)"

definition write_features ::
  "'s redis \<Rightarrow> (('s \<Rightarrow> (exn + unit) \<times> 's) \<Rightarrow> 's \<Rightarrow> (exn + unit) \<times> 's)
   \<Rightarrow> online_config \<Rightarrow> string \<Rightarrow> pyfloat dict \<Rightarrow> pyfloat option \<Rightarrow> 's \<Rightarrow> (exn + unit) \<times> 's" where
  "write_features R retry cfg user_id features computed_at =
     retry (\<lambda>s.
       let ts = stamp computed_at (r_clock R s);
           payload = write_payload features ts
       in r_exec R (feature_cmds (oc_feature_ttl_seconds cfg) user_id payload) s)"

definition read_features :: "'s redis \<Rightarrow> string \<Rightarrow> 's \<Rightarrow> exn + rval dict option" where
  "read_features R user_id s =
     ebind (r_hgetall R (feature_key user_id) s)
       (\<lambda>data. Inr (if data \<noteq> [] then Some data else None))"

text \<open>
  One record of \<open>batch_write_features\<close>: the user id, absent when the record has no such key, and its numeric
  entries. The payload takes the known feature fields the record has; a record without a timestamp gets the current time.
\<close>

type_synonym batch_record = "string option \<times> pyfloat dict"

definition batch_payload :: "pyfloat dict \<Rightarrow> pyfloat \<Rightarrow> rval dict" where
  "batch_payload rec now =
     AList.update ''computed_at'' (py_str (dict_get rec ''computed_at'' now))
       (map (\<lambda>k. (k, py_str (dict_get rec k now)))
         (filter (\<lambda>k. k \<in> set (map fst rec)) (butlast FEATURE_FIELDS)))"

definition batch_cmds :: "online_config \<Rightarrow> pyfloat \<Rightarrow> batch_record \<Rightarrow> exn + redis_cmd list" where
  "batch_cmds cfg now rec =
     (case fst rec of
        None \<Rightarrow> Inl KeyError
      | Some user_id \<Rightarrow>
          Inr (feature_cmds (oc_feature_ttl_seconds cfg) user_id (batch_payload (snd rec) now)))"

definition batch_write_features ::
  "'s redis \<Rightarrow> online_config \<Rightarrow> batch_record list \<Rightarrow> 's \<Rightarrow> (exn + unit) \<times> 's" where
  "batch_write_features R cfg records s =
     (case emap (batch_cmds cfg (r_clock R s)) records of
        Inl e \<Rightarrow> (Inl e, s)
      | Inr cmds \<Rightarrow> r_exec R (concat cmds) s)"

definition user_ttl :: "'s redis \<Rightarrow> string \<Rightarrow> 's \<Rightarrow> exn + int" where
  "user_ttl R user_id s = r_ttl R (feature_key user_id) s"

definition sample_active_users :: "'s redis \<Rightarrow> nat \<Rightarrow> 's \<Rightarrow> exn + string list" where
  "sample_active_users R n s = r_srandmember R ''index:active_users'' n s"

definition store_baseline :: "'s redis \<Rightarrow> string \<Rightarrow> pyfloat list \<Rightarrow> 's \<Rightarrow> (exn + unit) \<times> 's" where
  "store_baseline R feature_name distribution s =
     r_exec R [SET_EX (baseline_key feature_name) (json_dumps distribution) (86400 * 7)] s"

definition load_baseline_sync :: "'s redis \<Rightarrow> string \<Rightarrow> 's \<Rightarrow> exn + pyfloat list option" where
  "load_baseline_sync R feature_name s =
     ebind (r_get R (baseline_key feature_name) s) (\<lambda>raw.
       case raw of
         None \<Rightarrow> Inr None
       | Some t \<Rightarrow> if sval_truthy t then ebind (json_loads t) (\<lambda>xs. Inr (Some xs)) else Inr None)"

subsection \<open>Proactive refresh\<close>

text \<open>\<open>int(x)\<close> truncates towards zero and raises on the special values.\<close>

fun py_int :: "pyfloat \<Rightarrow> exn + int" where
  "py_int (Fin x) = Inr (if 0 \<le> x then \<lfloor>x\<rfloor> else \<lceil>x\<rceil>)"
| "py_int x = Inl ValueError"

definition REFRESH_THRESHOLD :: "online_config \<Rightarrow> exn + int" where
  "REFRESH_THRESHOLD cfg =
     py_int (Fin (real_of_int (oc_feature_ttl_seconds cfg)) * (1 - oc_refresh_threshold_ratio cfg))"

fun stale_loop :: "'s redis \<Rightarrow> int \<Rightarrow> string list \<Rightarrow> 's \<Rightarrow> exn + string list" where
  "stale_loop R threshold [] s = Inr []"
| "stale_loop R threshold (user_id # users) s =
     ebind (user_ttl R user_id s) (\<lambda>t.
       ebind (stale_loop R threshold users s) (\<lambda>stale.
         Inr (if 0 < t \<and> t < threshold then user_id # stale else stale)))"

definition find_stale_users :: "'s redis \<Rightarrow> int \<Rightarrow> nat \<Rightarrow> 's \<Rightarrow> exn + string list" where
  "find_stale_users R threshold sample_size s =
     ebind (sample_active_users R sample_size s) (\<lambda>users. stale_loop R threshold users s)"

text \<open>
  One user: with a feature function, recompute and write; without one, only extend the TTL. The result says whether the
  user counts as refreshed; an exception of either step is logged and swallowed.
\<close>

definition refresh_one ::
  "'s redis \<Rightarrow> (('s \<Rightarrow> (exn + unit) \<times> 's) \<Rightarrow> 's \<Rightarrow> (exn + unit) \<times> 's)
   \<Rightarrow> online_config \<Rightarrow> (string \<Rightarrow> exn + pyfloat dict) option \<Rightarrow> string \<Rightarrow> 's \<Rightarrow> bool \<times> 's" where
  "refresh_one R retry cfg feature_fn user_id s =
     (case feature_fn of
        Some fn \<Rightarrow>
          (case fn user_id of
             Inl e \<Rightarrow> (False, s)
           | Inr features \<Rightarrow>
               (case write_features R retry cfg user_id features None s of
                  (Inl e, s') \<Rightarrow> (False, s')
                | (Inr u, s') \<Rightarrow> (True, s')))
      | None \<Rightarrow>
          (case r_exec R [EXPIRE (feature_key user_id) (oc_feature_ttl_seconds cfg)] s of
             (Inl e, s') \<Rightarrow> (False, s')
           | (Inr u, s') \<Rightarrow> (True, s')))"

fun refresh_features_for_users ::
  "'s redis \<Rightarrow> (('s \<Rightarrow> (exn + unit) \<times> 's) \<Rightarrow> 's \<Rightarrow> (exn + unit) \<times> 's)
   \<Rightarrow> online_config \<Rightarrow> (string \<Rightarrow> exn + pyfloat dict) option \<Rightarrow> string list \<Rightarrow> 's \<Rightarrow> nat \<times> 's" where
  "refresh_features_for_users R retry cfg feature_fn [] s = (0, s)"
| "refresh_features_for_users R retry cfg feature_fn (user_id # user_ids) s =
     (case refresh_one R retry cfg feature_fn user_id s of
        (ok, s') \<Rightarrow>
          (case refresh_features_for_users R retry cfg feature_fn user_ids s' of
             (refreshed, s'') \<Rightarrow> (if ok then Suc refreshed else refreshed, s'')))"

subsection \<open>Effect of a write on the view\<close>

lemma payload_nonempty: "write_payload features ts \<noteq> []" "batch_payload rec now \<noteq> []"
  by (auto simp: write_payload_def batch_payload_def dest: arg_cong [where f = "map fst"] simp: keys_AList_update)

lemma map_of_write_payload:
  "map_of (write_payload features ts) = (map_option py_str \<circ> map_of features)(''computed_at'' \<mapsto> py_str ts)"
  by (auto simp: write_payload_def fun_eq_iff map_of_map_values)

lemma dom_write_payload: "dom (map_of (write_payload features ts)) = insert ''computed_at'' (dom (map_of features))"
  by (auto simp: map_of_write_payload dom_def)

lemma feature_cmds_view [redis_simps]:
  assumes "0 < n" and "payload \<noteq> []"
  shows "apply_cmds (feature_cmds n u payload) v =
    v\<lparr>v_hash := (v_hash v)(feature_key u := v_hash v (feature_key u) ++ map_of payload),
      v_ttl := (v_ttl v)(feature_key u \<mapsto> nat n),
      v_set := (v_set v)(USER_INDEX_KEY := insert u (v_set v USER_INDEX_KEY))\<rparr>"
proof -
  have "v_hash v (feature_key u) ++ map_of payload \<noteq> Map.empty"
    using assms(2) by (metis map_add_None map_of_eq_empty_iff)
  then show ?thesis using assms(1)
    by (auto simp: feature_cmds_def v_exists_def USER_INDEX_KEY_def fun_eq_iff)
qed

lemma feature_cmds_absorb:
  assumes "0 < n" and "p \<noteq> []" and "q \<noteq> []" and "dom (map_of p) \<subseteq> dom (map_of q)"
  shows "apply_cmds (feature_cmds n u q) (apply_cmds (feature_cmds n u p) v) = apply_cmds (feature_cmds n u q) v"
proof -
  have "(h ++ map_of p) ++ map_of q = h ++ map_of q" for h
  proof
    fix x
    show "((h ++ map_of p) ++ map_of q) x = (h ++ map_of q) x"
      using assms(4) by (cases "map_of q x"; cases "map_of p x") (auto simp: map_add_def)
  qed
  then show ?thesis using assms(1,2,3) by (simp add: feature_cmds_view)
qed

subsection \<open>Properties of the client\<close>

context redis_server
begin

lemma write_features_effect:
  assumes "stop_after n retry" and "0 < oc_feature_ttl_seconds cfg"
    and "write_features R retry cfg u features computed_at s = (r, s')"
  shows "view s' = view s \<or> (\<exists>ts. view s' =
    apply_cmds (feature_cmds (oc_feature_ttl_seconds cfg) u (write_payload features ts)) (view s))"
    (is "_ \<or> (\<exists>ts. _ = apply_cmds (?cs ts) _)")
proof -
  have absorb: "apply_cmds (?cs j) (apply_cmds (?cs i) v) = apply_cmds (?cs j) v" for i j v
    using assms(2) by (intro feature_cmds_absorb) (auto simp: payload_nonempty dom_write_payload)
  show ?thesis
    using retried_once [of ?cs, OF absorb] assms(1,3)
    by (auto simp: write_features_def stop_after_def Let_def)
qed

lemma write_features_ok:
  assumes "stop_after n retry" and "0 < oc_feature_ttl_seconds cfg"
    and "write_features R retry cfg u features computed_at s = (Inr (), s')"
  shows "\<exists>ts. view s' =
    apply_cmds (feature_cmds (oc_feature_ttl_seconds cfg) u (write_payload features ts)) (view s)"
    (is "\<exists>ts. _ = apply_cmds (?cs ts) _")
proof -
  have absorb: "apply_cmds (?cs j) (apply_cmds (?cs i) v) = apply_cmds (?cs j) v" for i j v
    using assms(2) by (intro feature_cmds_absorb) (auto simp: payload_nonempty dom_write_payload)
  show ?thesis
    using retried_ok [of ?cs, OF absorb] assms(1,3)
    by (auto simp: write_features_def stop_after_def Let_def)
qed

lemma read_features_view:
  assumes "read_features R u s = Inr r"
  shows "case r of None \<Rightarrow> v_hash (view s) (feature_key u) = Map.empty
    | Some d \<Rightarrow> map_of d = v_hash (view s) (feature_key u) \<and> d \<noteq> []"
proof -
  obtain data where "r_hgetall R (feature_key u) s = Inr data" and "r = (if data \<noteq> [] then Some data else None)"
    using assms by (auto simp: read_features_def ebind_Inr_iff)
  then show ?thesis using hgetall_view [of "feature_key u" s data] by auto
qed

lemma stale_loop_view:
  "stale_loop R threshold us s = Inr stale \<Longrightarrow>
   stale = filter (\<lambda>u. 0 < ttl_reply (view s) (feature_key u) \<and> ttl_reply (view s) (feature_key u) < threshold) us"
  using ttl_view by (induction us arbitrary: stale) (auto simp: ebind_Inr_iff user_ttl_def split: if_splits)

lemma expire_frame:
  assumes "apply_cmds [EXPIRE k n] v = w" and "0 < n"
  shows "v_hash w = v_hash v \<and> v_set w = v_set v \<and> v_str w = v_str v"
  using assms by auto

lemma refresh_none_frame:
  assumes "0 < oc_feature_ttl_seconds cfg"
    and "refresh_features_for_users R retry cfg None us s = (n, s')"
  shows "v_hash (view s') = v_hash (view s) \<and> v_set (view s') = v_set (view s) \<and> n \<le> length us"
  using assms(2)
proof (induction us arbitrary: s n)
  case Nil
  then show ?case by simp
next
  case (Cons u us)
  obtain r t where r: "r_exec R [EXPIRE (feature_key u) (oc_feature_ttl_seconds cfg)] s = (r, t)"
    by fastforce
  have "view t = view s \<or> view t = apply_cmds [EXPIRE (feature_key u) (oc_feature_ttl_seconds cfg)] (view s)"
    by (rule exec_atomic [OF r])
  then have "v_hash (view t) = v_hash (view s) \<and> v_set (view t) = v_set (view s)"
    using expire_frame [OF _ assms(1)] by metis
  moreover from Cons.prems r obtain m where "refresh_features_for_users R retry cfg None us t = (m, s')" "n \<le> Suc m"
    by (auto simp: refresh_one_def split: sum.splits prod.splits if_splits)
  ultimately show ?case using Cons.IH by fastforce
qed

end

text \<open>
  C1. Writing a user's features and reading them back: when the write returns, a read that returns finds a hash in
  which every feature just written has its value, the timestamp is present, and a field the write did not mention
  keeps what was stored before; the key expires after the configured TTL and the user is in the index of
  active users.
\<close>

theorem write_read_roundtrip:
  assumes "redis_server R view" and "stop_after 3 retry"
    and "0 < oc_feature_ttl_seconds cfg"
    and "write_features R retry cfg u features computed_at s = (Inr (), s')"
    and "read_features R u s' = Inr r"
  shows "\<exists>d ts. r = Some d \<and> map_of d ''computed_at'' = Some (RNum ts)
    \<and> (\<forall>f. map_of d f = (if f = ''computed_at'' then Some (RNum ts) else
         case map_of features f of Some x \<Rightarrow> Some (RNum x) | None \<Rightarrow> v_hash (view s) (feature_key u) f))
    \<and> v_ttl (view s') (feature_key u) = Some (nat (oc_feature_ttl_seconds cfg))
    \<and> u \<in> v_set (view s') USER_INDEX_KEY"
proof -
  note server = assms(1) and n = assms(3)
  obtain ts where v: "view s' =
      apply_cmds (feature_cmds (oc_feature_ttl_seconds cfg) u (write_payload features ts)) (view s)"
    using redis_server.write_features_ok [OF server assms(2,3,4)] by blast
  have h: "v_hash (view s') (feature_key u) = v_hash (view s) (feature_key u) ++ map_of (write_payload features ts)"
    using n by (simp add: v feature_cmds_view payload_nonempty)
  then have "v_hash (view s') (feature_key u) ''computed_at'' = Some (RNum ts)"
    by (simp add: map_of_write_payload py_str_def)
  then obtain d where d: "r = Some d" "map_of d = v_hash (view s') (feature_key u)"
    using redis_server.read_features_view [OF server assms(5)] by (cases r) auto
  have "map_of d f = (if f = ''computed_at'' then Some (RNum ts) else
      case map_of features f of Some x \<Rightarrow> Some (RNum x) | None \<Rightarrow> v_hash (view s) (feature_key u) f)" for f
    unfolding d(2) h by (simp add: map_of_write_payload map_add_def py_str_def split: option.split)
  moreover have "v_ttl (view s') (feature_key u) = Some (nat (oc_feature_ttl_seconds cfg))"
    "u \<in> v_set (view s') USER_INDEX_KEY"
    using n by (simp_all add: v feature_cmds_view payload_nonempty)
  ultimately show ?thesis using d(1) by auto
qed

text \<open>Running a definition on the computing server.\<close>

lemma ref_redis_sel [simp]:
  "r_exec ref_redis cs db = (Inr (), fold ref_cmd cs db)"
  "r_hgetall ref_redis k db = Inr (map (\<lambda>f. (f, the (map_of (db_hash db k) f))) (remdups (map fst (db_hash db k))))"
  "r_clock ref_redis db = db_clock db"
  "r_srandmember ref_redis k n db = Inr (take n (remdups (db_set db k)))"
  "r_get ref_redis k db = Inr (db_str db k)"
  by (simp_all add: ref_redis_def)

definition sample_features :: "pyfloat dict" where
  "sample_features = [(''txn_count_5m'', Fin 3), (''avg_spend_1h'', Fin 45.2)]"

definition sample_db :: ref_db where
  "sample_db = snd (write_features ref_redis (attempts 3) online_config_default ''usr_00001'' sample_features None empty_db)"

lemma sample_write:
  "write_features ref_redis (attempts 3) online_config_default ''usr_00001'' sample_features None empty_db
   = (Inr (), sample_db)"
  by (simp add: sample_db_def write_features_def numeral_3_eq_3 Let_def)

lemma write_read_roundtrip_witness:
  "\<exists>d ts. read_features ref_redis ''usr_00001'' sample_db = Inr (Some d)
    \<and> map_of d ''computed_at'' = Some (RNum ts) \<and> map_of d ''txn_count_5m'' = Some (RNum (Fin 3))"
proof -
  have ttl: "0 < oc_feature_ttl_seconds online_config_default" by (simp add: online_config_default_def)
  obtain r where r: "read_features ref_redis ''usr_00001'' sample_db = Inr r"
    by (simp add: read_features_def)
  show ?thesis
    using write_read_roundtrip [OF ref_redis_server stop_after_attempts ttl sample_write r] r
    by (auto simp: sample_features_def)
qed

text \<open>
  C17. A write is atomic and safe to retry: whatever the outcome, including an exception after three failed attempts, the
  database either is unchanged or holds the complete payload with its expiry and index entry, for one
  timestamp; and no other user's features are touched.
\<close>

theorem write_features_atomic:
  assumes "redis_server R view" and "stop_after 3 retry"
    and "0 < oc_feature_ttl_seconds cfg"
    and "write_features R retry cfg u features computed_at s = (outcome, s')"
  shows "(view s' = view s \<or> (\<exists>ts. view s' =
      apply_cmds (feature_cmds (oc_feature_ttl_seconds cfg) u (write_payload features ts)) (view s)))
    \<and> (outcome = Inr () \<longrightarrow> v_hash (view s') (feature_key u) ''computed_at'' \<noteq> None)
    \<and> (\<forall>w. w \<noteq> u \<longrightarrow> v_hash (view s') (feature_key w) = v_hash (view s) (feature_key w)
         \<and> v_ttl (view s') (feature_key w) = v_ttl (view s) (feature_key w))"
proof -
  note effect = redis_server.write_features_effect [OF assms]
  have frame: "view s' = view s \<or> (\<exists>ts. view s' =
      apply_cmds (feature_cmds (oc_feature_ttl_seconds cfg) u (write_payload features ts)) (view s)) \<Longrightarrow>
      w \<noteq> u \<Longrightarrow> v_hash (view s') (feature_key w) = v_hash (view s) (feature_key w)
         \<and> v_ttl (view s') (feature_key w) = v_ttl (view s) (feature_key w)" for w
    using assms(3) by (auto simp: feature_cmds_view payload_nonempty)
  have "v_hash (view s') (feature_key u) ''computed_at'' \<noteq> None" if "outcome = Inr ()"
    using redis_server.write_features_ok [OF assms(1,2,3)] assms(3,4) that
    by (fastforce simp: feature_cmds_view payload_nonempty map_of_write_payload)
  with effect frame [OF effect] show ?thesis by blast
qed

lemma write_features_atomic_witness:
  "v_hash (ref_view sample_db) (feature_key ''usr_00001'') ''computed_at'' \<noteq> None
   \<and> v_hash (ref_view sample_db) (feature_key ''usr_00002'') = v_hash (ref_view empty_db) (feature_key ''usr_00002'')"
proof -
  have ttl: "0 < oc_feature_ttl_seconds online_config_default" by (simp add: online_config_default_def)
  show ?thesis
    using write_features_atomic [OF ref_redis_server stop_after_attempts ttl sample_write] by simp
qed

text \<open>
  The refresh candidates are exactly the sampled users whose remaining time to live is positive and below the
  threshold: never a user whose features have expired (reply -2) or never expire (-1).
\<close>

theorem find_stale_users_spec:
  assumes "redis_server R view"
    and "find_stale_users R threshold n s = Inr stale"
  shows "\<exists>sample. sample_active_users R n s = Inr sample
    \<and> set sample \<subseteq> v_set (view s) USER_INDEX_KEY \<and> length stale \<le> n
    \<and> stale = filter (\<lambda>u. v_exists (view s) (feature_key u) \<and>
        (\<exists>t. v_ttl (view s) (feature_key u) = Some t \<and> 0 < t \<and> int t < threshold)) sample"
proof -
  obtain sample where sample: "sample_active_users R n s = Inr sample"
    and loop: "stale_loop R threshold sample s = Inr stale"
    using assms(2) by (auto simp: find_stale_users_def ebind_Inr_iff)
  have m: "set sample \<subseteq> v_set (view s) USER_INDEX_KEY" "length sample \<le> n"
    using redis_server.srandmember_view [OF assms(1)] sample
    by (auto simp: sample_active_users_def USER_INDEX_KEY_def)
  have pred: "0 < ttl_reply (view s) k \<and> ttl_reply (view s) k < threshold \<longleftrightarrow>
      v_exists (view s) k \<and> (\<exists>t. v_ttl (view s) k = Some t \<and> 0 < t \<and> int t < threshold)" for k
    by (auto simp: ttl_reply_def split: option.split)
  have eq: "stale = filter (\<lambda>u. v_exists (view s) (feature_key u) \<and>
      (\<exists>t. v_ttl (view s) (feature_key u) = Some t \<and> 0 < t \<and> int t < threshold)) sample"
    using redis_server.stale_loop_view [OF assms(1) loop] by (simp only: pred)
  then have "length stale \<le> n" using m(2) length_filter_le le_trans by blast
  with sample m(1) eq show ?thesis by blast
qed

lemma find_stale_users_spec_witness:
  "find_stale_users ref_redis 301 10 sample_db = Inr [''usr_00001'']
   \<and> v_exists (ref_view sample_db) (feature_key ''usr_00001'')"
proof -
  have set: "db_set sample_db ''index:active_users'' = [''usr_00001'']"
    and ttl: "r_ttl ref_redis (feature_key ''usr_00001'') sample_db = Inr 300"
    using payload_nonempty(1)
    by (simp_all add: sample_db_def write_features_def attempts.simps(2) [of 2, simplified] numeral_3_eq_3 Let_def
        feature_cmds_def feature_key_def empty_db_def online_config_default_def db_exists_def ref_redis_def
        write_payload_def sample_features_def)
  have eval: "find_stale_users ref_redis 301 10 sample_db = Inr [''usr_00001'']"
    by (simp add: find_stale_users_def sample_active_users_def set user_ttl_def ttl)
  obtain sample where "[''usr_00001''] = filter (\<lambda>u. v_exists (ref_view sample_db) (feature_key u) \<and>
      (\<exists>t. v_ttl (ref_view sample_db) (feature_key u) = Some t \<and> 0 < t \<and> int t < 301)) sample"
    using find_stale_users_spec [OF ref_redis_server eval] by blast
  then have "set [''usr_00001''] \<subseteq> {u. v_exists (ref_view sample_db) (feature_key u)}" by auto
  with eval show ?thesis by simp
qed

text \<open>
  With the default TTL of 300 seconds and the ratio 0.80, the threshold is 59 seconds: the 53-bit value of the
  ratio lies just above 4/5, and \<open>int\<close> truncates 59.99... down. A key with exactly 60 seconds left, 80% of the
  TTL used, is not yet stale.
\<close>

theorem refresh_threshold_default: "REFRESH_THRESHOLD online_config_default = Inr 59"
proof -
  have "\<lfloor>300 * (1 - 3602879701896397 / 4503599627370496 :: real)\<rfloor> = (59::int)"
    by (rule floor_unique) (simp_all add: field_simps)
  then show ?thesis
    by (simp add: REFRESH_THRESHOLD_def online_config_default_def)
qed

text \<open>
  Refreshing without a feature function only extends lifetimes: no stored feature value, index entry or key comes
  into being or changes, so a user whose features have expired stays without features although the call counts the user
  as refreshed whenever the server answers.
\<close>

theorem refresh_extends_only:
  assumes "redis_server R view" and "0 < oc_feature_ttl_seconds cfg"
    and "refresh_features_for_users R retry cfg None users s = (refreshed, s')"
  shows "v_hash (view s') = v_hash (view s) \<and> v_set (view s') = v_set (view s)
    \<and> refreshed \<le> length users"
  by (rule redis_server.refresh_none_frame [OF assms])

lemma refresh_extends_only_witness:
  "fst (refresh_features_for_users ref_redis (attempts 3) online_config_default None [''usr_00001''] empty_db) = 1
   \<and> v_hash (ref_view (snd (refresh_features_for_users ref_redis (attempts 3) online_config_default None
       [''usr_00001''] empty_db))) = v_hash (ref_view empty_db)"
proof -
  have ttl: "0 < oc_feature_ttl_seconds online_config_default" by (simp add: online_config_default_def)
  have run: "refresh_features_for_users ref_redis (attempts 3) online_config_default None [''usr_00001''] empty_db
      = (1, snd (refresh_features_for_users ref_redis (attempts 3) online_config_default None [''usr_00001''] empty_db))"
    by (simp add: refresh_one_def)
  show ?thesis
    using refresh_extends_only [OF ref_redis_server ttl run] run by (metis fst_conv)
qed

subsection \<open>Batches\<close>

lemma emap_batch_cmds:
  "emap (batch_cmds cfg now) recs =
     (if \<forall>rec \<in> set recs. fst rec \<noteq> None
      then Inr (map (\<lambda>rec. feature_cmds (oc_feature_ttl_seconds cfg) (the (fst rec)) (batch_payload (snd rec) now)) recs)
      else Inl KeyError)"
  by (induction recs) (auto simp: batch_cmds_def split: option.splits)

lemma batch_frame:
  assumes "0 < n" and "u \<notin> the ` fst ` set recs"
  shows "v_hash (apply_cmds (concat (map (\<lambda>rec. feature_cmds n (the (fst rec)) (batch_payload (snd rec) now)) recs)) v)
    (feature_key u) = v_hash v (feature_key u)"
  using assms(2) by (induction recs arbitrary: v)
    (auto simp: apply_cmds_append feature_cmds_view [OF assms(1)] payload_nonempty)

lemma batch_effect:
  assumes "0 < n" and "distinct (map (the \<circ> fst) recs)" and "rec \<in> set recs"
  shows "v_hash (apply_cmds (concat (map (\<lambda>rec. feature_cmds n (the (fst rec)) (batch_payload (snd rec) now)) recs)) v)
    (feature_key (the (fst rec)))
    = v_hash v (feature_key (the (fst rec))) ++ map_of (batch_payload (snd rec) now)"
  using assms(2,3)
proof (induction recs arbitrary: v)
  case Nil
  then show ?case by simp
next
  case (Cons r recs)
  show ?case
  proof (cases "rec = r")
    case True
    moreover have "the (fst r) \<notin> the ` fst ` set recs" using Cons.prems(1) by (auto simp: image_image)
    ultimately show ?thesis
      by (simp add: apply_cmds_append batch_frame [OF assms(1)] feature_cmds_view [OF assms(1)] payload_nonempty)
  next
    case False
    then have "rec \<in> set recs" using Cons.prems by auto
    moreover from this have "the (fst rec) \<noteq> the (fst r)" using Cons.prems(1) by (auto simp: image_iff)
    ultimately have "rec \<in> set recs" and neq: "the (fst rec) \<noteq> the (fst r)" by simp_all
    then show ?thesis
      using Cons.IH Cons.prems(1)
      by (simp add: apply_cmds_append feature_cmds_view [OF assms(1)] payload_nonempty)
  qed
qed

text \<open>
  A batch is all or nothing: one record without a \<open>user_id\<close> raises \<open>KeyError\<close> before anything
  is sent and leaves the world as it was; when the batch returns, every record's payload is merged into its user's
  hash (for a batch that names each user once), and users outside the batch keep theirs.
\<close>

theorem batch_write_all_or_nothing:
  assumes "redis_server R view" and "0 < oc_feature_ttl_seconds cfg"
    and "batch_write_features R cfg recs s = (outcome, s')"
  shows "((\<exists>rec \<in> set recs. fst rec = None) \<longrightarrow> outcome = Inl KeyError \<and> s' = s)
    \<and> (outcome = Inr () \<longrightarrow> (\<forall>rec \<in> set recs. fst rec \<noteq> None)
       \<and> (distinct (map (the \<circ> fst) recs) \<longrightarrow> (\<forall>rec \<in> set recs.
            v_hash (view s') (feature_key (the (fst rec)))
            = v_hash (view s) (feature_key (the (fst rec))) ++ map_of (batch_payload (snd rec) (r_clock R s))))
       \<and> (\<forall>u. u \<notin> the ` fst ` set recs \<longrightarrow>
            v_hash (view s') (feature_key u) = v_hash (view s) (feature_key u)))"
proof (cases "\<forall>rec \<in> set recs. fst rec \<noteq> None")
  case False
  then have "emap (batch_cmds cfg (r_clock R s)) recs = Inl KeyError"
    by (simp only: emap_batch_cmds if_False)
  with assms(3) have "outcome = Inl KeyError" "s' = s" by (simp_all add: batch_write_features_def)
  with False show ?thesis by simp
next
  case True
  let ?cs = "concat (map (\<lambda>rec. feature_cmds (oc_feature_ttl_seconds cfg) (the (fst rec))
    (batch_payload (snd rec) (r_clock R s))) recs)"
  from True assms(3) have run: "r_exec R ?cs s = (outcome, s')"
    by (simp add: batch_write_features_def emap_batch_cmds)
  have "view s' = apply_cmds ?cs (view s)" if "outcome = Inr ()"
    using redis_server.exec_ok [OF assms(1)] run that by simp
  then show ?thesis
    using True batch_effect [OF assms(2)] batch_frame [OF assms(2)] by auto
qed

lemma batch_write_all_or_nothing_witness:
  "fst (batch_write_features ref_redis online_config_default [(Some ''a'', sample_features), (None, [])] empty_db)
     = Inl KeyError
   \<and> v_hash (ref_view (snd (batch_write_features ref_redis online_config_default [(Some ''a'', sample_features)] empty_db)))
       (feature_key ''a'') ''txn_count_5m'' = Some (RNum (Fin 3))"
proof -
  have ttl: "0 < oc_feature_ttl_seconds online_config_default" by (simp add: online_config_default_def)
  have one: "batch_write_features ref_redis online_config_default [(Some ''a'', sample_features)] empty_db
    = (Inr (), snd (batch_write_features ref_redis online_config_default [(Some ''a'', sample_features)] empty_db))"
    by (simp add: batch_write_features_def batch_cmds_def)
  have "map_of (batch_payload sample_features (Fin 1000)) ''txn_count_5m'' = Some (RNum (Fin 3))"
    by (simp add: batch_payload_def sample_features_def FEATURE_FIELDS_def dict_get_def py_str_def)
  moreover have "r_clock ref_redis empty_db = Fin 1000" by (simp add: empty_db_def)
  ultimately show ?thesis
    using batch_write_all_or_nothing [OF ref_redis_server ttl one]
      batch_write_all_or_nothing [OF ref_redis_server ttl surjective_pairing
        [of "batch_write_features ref_redis online_config_default [(Some ''a'', sample_features), (None, [])] empty_db"]]
    by auto
qed

end
