(* ===== verification/Statistics.thy ===== *)
theory Statistics
  imports Prelude
begin

text \<open>
  The statistics of drift detection: \<open>validation/psi_calculator.py\<close> and
  \<open>drift_detection/statistical_tests.py\<close>. numpy and scipy are not part of the repository: the operations the
  code calls are the record \<open>numpy\<close>, and the locale \<open>numerics\<close> states their documented behaviour on
  finite arrays, exactly (no rounding of intermediate results). \<open>ref_numpy\<close> satisfies it.
\<close>

subsection \<open>The numerical library\<close>

record numpy =
  np_min :: "pyfloat list \<Rightarrow> pyfloat"
  np_max :: "pyfloat list \<Rightarrow> pyfloat"
  np_linspace :: "pyfloat \<Rightarrow> pyfloat \<Rightarrow> nat \<Rightarrow> pyfloat list"
  np_histogram :: "pyfloat list \<Rightarrow> pyfloat list \<Rightarrow> exn + nat list"
  np_density :: "pyfloat list \<Rightarrow> pyfloat list \<Rightarrow> exn + pyfloat list"
  np_log :: "pyfloat \<Rightarrow> pyfloat"
  np_sum :: "pyfloat list \<Rightarrow> pyfloat"
  np_mean :: "pyfloat list \<Rightarrow> pyfloat"
  np_std :: "pyfloat list \<Rightarrow> pyfloat"
  ks_2samp :: "pyfloat list \<Rightarrow> pyfloat list \<Rightarrow> pyfloat \<times> pyfloat"

text \<open>A bin is closed on the left and open on the right, except the last one, which is closed.\<close>

definition in_bin :: "real list \<Rightarrow> nat \<Rightarrow> real \<Rightarrow> bool" where
  "in_bin bs i x \<longleftrightarrow> bs ! i \<le> x \<and> (x < bs ! Suc i \<or> Suc (Suc i) = length bs \<and> x = bs ! Suc i)"

definition bin_counts :: "real list \<Rightarrow> real list \<Rightarrow> nat list" where
  "bin_counts xs bs = map (\<lambda>i. length (filter (in_bin bs i) xs)) [0..<length bs - 1]"

definition densities :: "real list \<Rightarrow> real list \<Rightarrow> real list" where
  "densities xs bs = map (\<lambda>i. real (bin_counts xs bs ! i)
     / (real (sum_list (bin_counts xs bs)) * (bs ! Suc i - bs ! i))) [0..<length bs - 1]"

definition lin_space :: "real \<Rightarrow> real \<Rightarrow> nat \<Rightarrow> real list" where
  "lin_space a b n = map (\<lambda>i. a + real i * ((b - a) / real (n - 1))) [0..<n]"

definition mean_real :: "real list \<Rightarrow> real" where
  "mean_real xs = sum_list xs / real (length xs)"

definition std_real :: "real list \<Rightarrow> real" where
  "std_real xs = sqrt (sum_list (map (\<lambda>x. (x - mean_real xs)\<^sup>2) xs) / real (length xs))"

locale numerics =
  fixes NP :: numpy
  assumes min_fin: "xs \<noteq> [] \<Longrightarrow> np_min NP (map Fin xs) = Fin (Min (set xs))"
    and max_fin: "xs \<noteq> [] \<Longrightarrow> np_max NP (map Fin xs) = Fin (Max (set xs))"
    and linspace_fin: "2 \<le> n \<Longrightarrow> np_linspace NP (Fin a) (Fin b) n = map Fin (lin_space a b n)"
    and histogram_fin: "2 \<le> length bs \<Longrightarrow> sorted bs \<Longrightarrow>
      np_histogram NP (map Fin xs) (map Fin bs) = Inr (bin_counts xs bs)"
    and density_fin: "2 \<le> length bs \<Longrightarrow> sorted_wrt (<) bs \<Longrightarrow> 0 < sum_list (bin_counts xs bs) \<Longrightarrow>
      np_density NP (map Fin xs) (map Fin bs) = Inr (map Fin (densities xs bs))"
    and log_fin: "0 < x \<Longrightarrow> np_log NP (Fin x) = Fin (ln x)"
    and sum_fin: "np_sum NP (map Fin xs) = Fin (sum_list xs)"
    and mean_fin: "xs \<noteq> [] \<Longrightarrow> np_mean NP (map Fin xs) = Fin (mean_real xs)"
    and std_fin: "xs \<noteq> [] \<Longrightarrow> np_std NP (map Fin xs) = Fin (std_real xs)"
    and ks_self: "xs \<noteq> [] \<Longrightarrow> ks_2samp NP (map Fin xs) (map Fin xs) = (Fin 0, Fin 1)"

subsection \<open>The population stability index\<close>

definition EPSILON :: real where
  "EPSILON = 1 / 10 ^ 6"

definition N_BINS :: nat where
  "N_BINS = 10"

definition bump_last :: "pyfloat list \<Rightarrow> pyfloat list" where
  "bump_last bins = bins[length bins - 1 := last bins + Fin EPSILON]"

definition percentages :: "nat list \<Rightarrow> nat \<Rightarrow> pyfloat list" where
  "percentages counts n =
     map (\<lambda>p. if feq p (Fin 0) then Fin EPSILON else p)
       (map (\<lambda>c. fdiv (fnat c) (fnat n + Fin EPSILON)) counts)"

definition compute_psi :: "numpy \<Rightarrow> pyfloat list \<Rightarrow> pyfloat list \<Rightarrow> nat \<Rightarrow> exn + pyfloat" where
  "compute_psi NP expected actual n_bins =
     (if expected = [] \<or> actual = [] then Inr (Fin 0)
      else
        let min_val = np_min NP expected;
            max_val = np_max NP expected
        in if feq min_val max_val then Inr (Fin 0)
        else
          let bins = bump_last (np_linspace NP min_val max_val (n_bins + 1)) in
          ebind (np_histogram NP expected bins) (\<lambda>expected_counts.
          ebind (np_histogram NP actual bins) (\<lambda>actual_counts.
            let expected_pct = percentages expected_counts (length expected);
                actual_pct = percentages actual_counts (length actual);
                psi = np_sum NP (map2 (\<lambda>a e. (a - e) * np_log NP (fdiv a e)) actual_pct expected_pct)
            in Inr (py_round 6 (py_max (Fin 0) psi)))))"

definition psi_severity :: "pyfloat \<Rightarrow> pyfloat \<Rightarrow> pyfloat \<Rightarrow> string" where
  "psi_severity psi warn alert =
     (if psi < warn then ''ok'' else if psi < alert then ''warn'' else ''alert'')"

subsection \<open>The other tests\<close>

record ks_result =
  ks_statistic :: pyfloat
  ks_p_value :: pyfloat
  ks_significant :: bool

record zscore_result =
  zs_current_mean :: pyfloat
  zs_baseline_mean :: pyfloat
  zs_baseline_std :: pyfloat
  zs_z_score :: pyfloat
  zs_is_anomalous :: bool

definition ks_test :: "numpy \<Rightarrow> pyfloat list \<Rightarrow> pyfloat list \<Rightarrow> pyfloat \<Rightarrow> ks_result" where
  "ks_test NP baseline current alpha =
     (if baseline = [] \<or> current = []
      then \<lparr>ks_statistic = Fin 0, ks_p_value = Fin 1, ks_significant = False\<rparr>
      else
        let (statistic, pvalue) = ks_2samp NP baseline current
        in \<lparr>ks_statistic = py_round 6 statistic, ks_p_value = py_round 6 pvalue, ks_significant = pvalue < alpha\<rparr>)"

definition z_score_test :: "numpy \<Rightarrow> pyfloat list \<Rightarrow> pyfloat list \<Rightarrow> pyfloat \<Rightarrow> exn + zscore_result" where
  "z_score_test NP baseline current threshold =
     (if baseline = [] \<or> current = []
      then Inr \<lparr>zs_current_mean = Fin 0, zs_baseline_mean = Fin 0, zs_baseline_std = Fin 1, zs_z_score = Fin 0,
        zs_is_anomalous = False\<rparr>
      else
        let baseline_mean = np_mean NP baseline;
            baseline_std = np_std NP baseline + Fin (1 / 10 ^ 6);
            current_mean = np_mean NP current
        in ebind (pydiv \<bar>current_mean - baseline_mean\<bar> baseline_std) (\<lambda>z.
             Inr \<lparr>zs_current_mean = py_round 4 current_mean, zs_baseline_mean = py_round 4 baseline_mean,
               zs_baseline_std = py_round 4 baseline_std, zs_z_score = py_round 4 z,
               zs_is_anomalous = threshold < z\<rparr>))"

definition normalise :: "numpy \<Rightarrow> pyfloat list \<Rightarrow> pyfloat list" where
  "normalise NP hist = (let total = np_sum NP hist in map (\<lambda>h. fdiv h total) hist)"

definition kl_divergence :: "numpy \<Rightarrow> pyfloat list \<Rightarrow> pyfloat list \<Rightarrow> nat \<Rightarrow> exn + pyfloat" where
  "kl_divergence NP p q n_bins =
     (if p = [] \<or> q = [] then Inr (Fin 0)
      else
        let combined_min = py_min (np_min NP p) (np_min NP q);
            combined_max = py_max (np_max NP p) (np_max NP q) + Fin (1 / 10 ^ 9);
            bins = np_linspace NP combined_min combined_max (n_bins + 1)
        in ebind (np_density NP p bins) (\<lambda>p_density.
           ebind (np_density NP q bins) (\<lambda>q_density.
             let p_hist = normalise NP (map (\<lambda>h. h + Fin (1 / 10 ^ 10)) p_density);
                 q_hist = normalise NP (map (\<lambda>h. h + Fin (1 / 10 ^ 10)) q_density)
             in Inr (np_sum NP (map2 (\<lambda>a b. a * np_log NP (fdiv a b)) p_hist q_hist)))))"

subsection \<open>Bins\<close>

lemma length_bin_counts [simp]: "length (bin_counts xs bs) = length bs - 1"
  by (simp add: bin_counts_def)

lemma length_lin_space [simp]: "length (lin_space a b n) = n"
  by (simp add: lin_space_def)

lemma lin_space_nth: "i \<le> n \<Longrightarrow> lin_space a b (Suc n) ! i = a + real i * ((b - a) / real n)"
  by (simp add: lin_space_def nth_append del: upt_Suc)

lemma lin_space_strict:
  assumes "a < b" and "0 < n"
  shows "sorted_wrt (<) (lin_space a b (Suc n))"
proof -
  define w where "w = (b - a) / real n"
  have "0 < w" using assms by (simp add: w_def)
  then show ?thesis
    unfolding sorted_wrt_iff_nth_less
    by (auto simp: lin_space_nth less_Suc_eq_le mult_strict_right_mono simp flip: w_def)
qed

definition psi_bins :: "real \<Rightarrow> real \<Rightarrow> nat \<Rightarrow> real list" where
  "psi_bins a b n = (lin_space a b (Suc n))[n := b + EPSILON]"

lemma length_psi_bins [simp]: "length (psi_bins a b n) = Suc n"
  by (simp add: psi_bins_def)

lemma EPSILON_pos [simp]: "0 < EPSILON"
  by (simp add: EPSILON_def)

lemma bump_last_eq:
  assumes "0 < n"
  shows "bump_last (map Fin (lin_space a b (Suc n))) = map Fin (psi_bins a b n)"
proof -
  have "last (lin_space a b (Suc n)) = b"
    using assms by (subst last_conv_nth) (auto simp: lin_space_nth simp flip: length_greater_0_conv)
  moreover have "lin_space a b (Suc n) \<noteq> []" by (simp flip: length_greater_0_conv)
  ultimately show ?thesis by (simp add: bump_last_def psi_bins_def last_map map_update)
qed

lemma psi_bins_ends:
  assumes "0 < n"
  shows "psi_bins a b n ! 0 = a" and "psi_bins a b n ! n = b + EPSILON"
  using assms by (simp_all add: psi_bins_def lin_space_nth)

lemma psi_bins_strict:
  assumes "a < b" and "0 < n"
  shows "sorted_wrt (<) (psi_bins a b n)"
proof -
  define w where "w = (b - a) / real n"
  have w: "0 < w" "real n * w = b - a" using assms by (simp_all add: w_def)
  have top: "a + real i * w < b + EPSILON" if "i < n" for i
  proof -
    have "real i * w \<le> real n * w"
      using that w(1) by (intro mult_right_mono) auto
    then show ?thesis using w(2) EPSILON_pos by linarith
  qed
  have nth: "psi_bins a b n ! i = (if i = n then b + EPSILON else a + real i * w)" if "i \<le> n" for i
    using that by (simp add: psi_bins_def lin_space_nth nth_list_update w_def)
  show ?thesis
    unfolding sorted_wrt_iff_nth_less using w top
    by (auto simp: nth less_Suc_eq_le mult_strict_right_mono)
qed

text \<open>Bins in increasing order leave no gap between the first and the last edge.\<close>

lemma bins_cover:
  assumes "length bs = Suc n" and "0 < n" and "bs ! 0 \<le> x" and "x \<le> bs ! n" and "sorted bs"
  shows "\<exists>i < n. in_bin bs i x"
proof (cases "x = bs ! n")
  case True
  have "bs ! (n - 1) \<le> bs ! n" using assms by (intro sorted_nth_mono) auto
  then show ?thesis using True assms by (intro exI [of _ "n - 1"]) (auto simp: in_bin_def)
next
  case False
  then have "x < bs ! n" using assms by simp
  then obtain k where k: "k \<le> n" "\<forall>i < k. \<not> x < bs ! i" "x < bs ! k"
    using ex_least_nat_le [of "\<lambda>i. x < bs ! i" n] by blast
  then have "0 < k" using assms(3) by (cases k) auto
  then show ?thesis using k by (intro exI [of _ "k - 1"]) (auto simp: in_bin_def not_less)
qed

lemma count_covered:
  assumes "\<And>x. x \<in> set xs \<Longrightarrow> \<exists>i < n. in_bin bs i x" and "length bs = Suc n"
  shows "length xs \<le> sum_list (bin_counts xs bs)"
  using assms(1)
proof (induction xs)
  case Nil
  then show ?case by simp
next
  case (Cons x xs)
  then obtain i where i: "i < n" "in_bin bs i x" by auto
  let ?one = "\<lambda>i. if in_bin bs i x then 1 else (0::nat)"
  have "?one i \<le> sum_list (map ?one [0..<n])"
    using i by (intro member_le_sum_list) auto
  then have "1 \<le> sum_list (map ?one [0..<n])" using i by simp
  moreover have "sum_list (bin_counts (x # xs) bs)
      = sum_list (map ?one [0..<n]) + sum_list (bin_counts xs bs)"
    using assms(2) by (simp add: bin_counts_def flip: sum_list_addf) (intro arg_cong [where f = sum_list] map_cong, auto)
  ultimately show ?case using Cons by fastforce
qed

subsection \<open>The population stability index on finite data\<close>

definition pct :: "nat \<Rightarrow> nat \<Rightarrow> real" where
  "pct n c = (if c = 0 then EPSILON else real c / (real n + EPSILON))"

lemma pct_pos: "0 < pct n c"
  using EPSILON_pos by (simp add: pct_def add_nonneg_pos)

lemma percentages_eq: "percentages counts n = map Fin (map (pct n) counts)"
proof -
  have "real n + EPSILON \<noteq> 0" using EPSILON_pos by (metis add_nonneg_pos of_nat_0_le_iff less_irrefl)
  then show ?thesis by (auto simp: percentages_def pct_def fnat_def feq_def)
qed

definition psi_term :: "real \<Rightarrow> real \<Rightarrow> real" where
  "psi_term a e = (a - e) * ln (a / e)"

definition psi_sum :: "real list \<Rightarrow> real list \<Rightarrow> nat \<Rightarrow> real" where
  "psi_sum xs ys n =
     (let bs = psi_bins (Min (set xs)) (Max (set xs)) n
      in sum_list (map2 psi_term (map (pct (length ys)) (bin_counts ys bs)) (map (pct (length xs)) (bin_counts xs bs))))"

lemma psi_term_nonneg:
  assumes "0 < a" and "0 < e"
  shows "0 \<le> psi_term a e"
proof (cases "e \<le> a")
  case True
  then have "0 \<le> ln (a / e)" using assms by simp
  then show ?thesis using True by (simp add: psi_term_def)
next
  case False
  then have "ln (a / e) \<le> 0" using assms by simp
  then show ?thesis using False by (simp add: psi_term_def mult_nonpos_nonpos)
qed

lemma psi_sum_nonneg: "0 \<le> psi_sum xs ys n"
  unfolding psi_sum_def Let_def
  by (rule sum_list_nonneg) (auto simp: set_zip intro!: psi_term_nonneg pct_pos)

lemma psi_sum_self: "psi_sum xs xs n = 0"
proof -
  have "map2 psi_term as as = map (\<lambda>a. 0) as" for as
    by (induction as) (auto simp: psi_term_def)
  then show ?thesis by (simp add: psi_sum_def Let_def comp_def)
qed

context numerics
begin

lemma compute_psi_fin:
  assumes "xs \<noteq> []" and "ys \<noteq> []" and "0 < n"
  shows "compute_psi NP (map Fin xs) (map Fin ys) n =
    Inr (Fin (if Min (set xs) = Max (set xs) then 0 else round_real 6 (psi_sum xs ys n)))"
proof (cases "Min (set xs) = Max (set xs)")
  case True
  then show ?thesis using assms by (simp add: compute_psi_def min_fin max_fin feq_def)
next
  case False
  let ?a = "Min (set xs)" and ?b = "Max (set xs)"
  have "?a \<le> ?b" using assms by simp
  then have lt: "?a < ?b" using False by simp
  have bins: "bump_last (np_linspace NP (Fin ?a) (Fin ?b) (Suc n)) = map Fin (psi_bins ?a ?b n)"
    using assms by (simp add: linspace_fin bump_last_eq)
  have sorted: "sorted (psi_bins ?a ?b n)"
    using psi_bins_strict [OF lt assms(3)] by (rule strict_sorted_imp_sorted)
  have hist: "np_histogram NP (map Fin zs) (map Fin (psi_bins ?a ?b n)) = Inr (bin_counts zs (psi_bins ?a ?b n))" for zs
    using assms sorted by (intro histogram_fin) simp_all
  have terms: "map2 (\<lambda>a e. (a - e) * np_log NP (fdiv a e)) (map Fin (map (pct m) cs)) (map Fin (map (pct k) ds))
      = map Fin (map2 psi_term (map (pct m) cs) (map (pct k) ds))" for m k cs ds
    by (auto simp: zip_map_map psi_term_def log_fin pct_pos comp_def)
  show ?thesis
    using assms False
    by (simp add: compute_psi_def min_fin max_fin feq_def Let_def bins hist percentages_eq terms sum_fin
        psi_sum_nonneg [unfolded psi_sum_def Let_def] psi_sum_def del: map_map)
qed

end

subsection \<open>A library that satisfies the contract\<close>

definition ecdf :: "pyfloat list \<Rightarrow> pyfloat \<Rightarrow> real" where
  "ecdf xs x = real (length (filter (\<lambda>y. y \<le> x) xs)) / real (length xs)"

definition ref_ks_statistic :: "pyfloat list \<Rightarrow> pyfloat list \<Rightarrow> real" where
  "ref_ks_statistic xs ys = foldr max (map (\<lambda>x. \<bar>ecdf xs x - ecdf ys x\<bar>) (xs @ ys)) 0"

definition ref_numpy :: numpy where
  "ref_numpy = \<lparr>
     np_min = (\<lambda>xs. Fin (Min (set (map real_of xs)))),
     np_max = (\<lambda>xs. Fin (Max (set (map real_of xs)))),
     np_linspace = (\<lambda>a b n. map Fin (lin_space (real_of a) (real_of b) n)),
     np_histogram = (\<lambda>xs bs. if sorted (map real_of bs) then Inr (bin_counts (map real_of xs) (map real_of bs))
       else Inl ValueError),
     np_density = (\<lambda>xs bs. if sorted (map real_of bs) then Inr (map Fin (densities (map real_of xs) (map real_of bs)))
       else Inl ValueError),
     np_log = (\<lambda>x. Fin (ln (real_of x))),
     np_sum = (\<lambda>xs. Fin (sum_list (map real_of xs))),
     np_mean = (\<lambda>xs. Fin (mean_real (map real_of xs))),
     np_std = (\<lambda>xs. Fin (std_real (map real_of xs))),
     ks_2samp = (\<lambda>xs ys. (Fin (ref_ks_statistic xs ys), Fin (1 - ref_ks_statistic xs ys)))\<rparr>"

lemma map_real_of_Fin [simp]: "map real_of (map Fin xs) = xs"
  by (induction xs) simp_all

lemma real_of_comp_Fin [simp]: "real_of \<circ> Fin = id"
  by auto

lemma ref_ks_self: "ref_ks_statistic xs xs = 0"
proof -
  have "foldr max (map (\<lambda>x. 0) ys) (0::real) = 0" for ys :: "pyfloat list" by (induction ys) auto
  then show ?thesis by (simp add: ref_ks_statistic_def del: map_append foldr_append)
qed

lemma ref_numpy_contract: "numerics ref_numpy"
  by unfold_locales (simp_all add: ref_numpy_def ref_ks_self strict_sorted_imp_sorted image_image)

interpretation ref_np: numerics ref_numpy
  by (rule ref_numpy_contract)

subsection \<open>Properties of the index\<close>



text \<open>
  A constant baseline hides every shift: the index is 0 and the severity \<open>ok\<close>, however far the current
  values are from it.
\<close>

theorem psi_constant_baseline_blind:
  assumes "numerics NP" and "0 < n" and "0 < k" and "ys \<noteq> []"
  shows "compute_psi NP (map Fin (replicate k c)) (map Fin ys) n = Inr (Fin 0)
    \<and> psi_severity (Fin 0) (Fin (1 / 10)) (Fin (1 / 5)) = ''ok''"
proof -
  have "replicate k c \<noteq> []" "set (replicate k c) = {c}" using assms(3) by auto
  then show ?thesis
    using numerics.compute_psi_fin [OF assms(1) _ assms(4,2), of "replicate k c"] by (simp add: psi_severity_def)
qed

lemma psi_constant_baseline_blind_witness:
  "compute_psi ref_numpy (map Fin (replicate 3 0)) (map Fin [1000]) N_BINS = Inr (Fin 0)"
proof -
  have n: "0 < N_BINS" and k: "0 < (3::nat)" and ys: "[1000] \<noteq> ([] :: real list)"
    by (simp_all add: N_BINS_def)
  show ?thesis using psi_constant_baseline_blind [OF ref_numpy_contract n k ys] by blast
qed

lemma ln_ge: "x \<ge> 65536 \<Longrightarrow> 8 \<le> ln (x :: real)"
proof -
  assume x: "65536 \<le> x"
  have "exp (8 :: real) = exp 1 ^ 8" by (simp add: exp_of_nat_mult [symmetric])
  also have "\<dots> \<le> 3 ^ 8" by (intro power_mono exp_le) simp
  also have "\<dots> \<le> x" using x by simp
  finally show ?thesis using x by (simp add: ln_ge_iff)
qed

lemma crowded_bin:
  assumes "length cs = 10" and "N \<le> sum_list cs"
  shows "\<exists>c \<in> set cs. N \<le> 10 * (c :: nat)"
proof (rule ccontr)
  assume "\<not> ?thesis"
  then have "\<forall>c \<in> set cs. 10 * c + 1 \<le> N" by auto
  then have "sum_list (map (\<lambda>c. 10 * c + 1) cs) \<le> sum_list (map (\<lambda>c. N) cs)" by (intro sum_list_mono) auto
  moreover have "sum_list (map (\<lambda>c. 10 * c + 1) cs) = 10 * sum_list cs + length cs" by (induction cs) auto
  ultimately have "10 * sum_list cs + 10 \<le> 10 * N" using assms(1) by (simp add: sum_list_triv)
  with assms(2) show False by simp
qed

text \<open>A bin that holds a tenth of the baseline and nothing of the current data contributes more than one half.\<close>

lemma psi_term_lost_bin:
  assumes "0 < N" and "N \<le> 10 * c"
  shows "1 / 2 \<le> psi_term EPSILON (pct N c)"
proof -
  define e where "e = pct N c"
  have "0 < c" using assms by simp
  then have e: "e = real c / (real N + EPSILON)" by (simp add: e_def pct_def)
  have "real N + EPSILON \<le> 11 * real c" using assms by (simp add: EPSILON_def)
  moreover have pos: "0 < real N + EPSILON" using assms by (simp add: EPSILON_def add_pos_pos)
  ultimately have e11: "1 / 11 \<le> e" unfolding e by (simp add: divide_le_eq le_divide_eq)
  then have "65536 \<le> e / EPSILON" by (simp add: EPSILON_def)
  then have l: "8 \<le> ln (e / EPSILON)" by (rule ln_ge)
  have "1 / 16 \<le> e - EPSILON" using e11 by (simp add: EPSILON_def)
  then have "1 / 16 * 8 \<le> (e - EPSILON) * ln (e / EPSILON)" using l by (intro mult_mono) auto
  moreover have "ln (EPSILON / e) = - ln (e / EPSILON)" using e11 by (simp add: ln_div)
  ultimately show ?thesis by (simp add: psi_term_def minus_mult_commute flip: e_def) (simp add: algebra_simps)
qed

lemma psi_shift_severity:
  assumes "numerics NP" and "xs \<noteq> []" and "ys \<noteq> []" and "Min (set xs) \<noteq> Max (set xs)"
    and "\<forall>y \<in> set ys. y < Min (set xs) \<or> Max (set xs) + EPSILON < y"
  shows "\<exists>q. compute_psi NP (map Fin xs) (map Fin ys) N_BINS = Inr q
    \<and> psi_severity q (Fin (1 / 10)) (Fin (1 / 5)) = ''alert''"
proof -
  let ?a = "Min (set xs)" and ?b = "Max (set xs)"
  let ?bs = "psi_bins ?a ?b 10"
  have "?a \<le> ?b" using assms(2) by simp
  then have lt: "?a < ?b" using assms(4) by simp
  note strict = psi_bins_strict [OF lt, of 10, simplified]
  note ends = psi_bins_ends [of 10 ?a ?b, simplified]
  have edge: "?a \<le> ?bs ! i \<and> ?bs ! i \<le> ?b + EPSILON" if "i \<le> 10" for i
    using sorted_nth_mono [OF strict_sorted_imp_sorted [OF strict], of 0 i]
      sorted_nth_mono [OF strict_sorted_imp_sorted [OF strict], of i 10] that by (simp add: ends)
  have "\<not> in_bin ?bs i y" if "y \<in> set ys" "i < 10" for i y
    using assms(5) that edge [of i] edge [of "Suc i"] by (fastforce simp: in_bin_def)
  then have lost: "bin_counts ys ?bs = replicate 10 0"
    by (intro nth_equalityI) (auto simp: bin_counts_def filter_empty_conv)
  have in_range: "\<exists>i < 10. in_bin ?bs i x" if "x \<in> set xs" for x
  proof -
    have "?a \<le> x" "x \<le> ?b" using that by simp_all
    then have "x \<le> ?b + EPSILON" using EPSILON_pos by linarith
    then show ?thesis using \<open>?a \<le> x\<close> by (intro bins_cover strict_sorted_imp_sorted strict) (simp_all add: ends)
  qed
  have cov: "length xs \<le> sum_list (bin_counts xs ?bs)"
    by (rule count_covered [where n = 10]) (use in_range in auto)
  obtain c where c: "c \<in> set (bin_counts xs ?bs)" "length xs \<le> 10 * c"
    using crowded_bin [OF _ cov] by auto
  have terms: "map2 psi_term (map (pct (length ys)) (replicate 10 0)) (map (pct (length xs)) (bin_counts xs ?bs))
      = map (\<lambda>d. psi_term EPSILON (pct (length xs) d)) (bin_counts xs ?bs)"
    by (rule nth_equalityI) (simp_all add: pct_def)
  have "psi_term EPSILON (pct (length xs) c) \<le> psi_sum xs ys 10"
    unfolding psi_sum_def Let_def lost terms
    by (rule member_le_sum_list) (use c in \<open>auto intro!: psi_term_nonneg pct_pos\<close>)
  moreover have "1 / 2 \<le> psi_term EPSILON (pct (length xs) c)"
    by (rule psi_term_lost_bin) (use assms(2) c in auto)
  ultimately have "1 / 2 \<le> psi_sum xs ys 10" by simp
  from round_real_mono [OF this, of 6] have "1 / 2 \<le> round_real 6 (psi_sum xs ys 10)"
    by (simp add: round_real_decimal [where k = 500000])
  then show ?thesis
    using numerics.compute_psi_fin [OF assms(1-3), of 10] assms(4) by (simp add: N_BINS_def psi_severity_def)
qed

text \<open>
  Nothing is missed when the data move out of the baseline's range: if the baseline is not constant and no
  current value lies between its smallest and (a millionth above) its largest value, the severity with the default
  thresholds is \<open>alert\<close>.
\<close>

theorem psi_total_shift_alerts:
  assumes "numerics NP" and "xs \<noteq> []" and "ys \<noteq> []" and "Min (set xs) \<noteq> Max (set xs)"
    and "\<forall>y \<in> set ys. y < Min (set xs) \<or> Max (set xs) + EPSILON < y"
  shows "\<exists>q. compute_psi NP (map Fin xs) (map Fin ys) N_BINS = Inr q
    \<and> psi_severity q (Fin (1 / 10)) (Fin (1 / 5)) = ''alert''"
  by (rule psi_shift_severity [OF assms])

lemma psi_total_shift_alerts_witness:
  "\<exists>q. compute_psi ref_numpy (map Fin [1, 2]) (map Fin [5]) N_BINS = Inr q
    \<and> psi_severity q (Fin (1 / 10)) (Fin (1 / 5)) = ''alert''"
proof -
  have h: "[1, 2] \<noteq> ([] :: real list)" "[5] \<noteq> ([] :: real list)" "Min (set [1, 2 :: real]) \<noteq> Max (set [1, 2 :: real])"
    "\<forall>y \<in> set [5 :: real]. y < Min (set [1, 2 :: real]) \<or> Max (set [1, 2 :: real]) + EPSILON < y"
    by (simp_all add: EPSILON_def)
  show ?thesis by (rule psi_total_shift_alerts [OF ref_numpy_contract h])
qed

subsection \<open>The Kullback-Leibler divergence\<close>

lemma gibbs:
  assumes "length as = length bs" and "\<forall>a \<in> set as. 0 < a" and "\<forall>b \<in> set bs. 0 < b"
  shows "sum_list as - sum_list bs \<le> sum_list (map2 (\<lambda>a b. a * ln (a / b)) as (bs :: real list))"
  using assms
proof (induction as bs rule: list_induct2)
  case Nil
  then show ?case by simp
next
  case (Cons a as b bs)
  then have pos: "0 < a" "0 < b" by auto
  have "a * ln (b / a) \<le> a * (b / a - 1)"
    using pos by (intro mult_left_mono ln_le_minus_one) auto
  then have "a - b \<le> a * ln (a / b)" using pos by (simp add: ln_div algebra_simps)
  with Cons show ?case by simp
qed

definition smoothed :: "real list \<Rightarrow> real list" where
  "smoothed ds = (let hs = map (\<lambda>d. d + 1 / 10 ^ 10) ds in map (\<lambda>h. h / sum_list hs) hs)"

lemma sum_list_positive: "hs \<noteq> [] \<Longrightarrow> \<forall>h \<in> set hs. 0 < h \<Longrightarrow> 0 < sum_list (hs :: real list)"
  by (induction hs rule: list_nonempty_induct) auto

lemma sum_list_quotient: "sum_list (map (\<lambda>h. h / c) hs) = sum_list hs / (c :: real)"
  by (induction hs) (auto simp: add_divide_distrib)

lemma smoothed_distribution:
  assumes "ds \<noteq> []" and "\<forall>d \<in> set ds. 0 \<le> d"
  shows "sum_list (smoothed ds) = 1" and "\<forall>p \<in> set (smoothed ds). 0 < p"
proof -
  let ?hs = "map (\<lambda>d. d + 1 / 10 ^ 10) ds"
  have pos: "\<forall>h \<in> set ?hs. 0 < h" using assms(2) by (auto intro: add_nonneg_pos)
  then have "0 < sum_list ?hs" using assms(1) by (intro sum_list_positive) auto
  then show "sum_list (smoothed ds) = 1" "\<forall>p \<in> set (smoothed ds). 0 < p"
    using pos by (auto simp: smoothed_def Let_def sum_list_quotient simp del: map_map)
qed

definition kl_bins :: "real list \<Rightarrow> real list \<Rightarrow> nat \<Rightarrow> real list" where
  "kl_bins xs ys n = lin_space (min (Min (set xs)) (Min (set ys))) (max (Max (set xs)) (Max (set ys)) + 1 / 10 ^ 9) (Suc n)"

definition kl_sum :: "real list \<Rightarrow> real list \<Rightarrow> nat \<Rightarrow> real" where
  "kl_sum xs ys n = sum_list (map2 (\<lambda>a b. a * ln (a / b))
     (smoothed (densities xs (kl_bins xs ys n))) (smoothed (densities ys (kl_bins xs ys n))))"

lemma kl_bins_facts:
  assumes "xs \<noteq> []" and "ys \<noteq> []" and "0 < n"
  shows "sorted_wrt (<) (kl_bins xs ys n)" and "length (kl_bins xs ys n) = Suc n"
    and "0 < sum_list (bin_counts xs (kl_bins xs ys n))" and "0 < sum_list (bin_counts ys (kl_bins xs ys n))"
proof -
  let ?a = "min (Min (set xs)) (Min (set ys))" and ?b = "max (Max (set xs)) (Max (set ys)) + 1 / 10 ^ 9"
  have inside: "?a \<le> z \<and> z \<le> ?b" if "z \<in> set xs \<or> z \<in> set ys" for z
  proof -
    have "?a \<le> z" using that by (auto simp: min_le_iff_disj)
    moreover have "z \<le> max (Max (set xs)) (Max (set ys))" using that by (auto simp: le_max_iff_disj)
    ultimately show ?thesis by (simp add: add_increasing2)
  qed
  have lt: "?a < ?b"
  proof -
    have "hd xs \<in> set xs" using assms(1) by simp
    then have "Min (set xs) \<le> hd xs" "hd xs \<le> Max (set xs)" by simp_all
    then have "?a \<le> max (Max (set xs)) (Max (set ys))"
      by (metis max.coboundedI1 min.coboundedI1 order_trans)
    moreover have "\<dots> < ?b" by (simp only: less_add_same_cancel1) simp
    ultimately show ?thesis by (rule le_less_trans)
  qed
  show strict: "sorted_wrt (<) (kl_bins xs ys n)"
    unfolding kl_bins_def by (rule lin_space_strict [OF lt assms(3)])
  show len: "length (kl_bins xs ys n) = Suc n" by (simp add: kl_bins_def)
  have ends: "kl_bins xs ys n ! 0 = ?a" "kl_bins xs ys n ! n = ?b"
    using assms(3) by (simp_all add: kl_bins_def lin_space_nth)
  have cov: "length zs \<le> sum_list (bin_counts zs (kl_bins xs ys n))" if "set zs \<subseteq> set xs \<union> set ys" for zs
  proof (rule count_covered [OF _ len])
    fix z assume "z \<in> set zs"
    then have "?a \<le> z \<and> z \<le> ?b" using that inside by blast
    then show "\<exists>i < n. in_bin (kl_bins xs ys n) i z"
      by (intro bins_cover [OF len assms(3)] strict_sorted_imp_sorted strict) (simp_all only: ends)
  qed
  show "0 < sum_list (bin_counts xs (kl_bins xs ys n))" "0 < sum_list (bin_counts ys (kl_bins xs ys n))"
    using cov [of xs] cov [of ys] assms(1,2) by (auto simp flip: length_greater_0_conv)
qed

lemma densities_nonneg:
  assumes "sorted_wrt (<) bs"
  shows "\<forall>d \<in> set (densities xs bs). 0 \<le> d"
proof -
  have "0 \<le> bs ! Suc i - bs ! i" if "i < length bs - 1" for i
    using assms that by (simp add: sorted_wrt_iff_nth_less less_imp_le)
  then show ?thesis by (auto simp: densities_def intro!: divide_nonneg_nonneg mult_nonneg_nonneg)
qed

lemma length_densities [simp]: "length (densities xs bs) = length bs - 1"
  by (simp add: densities_def)

context numerics
begin

lemma normalise_fin:
  "normalise NP (map (\<lambda>h. h + Fin (1 / 10 ^ 10)) (map Fin ds)) = map Fin (smoothed ds)"
proof -
  have "map (\<lambda>h. h + Fin (1 / 10 ^ 10)) (map Fin ds) = map Fin (map (\<lambda>d. d + 1 / 10 ^ 10) ds)" by simp
  then show ?thesis by (simp add: normalise_def smoothed_def Let_def sum_fin del: map_map) simp
qed

lemma kl_divergence_fin:
  assumes "xs \<noteq> []" and "ys \<noteq> []" and "0 < n"
  shows "kl_divergence NP (map Fin xs) (map Fin ys) n = Inr (Fin (kl_sum xs ys n)) \<and> 0 \<le> kl_sum xs ys n"
proof -
  note facts = kl_bins_facts [OF assms]
  have bins: "np_linspace NP (Fin (min (Min (set xs)) (Min (set ys))))
      (Fin (max (Max (set xs)) (Max (set ys)) + 1 / 10 ^ 9)) (Suc n) = map Fin (kl_bins xs ys n)"
    using assms(3) by (simp add: kl_bins_def linspace_fin)
  have dens: "np_density NP (map Fin xs) (map Fin (kl_bins xs ys n)) = Inr (map Fin (densities xs (kl_bins xs ys n)))"
    "np_density NP (map Fin ys) (map Fin (kl_bins xs ys n)) = Inr (map Fin (densities ys (kl_bins xs ys n)))"
    by (rule density_fin; use facts assms(3) in simp)+
  let ?ps = "smoothed (densities xs (kl_bins xs ys n))" and ?qs = "smoothed (densities ys (kl_bins xs ys n))"
  have ne: "densities xs (kl_bins xs ys n) \<noteq> []" "densities ys (kl_bins xs ys n) \<noteq> []"
    using assms(3) facts(2) by (auto simp flip: length_greater_0_conv)
  note P = smoothed_distribution [OF ne(1) densities_nonneg [OF facts(1)]]
  note Q = smoothed_distribution [OF ne(2) densities_nonneg [OF facts(1)]]
  have logs: "map2 (\<lambda>a b. a * np_log NP (fdiv a b)) (map Fin ?ps) (map Fin ?qs)
      = map Fin (map2 (\<lambda>a b. a * ln (a / b)) ?ps ?qs)"
    using P(2) Q(2) by (auto simp: zip_map_map log_fin dest!: in_zipD)
  have eq: "kl_divergence NP (map Fin xs) (map Fin ys) n = Inr (Fin (kl_sum xs ys n))"
    using assms
    by (simp only: kl_divergence_def min_fin max_fin fin_simps Let_def py_min_fin py_max_fin Suc_eq_plus1 [symmetric]
        bins dens ebind.simps normalise_fin logs sum_fin kl_sum_def map_is_Nil_conv if_False simp_thms)
  have "length ?ps = length ?qs" by (simp add: smoothed_def Let_def)
  from gibbs [OF this P(2) Q(2)] have "0 \<le> kl_sum xs ys n" using P(1) Q(1) by (simp add: kl_sum_def)
  with eq show ?thesis ..
qed

end

context numerics
begin

lemma z_score_total:
  assumes "xs \<noteq> []" and "ys \<noteq> []"
  shows "\<exists>r. z_score_test NP (map Fin xs) (map Fin ys) t = Inr r"
proof -
  have "0 \<le> std_real xs"
    unfolding std_real_def by (intro real_sqrt_ge_zero divide_nonneg_nonneg sum_list_nonneg) auto
  then have "std_real xs + 1 / 10 ^ 6 \<noteq> 0" by (metis add_nonneg_pos less_irrefl zero_less_divide_1_iff zero_less_numeral zero_less_power)
  then show ?thesis using assms by (simp add: z_score_test_def mean_fin std_fin pydiv_def Let_def)
qed

lemma ks_test_self: "xs \<noteq> [] \<Longrightarrow> alpha \<le> 1 \<Longrightarrow> \<not> ks_significant (ks_test NP (map Fin xs) (map Fin xs) (Fin alpha))"
  by (simp add: ks_test_def ks_self)

end

text \<open>
  The divergence of finite data is a non-negative number (Gibbs' inequality for the smoothed histograms over the
  common range), so it never raises and never cancels to a negative report.
\<close>

theorem kl_nonneg:
  assumes "numerics NP" and "xs \<noteq> []" and "ys \<noteq> []" and "0 < n"
  shows "\<exists>q \<ge> 0. kl_divergence NP (map Fin xs) (map Fin ys) n = Inr (Fin q)"
  using numerics.kl_divergence_fin [OF assms] by blast

lemma kl_nonneg_witness:
  "\<exists>q \<ge> 0. kl_divergence ref_numpy (map Fin [1, 2]) (map Fin [5]) 10 = Inr (Fin q)"
proof -
  have h: "[1, 2] \<noteq> ([] :: real list)" "[5] \<noteq> ([] :: real list)" "0 < (10 :: nat)" by simp_all
  show ?thesis by (rule kl_nonneg [OF ref_numpy_contract h])
qed

end
