(* ===== verification/Drift.thy ===== *)
theory Drift
  imports Online_Store Statistics
begin

text \<open>
  Drift detection, \<open>drift_detection/\<close>: the thresholds, the baselines kept in Redis
  (\<open>baseline_manager.py\<close>) and the detector (\<open>drift_detector.py\<close>), over the Redis client
  \<open>R\<close> and the numerical library \<open>NP\<close>. Its properties rest on both contracts.
\<close>

subsection \<open>Configuration and baselines\<close>

record drift_config =
  dc_psi_warn_threshold :: pyfloat
  dc_psi_alert_threshold :: pyfloat
  dc_ks_pvalue_threshold :: pyfloat
  dc_zscore_alert_threshold :: pyfloat

definition drift_config_default :: drift_config where
  "drift_config_default = \<lparr>
     dc_psi_warn_threshold = Fin 0.1,
     dc_psi_alert_threshold = Fin 0.2,
     dc_ks_pvalue_threshold = Fin 0.05,
     dc_zscore_alert_threshold = Fin 3\<rparr>"

definition BASELINE_TTL_SECONDS :: int where
  "BASELINE_TTL_SECONDS = 86400 * 7"

definition save_baseline :: "'s redis \<Rightarrow> string \<Rightarrow> pyfloat list \<Rightarrow> 's \<Rightarrow> (exn + unit) \<times> 's" where
  "save_baseline R feature_name values s =
     r_exec R [SET_EX (baseline_key feature_name) (json_dumps values) BASELINE_TTL_SECONDS] s"

definition load_baseline :: "'s redis \<Rightarrow> string \<Rightarrow> 's \<Rightarrow> exn + pyfloat list option" where
  "load_baseline R feature_name s =
     ebind (r_get R (baseline_key feature_name) s) (\<lambda>raw.
       case raw of
         None \<Rightarrow> Inr None
       | Some t \<Rightarrow> if \<not> sval_truthy t then Inr None else ebind (json_loads t) (\<lambda>xs. Inr (Some xs)))"

definition baseline_exists :: "'s redis \<Rightarrow> string \<Rightarrow> 's \<Rightarrow> exn + bool" where
  "baseline_exists R feature_name s = ebind (r_exists R (baseline_key feature_name) s) (\<lambda>c. Inr (0 < c))"

fun refresh_all_baselines :: "'s redis \<Rightarrow> pyfloat list dict \<Rightarrow> 's \<Rightarrow> (exn + unit) \<times> 's" where
  "refresh_all_baselines R [] s = (Inr (), s)"
| "refresh_all_baselines R ((feature_name, values) # rest) s =
     (if values \<noteq> [] then
        (case save_baseline R feature_name values s of
           (Inl e, s') \<Rightarrow> (Inl e, s')
         | (Inr u, s') \<Rightarrow> refresh_all_baselines R rest s')
      else refresh_all_baselines R rest s)"

subsection \<open>The detector\<close>

definition FEATURE_NAMES :: "string list" where
  "FEATURE_NAMES = [''txn_count_5m'', ''avg_spend_1h'', ''session_activity_rate'',
     ''cart_abandon_ratio'', ''product_interaction_freq'', ''anomaly_score'']"

record feature_drift =
  fd_feature_name :: string
  fd_psi_score :: pyfloat
  fd_ks_statistic :: pyfloat
  fd_ks_p_value :: pyfloat
  fd_z_score :: pyfloat
  fd_kl_divergence :: pyfloat
  fd_severity :: string
  fd_baseline_size :: nat
  fd_current_size :: nat
  fd_computed_at :: pyfloat

definition is_drifting :: "feature_drift \<Rightarrow> bool" where
  "is_drifting r \<longleftrightarrow> fd_severity r \<in> set [''warn'', ''alert'']"

record drift_report =
  dr_feature_results :: "feature_drift list"
  dr_drifting_features :: "string list"
  dr_computed_at :: pyfloat

definition has_critical_drift :: "drift_report \<Rightarrow> bool" where
  "has_critical_drift rep \<longleftrightarrow> list_ex (\<lambda>r. fd_severity r = ''alert'') (dr_feature_results rep)"

definition escalate :: "string \<Rightarrow> ks_result \<Rightarrow> string" where
  "escalate severity ks = (if severity = ''ok'' \<and> ks_significant ks then ''warn'' else severity)"

text \<open>The body of the loop for a feature with data.\<close>

definition feature_result ::
  "'s redis \<Rightarrow> numpy \<Rightarrow> drift_config \<Rightarrow> pyfloat \<Rightarrow> string \<Rightarrow> pyfloat list \<Rightarrow> 's \<Rightarrow> exn + feature_drift" where
  "feature_result R NP cfg now feature_name current s =
     ebind (load_baseline R feature_name s) (\<lambda>stored.
     let baseline = (case stored of None \<Rightarrow> current | Some b \<Rightarrow> if b = [] then current else b) in
     ebind (compute_psi NP baseline current N_BINS) (\<lambda>psi.
     let severity = psi_severity psi (dc_psi_warn_threshold cfg) (dc_psi_alert_threshold cfg);
         ks = ks_test NP baseline current (dc_ks_pvalue_threshold cfg)
     in ebind (z_score_test NP baseline current (dc_zscore_alert_threshold cfg)) (\<lambda>zs.
     ebind (kl_divergence NP baseline current 10) (\<lambda>kl.
       Inr \<lparr>fd_feature_name = feature_name, fd_psi_score = psi, fd_ks_statistic = ks_statistic ks,
            fd_ks_p_value = ks_p_value ks, fd_z_score = zs_z_score zs, fd_kl_divergence = py_round 6 kl,
            fd_severity = escalate severity ks, fd_baseline_size = length baseline,
            fd_current_size = length current, fd_computed_at = now\<rparr>))))"

fun detect_loop ::
  "'s redis \<Rightarrow> numpy \<Rightarrow> drift_config \<Rightarrow> pyfloat \<Rightarrow> pyfloat list dict \<Rightarrow> string list
   \<Rightarrow> feature_drift list \<Rightarrow> string list \<Rightarrow> 's \<Rightarrow> exn + feature_drift list \<times> string list" where
  "detect_loop R NP cfg now current_data [] results drifting s = Inr (results, drifting)"
| "detect_loop R NP cfg now current_data (feature_name # features) results drifting s =
     (let current = dict_get current_data feature_name [] in
      if current = [] then detect_loop R NP cfg now current_data features results drifting s
      else
        ebind (feature_result R NP cfg now feature_name current s) (\<lambda>result.
          detect_loop R NP cfg now current_data features (results @ [result])
            (if is_drifting result then drifting @ [feature_name] else drifting) s))"

definition detect_drift ::
  "'s redis \<Rightarrow> numpy \<Rightarrow> drift_config \<Rightarrow> pyfloat \<Rightarrow> pyfloat list dict \<Rightarrow> 's \<Rightarrow> exn + drift_report" where
  "detect_drift R NP cfg now current_data s =
     ebind (detect_loop R NP cfg now current_data FEATURE_NAMES [] [] s) (\<lambda>(results, drifting).
       Inr \<lparr>dr_feature_results = results, dr_drifting_features = drifting, dr_computed_at = now\<rparr>)"

subsection \<open>Baselines\<close>

lemma set_ex_str: "v_str (apply_cmd (SET_EX k t n) v) = (v_str v)(k \<mapsto> t)"
  by simp

context redis_server
begin

lemma save_baseline_str:
  "save_baseline R f xs s = (Inr (), s') \<Longrightarrow> v_str (view s') = (v_str (view s))(baseline_key f \<mapsto> JList xs)"
  by (auto simp: save_baseline_def json_dumps_def dest: exec_ok)

lemma load_baseline_str:
  assumes "load_baseline R f s = Inr b"
  shows "case v_str (view s) (baseline_key f) of None \<Rightarrow> b = None | Some t \<Rightarrow>
    (case t of JList xs \<Rightarrow> b = Some xs | SText u \<Rightarrow> u = [] \<and> b = None)"
  using assms by (auto simp: load_baseline_def ebind_Inr_iff dest!: get_view split: option.splits sval.splits if_splits)

lemma refresh_all_str:
  assumes "refresh_all_baselines R data s = (Inr (), s')" and "distinct (map fst data)"
  shows "v_str (view s') (baseline_key f) = (case map_of data f of
      None \<Rightarrow> v_str (view s) (baseline_key f)
    | Some xs \<Rightarrow> if xs = [] then v_str (view s) (baseline_key f) else Some (JList xs))"
  using assms
proof (induction data arbitrary: s)
  case Nil
  then show ?case by simp
next
  case (Cons p rest)
  obtain g ys where p: "p = (g, ys)" by (cases p)
  show ?case
  proof (cases "ys = []")
    case True
    have "f = g \<Longrightarrow> map_of rest f = None" using Cons.prems(2) by (simp add: p map_of_eq_None_iff)
    then show ?thesis using Cons True by (auto simp: p)
  next
    case False
    then obtain t where t: "save_baseline R g ys s = (Inr (), t)" "refresh_all_baselines R rest t = (Inr (), s')"
      using Cons.prems(1) by (auto simp: p split: prod.splits sum.splits)
    have "f = g \<Longrightarrow> map_of rest f = None" using Cons.prems(2) by (simp add: p map_of_eq_None_iff)
    then show ?thesis using Cons.IH [OF t(2)] Cons.prems(2) save_baseline_str [OF t(1)] False
      by (auto simp: p split: option.splits)
  qed
qed

end

text \<open>
  C29. A baseline survives the round trip: after a refresh that returns, loading a feature's baseline gives the
  values it was refreshed with, and the baselines of features without values or not in the data are untouched.
\<close>

theorem baseline_roundtrip:
  assumes "redis_server R view" and "refresh_all_baselines R data s = (Inr (), s')" and "distinct (map fst data)"
    and "load_baseline R f s' = Inr b"
  shows "case map_of data f of
      Some (x # xs) \<Rightarrow> b = Some (x # xs)
    | _ \<Rightarrow> v_str (view s') (baseline_key f) = v_str (view s) (baseline_key f)"
  using redis_server.refresh_all_str [OF assms(1-3), of f] redis_server.load_baseline_str [OF assms(1,4)]
  by (auto split: option.splits list.splits)

lemma baseline_roundtrip_witness:
  "\<exists>s'. refresh_all_baselines ref_redis [(''avg_spend_1h'', [Fin 1, Fin 2])] empty_db = (Inr (), s')
     \<and> load_baseline ref_redis ''avg_spend_1h'' s' = Inr (Some [Fin 1, Fin 2])"
proof -
  obtain s' where go: "refresh_all_baselines ref_redis [(''avg_spend_1h'', [Fin 1, Fin 2])] empty_db = (Inr (), s')"
    by (auto simp: save_baseline_def)
  obtain b where b: "load_baseline ref_redis ''avg_spend_1h'' s' = Inr b"
    using go by (auto simp: load_baseline_def save_baseline_def json_dumps_def)
  have d: "distinct (map fst [(''avg_spend_1h'', [Fin 1, Fin 2])])" by simp
  show ?thesis using baseline_roundtrip [OF ref_redis_server go d b] b go by simp
qed

subsection \<open>The report\<close>

lemma detect_loop_report:
  assumes "detect_loop R NP cfg now data fs results drifting s = Inr (res, dri)"
  shows "\<exists>new. res = results @ new
    \<and> map fd_feature_name new = filter (\<lambda>f. dict_get data f [] \<noteq> []) fs
    \<and> dri = drifting @ map fd_feature_name (filter is_drifting new)
    \<and> list_all (\<lambda>r. feature_result R NP cfg now (fd_feature_name r) (dict_get data (fd_feature_name r) []) s = Inr r) new"
  using assms
proof (induction R NP cfg now data fs results drifting s rule: detect_loop.induct)
  case (1 R NP cfg now data results drifting s)
  then show ?case by simp
next
  case (2 R NP cfg now data f fs results drifting s)
  show ?case
  proof (cases "dict_get data f [] = []")
    case True
    then show ?thesis using 2 by simp
  next
    case False
    then obtain r where r: "feature_result R NP cfg now f (dict_get data f []) s = Inr r"
      using 2(3) by (auto simp: Let_def ebind_Inr_iff)
    have name: "fd_feature_name r = f"
      using r by (auto simp: feature_result_def ebind_Inr_iff Let_def)
    have "detect_loop R NP cfg now data fs (results @ [r]) (if is_drifting r then drifting @ [f] else drifting) s
        = Inr (res, dri)"
      using 2(3) False r by (simp add: Let_def)
    from 2(2) [OF refl False this] obtain new where new: "res = (results @ [r]) @ new"
      "map fd_feature_name new = filter (\<lambda>f. dict_get data f [] \<noteq> []) fs"
      "dri = (if is_drifting r then drifting @ [f] else drifting) @ map fd_feature_name (filter is_drifting new)"
      "list_all (\<lambda>r. feature_result R NP cfg now (fd_feature_name r) (dict_get data (fd_feature_name r) []) s = Inr r) new"
      by blast
    then show ?thesis using False name r by (intro exI [of _ "r # new"]) auto
  qed
qed

lemma severity_cases: "psi_severity p w a \<in> set [''ok'', ''warn'', ''alert'']"
  by (simp add: psi_severity_def)



subsection \<open>What is and what is not detected\<close>

definition answers :: "'s redis \<Rightarrow> 's \<Rightarrow> bool" where
  "answers R s \<longleftrightarrow> (\<forall>f \<in> set FEATURE_NAMES. isl (r_get R (baseline_key f) s) = False)"

lemma detect_loop_total:
  assumes "\<And>f. f \<in> set fs \<Longrightarrow> dict_get data f [] \<noteq> [] \<Longrightarrow>
    \<exists>r. feature_result R NP cfg now f (dict_get data f []) s = Inr r"
  shows "\<exists>q. detect_loop R NP cfg now data fs results drifting s = Inr q"
  using assms
proof (induction fs arbitrary: results drifting)
  case Nil
  then show ?case by simp
next
  case (Cons f fs)
  then have IH: "\<exists>q. detect_loop R NP cfg now data fs results drifting s = Inr q" for results drifting by simp
  show ?case
  proof (cases "dict_get data f [] = []")
    case True
    then show ?thesis using IH by simp
  next
    case False
    then obtain r where "feature_result R NP cfg now f (dict_get data f []) s = Inr r"
      using Cons.prems [of f] by auto
    then show ?thesis using False IH by (simp add: Let_def)
  qed
qed

lemma feature_result_unchanged:
  assumes np: "numerics NP" and rs: "redis_server R view"
    and ans: "r_get R (baseline_key f) s = Inr raw"
    and stored: "v_str (view s) (baseline_key f) \<in> {None, Some (JList (map Fin xs))}" and xs: "xs \<noteq> []"
  shows "\<exists>r. feature_result R NP drift_config_default now f (map Fin xs) s = Inr r \<and> fd_severity r = ''ok''"
proof -
  have raw: "raw = v_str (view s) (baseline_key f)" using redis_server.get_view [OF rs ans] .
  have n: "0 < N_BINS" "0 < (10::nat)" by (simp_all add: N_BINS_def)
  have "\<exists>b. load_baseline R f s = Inr b \<and> (case b of None \<Rightarrow> map Fin xs | Some b \<Rightarrow> if b = [] then map Fin xs else b) = map Fin xs"
    using stored xs by (auto simp: load_baseline_def ans raw)
  then obtain b where b: "load_baseline R f s = Inr b"
    "(case b of None \<Rightarrow> map Fin xs | Some b \<Rightarrow> if b = [] then map Fin xs else b) = map Fin xs" by blast
  have psi: "compute_psi NP (map Fin xs) (map Fin xs) N_BINS = Inr (Fin 0)"
    using numerics.compute_psi_fin [OF np xs xs n(1)] by (simp add: psi_sum_self)
  obtain z where z: "z_score_test NP (map Fin xs) (map Fin xs) (dc_zscore_alert_threshold drift_config_default) = Inr z"
    using numerics.z_score_total [OF np xs xs] by blast
  have kl: "kl_divergence NP (map Fin xs) (map Fin xs) 10 = Inr (Fin (kl_sum xs xs 10))"
    using numerics.kl_divergence_fin [OF np xs xs n(2)] by blast
  have "\<not> ks_significant (ks_test NP (map Fin xs) (map Fin xs) (dc_ks_pvalue_threshold drift_config_default))"
    using numerics.ks_test_self [OF np xs, of "0.05"] by (simp add: drift_config_default_def)
  then show ?thesis
    unfolding feature_result_def b(1) ebind.simps Let_def b(2) psi z kl
    by (simp add: escalate_def psi_severity_def drift_config_default_def)
qed

text \<open>
  A feature whose baseline is missing, or equal to its current values, never drifts with the default thresholds:
  the current values stand in for a missing baseline. So the detector is silent until a baseline has been stored.
\<close>

lemma no_baseline_no_drift:
  assumes "numerics NP" and "redis_server R view" and "answers R s"
    and "\<forall>f \<in> set FEATURE_NAMES. list_all is_fin (dict_get data f [])"
    and "\<forall>f \<in> set FEATURE_NAMES. v_str (view s) (baseline_key f) \<in> {None, Some (JList (dict_get data f []))}"
  shows "\<exists>rep. detect_drift R NP drift_config_default now data s = Inr rep
    \<and> dr_drifting_features rep = [] \<and> \<not> has_critical_drift rep"
proof -
  have ok: "\<exists>r. feature_result R NP drift_config_default now f (dict_get data f []) s = Inr r \<and> fd_severity r = ''ok''"
    if "f \<in> set FEATURE_NAMES" "dict_get data f [] \<noteq> []" for f
  proof -
    have "map Fin (map real_of (dict_get data f [])) = dict_get data f []"
      by (rule map_Fin_real_of) (use assms(4) that(1) in blast)
    then obtain xs where xs: "dict_get data f [] = map Fin xs" by metis
    have "\<exists>raw. r_get R (baseline_key f) s = Inr raw"
      using bspec [OF assms(3) [unfolded answers_def] that(1)] by (cases "r_get R (baseline_key f) s") auto
    then obtain raw where raw: "r_get R (baseline_key f) s = Inr raw" by blast
    have "v_str (view s) (baseline_key f) \<in> {None, Some (JList (map Fin xs))}"
      using assms(5) that(1) unfolding xs [symmetric] by blast
    moreover have "xs \<noteq> []" using that(2) xs by simp
    ultimately show ?thesis unfolding xs by (rule feature_result_unchanged [OF assms(1,2) raw])
  qed
  then obtain q where q: "detect_loop R NP drift_config_default now data FEATURE_NAMES [] [] s = Inr q"
    using detect_loop_total [of FEATURE_NAMES data R NP drift_config_default now s] by blast
  obtain res dri where qq: "q = (res, dri)" by (cases q)
  from detect_loop_report [OF q [unfolded qq]] have res: "dri = map fd_feature_name (filter is_drifting res)"
    "map fd_feature_name res = filter (\<lambda>f. dict_get data f [] \<noteq> []) FEATURE_NAMES"
    "list_all (\<lambda>r. feature_result R NP drift_config_default now (fd_feature_name r) (dict_get data (fd_feature_name r) []) s = Inr r) res"
    by auto
  have "fd_severity r = ''ok''" if "r \<in> set res" for r
  proof -
    have "fd_feature_name r \<in> set (filter (\<lambda>f. dict_get data f [] \<noteq> []) FEATURE_NAMES)"
      using that unfolding res(2) [symmetric] by simp
    then show ?thesis using ok that res(3) by (fastforce simp: list_all_iff)
  qed
  then have "filter is_drifting res = []" "\<not> list_ex (\<lambda>r. fd_severity r = ''alert'') res"
    by (auto simp: filter_empty_conv is_drifting_def list_ex_iff)
  then show ?thesis using q res(1) by (simp add: detect_drift_def qq has_critical_drift_def)
qed

lemma no_baseline_no_drift_witness:
  "\<exists>rep. detect_drift ref_redis ref_numpy drift_config_default (Fin 0)
      [(''avg_spend_1h'', [Fin 1, Fin 1000])] empty_db = Inr rep \<and> dr_drifting_features rep = []"
proof -
  have h: "answers ref_redis empty_db"
    "\<forall>f \<in> set FEATURE_NAMES. list_all is_fin (dict_get [(''avg_spend_1h'', [Fin 1, Fin 1000])] f [])"
    "\<forall>f \<in> set FEATURE_NAMES. v_str (ref_view empty_db) (baseline_key f)
      \<in> {None, Some (JList (dict_get [(''avg_spend_1h'', [Fin 1, Fin 1000])] f []))}"
    by (auto simp: answers_def dict_get_def empty_db_def ref_view_def)
  show ?thesis using no_baseline_no_drift [OF ref_numpy_contract ref_redis_server h] by blast
qed

lemma shifted_feature_alert:
  assumes "numerics NP" and "redis_server R view"
    and "feature_result R NP drift_config_default now f (map Fin ys) s = Inr r" and "ys \<noteq> []"
    and "v_str (view s) (baseline_key f) = Some (JList (map Fin xs))" and "xs \<noteq> []"
    and "Min (set xs) \<noteq> Max (set xs)"
    and "\<forall>y \<in> set ys. y < Min (set xs) \<or> Max (set xs) + EPSILON < y"
  shows "fd_severity r = ''alert''"
proof -
  obtain b where b: "load_baseline R f s = Inr b" using assms(3) by (auto simp: feature_result_def ebind_Inr_iff)
  then have bval: "b = Some (map Fin xs)"
    using redis_server.load_baseline_str [OF assms(2) b] assms(5) by simp
  obtain q where q: "compute_psi NP (map Fin xs) (map Fin ys) N_BINS = Inr q"
    "psi_severity q (Fin (1 / 10)) (Fin (1 / 5)) = ''alert''"
    using psi_shift_severity [OF assms(1,6,4,7,8)] by blast
  show ?thesis
    using assms(3,6) q by (auto simp: feature_result_def ebind_Inr_iff b bval Let_def escalate_def drift_config_default_def)
qed

lemma detected_alert:
  assumes "detect_drift R NP cfg now data s = Inr rep" and "f \<in> set FEATURE_NAMES" and "dict_get data f [] \<noteq> []"
    and "\<And>r. feature_result R NP cfg now f (dict_get data f []) s = Inr r \<Longrightarrow> fd_severity r = ''alert''"
  shows "f \<in> set (dr_drifting_features rep) \<and> has_critical_drift rep"
proof -
  obtain res where res: "dr_feature_results rep = res" "dr_drifting_features rep = map fd_feature_name (filter is_drifting res)"
    "map fd_feature_name res = filter (\<lambda>f. dict_get data f [] \<noteq> []) FEATURE_NAMES"
    "list_all (\<lambda>r. feature_result R NP cfg now (fd_feature_name r) (dict_get data (fd_feature_name r) []) s = Inr r) res"
    using assms(1) by (auto simp: detect_drift_def ebind_Inr_iff dest!: detect_loop_report)
  have "f \<in> set (map fd_feature_name res)" unfolding res(3) using assms(2,3) by simp
  then obtain r where r: "r \<in> set res" "fd_feature_name r = f" by auto
  then have "fd_severity r = ''alert''" using res(4) assms(4) by (auto simp: list_all_iff)
  then show ?thesis using r res(1,2) by (force simp: has_critical_drift_def is_drifting_def list_ex_iff)
qed

definition sample_baseline :: ref_db where
  "sample_baseline = snd (refresh_all_baselines ref_redis [(''avg_spend_1h'', map Fin [1, 2])] empty_db)"

lemma sample_shift:
  "v_str (ref_view sample_baseline) (baseline_key ''avg_spend_1h'') = Some (JList (map Fin [1, 2]))"
  "dict_get [(''avg_spend_1h'', map Fin [500])] ''avg_spend_1h'' [] = map Fin [500]"
  "Min (set [1, 2 :: real]) \<noteq> Max (set [1, 2 :: real])"
  "\<forall>y \<in> set [500 :: real]. y < Min (set [1, 2 :: real]) \<or> Max (set [1, 2 :: real]) + EPSILON < y"
  "\<exists>rep. detect_drift ref_redis ref_numpy drift_config_default (Fin 0) [(''avg_spend_1h'', map Fin [500])] sample_baseline = Inr rep"
proof -
  let ?data = "[(''avg_spend_1h'', map Fin [500])]"
  show "v_str (ref_view sample_baseline) (baseline_key ''avg_spend_1h'') = Some (JList (map Fin [1, 2]))"
    by (simp add: sample_baseline_def save_baseline_def json_dumps_def ref_view_def)
  show "dict_get ?data ''avg_spend_1h'' [] = map Fin [500]" "Min (set [1, 2 :: real]) \<noteq> Max (set [1, 2 :: real])"
    "\<forall>y \<in> set [500 :: real]. y < Min (set [1, 2 :: real]) \<or> Max (set [1, 2 :: real]) + EPSILON < y"
    by (simp_all add: dict_get_def EPSILON_def)
  have ne: "[1, 2] \<noteq> ([] :: real list)" "[500] \<noteq> ([] :: real list)" "0 < N_BINS" "0 < (10::nat)"
    by (simp_all add: N_BINS_def)
  have load: "load_baseline ref_redis ''avg_spend_1h'' sample_baseline = Inr (Some (map Fin [1, 2]))"
    by (simp add: load_baseline_def sample_baseline_def save_baseline_def json_dumps_def)
  have "\<exists>r. feature_result ref_redis ref_numpy drift_config_default (Fin 0) ''avg_spend_1h'' (map Fin [500]) sample_baseline = Inr r"
    using ref_np.compute_psi_fin [OF ne(1,2,3)] ref_np.z_score_total [OF ne(1,2), of "Fin 3"] ref_np.kl_divergence_fin [OF ne(1,2,4)]
    unfolding feature_result_def load by (auto simp: Let_def drift_config_default_def)
  then have "\<exists>q. detect_loop ref_redis ref_numpy drift_config_default (Fin 0) ?data FEATURE_NAMES [] [] sample_baseline = Inr q"
    by (intro detect_loop_total) (auto simp: dict_get_def split: if_splits)
  then show "\<exists>rep. detect_drift ref_redis ref_numpy drift_config_default (Fin 0) ?data sample_baseline = Inr rep"
    by (auto simp: detect_drift_def)
qed

lemma sample_shift_critical:
  assumes "detect_drift ref_redis ref_numpy drift_config_default (Fin 0) [(''avg_spend_1h'', map Fin [500])] sample_baseline = Inr rep"
  shows "has_critical_drift rep"
proof -
  have "''avg_spend_1h'' \<in> set FEATURE_NAMES" by (simp add: FEATURE_NAMES_def)
  moreover have "fd_severity r = ''alert''"
    if "feature_result ref_redis ref_numpy drift_config_default (Fin 0) ''avg_spend_1h'' (map Fin [500]) sample_baseline = Inr r" for r
    using shifted_feature_alert [OF ref_numpy_contract ref_redis_server that _ sample_shift(1) _ sample_shift(3,4)] by simp
  ultimately show ?thesis using detected_alert [OF assms, of "''avg_spend_1h''"] unfolding sample_shift(2) by simp
qed

text \<open>
  C28. A stored baseline that is not constant guards its feature: current values entirely outside its range make the
  feature drift critically, in every report the detector returns with the default thresholds.
\<close>

theorem shifted_feature_detected:
  assumes "numerics NP" and "redis_server R view"
    and "detect_drift R NP drift_config_default now data s = Inr rep"
    and "f \<in> set FEATURE_NAMES" and "dict_get data f [] = map Fin ys" and "ys \<noteq> []"
    and "v_str (view s) (baseline_key f) = Some (JList (map Fin xs))" and "xs \<noteq> []"
    and "Min (set xs) \<noteq> Max (set xs)"
    and "\<forall>y \<in> set ys. y < Min (set xs) \<or> Max (set xs) + EPSILON < y"
  shows "f \<in> set (dr_drifting_features rep) \<and> has_critical_drift rep"
proof (rule detected_alert [OF assms(3,4)])
  show "dict_get data f [] \<noteq> []" using assms(5,6) by simp
  show "fd_severity r = ''alert''" if "feature_result R NP drift_config_default now f (dict_get data f []) s = Inr r" for r
    using shifted_feature_alert [OF assms(1,2) that [unfolded assms(5)] assms(6-10)] .
qed

lemma shifted_feature_detected_witness:
  "\<exists>rep. detect_drift ref_redis ref_numpy drift_config_default (Fin 0) [(''avg_spend_1h'', map Fin [500])] sample_baseline
      = Inr rep \<and> ''avg_spend_1h'' \<in> set (dr_drifting_features rep)"
proof -
  obtain rep where rep: "detect_drift ref_redis ref_numpy drift_config_default (Fin 0) [(''avg_spend_1h'', map Fin [500])]
      sample_baseline = Inr rep"
    using sample_shift(5) by blast
  have h: "''avg_spend_1h'' \<in> set FEATURE_NAMES" "[500] \<noteq> ([] :: real list)" "[1, 2] \<noteq> ([] :: real list)"
    by (simp_all add: FEATURE_NAMES_def)
  show ?thesis
    using shifted_feature_detected [OF ref_numpy_contract ref_redis_server rep h(1) sample_shift(2) h(2) sample_shift(1) h(3) sample_shift(3,4)] rep
    by blast
qed

end
