(* ===== verification/Diagnostics.thy ===== *)
theory Diagnostics
  imports Prelude
begin

text \<open>
  Root cause analysis, \<open>diagnostics/\<close>: the schemas, the context sent to the model
  (\<open>context_builder.py\<close>), the prompt and the tool (\<open>prompt_templates.py\<close>) and the engine
  (\<open>rca_engine.py\<close>). The Anthropic client is a parameter \<open>create\<close>, from a request to a response or
  an exception; the retry decorator is a parameter with the contract \<open>retry_on\<close>. What a model answers is JSON,
  so the fields of a diagnosis that are copied from it are JSON values; the code does not check them.
\<close>

subsection \<open>Configuration and schemas\<close>

record diagnostics_config =
  dg_anthropic_api_key :: string
  dg_anthropic_model :: string
  dg_rca_max_tokens :: int
  dg_rca_timeout_seconds :: int

definition diagnostics_config_default :: diagnostics_config where
  "diagnostics_config_default = \<lparr>
     dg_anthropic_api_key = [],
     dg_anthropic_model = ''claude-sonnet-4-5'',
     dg_rca_max_tokens = 1024,
     dg_rca_timeout_seconds = 30\<rparr>"

record rca_report =
  rr_feature_name :: string
  rr_psi_score :: pyfloat
  rr_ks_statistic :: pyfloat
  rr_ks_p_value :: pyfloat
  rr_z_score :: pyfloat
  rr_severity :: string
  rr_baseline_period :: string
  rr_current_period :: string
  rr_sample_size :: int
  rr_kl_divergence :: pyfloat
  rr_computed_at :: pyfloat

record rca_diagnosis =
  rd_feature_name :: string
  rd_probable_cause :: json
  rd_cause_category :: json
  rd_confidence :: pyfloat
  rd_affected_features :: json
  rd_remediation_steps :: json
  rd_urgency :: json
  rd_estimated_impact :: json
  rd_model_used :: string
  rd_tokens_used :: int
  rd_computed_at :: pyfloat
  rd_fallback_used :: bool

subsection \<open>The context\<close>

definition interpret_psi :: "pyfloat \<Rightarrow> string" where
  "interpret_psi psi =
     (if psi < Fin 0.1 then ''no significant shift''
      else if psi < Fin 0.2 then ''moderate shift '' @ [CHR 0xE2, CHR 0x80, CHR 0x94] @ '' monitor closely''
      else ''major shift '' @ [CHR 0xE2, CHR 0x80, CHR 0x94] @ '' investigate immediately'')"

text \<open>\<open>time.strftime\<close> of \<open>time.gmtime(t)\<close>: the second \<open>t\<close> falls into.\<close>

fun gmtime_text :: "pyfloat \<Rightarrow> exn + json" where
  "gmtime_text (Fin t) = Inr (JTime (Fin (of_int \<lfloor>t\<rfloor>)))"
| "gmtime_text NaN = Inl ValueError"
| "gmtime_text x = Inl OverflowError"

definition metadata_json :: "json dict \<Rightarrow> json" where
  "metadata_json m = JObj (map (\<lambda>k. (k, dict_get m k JNull))
     [''description'', ''transform_logic'', ''window_type'', ''freshness_sla_seconds'', ''owner''])"

definition build_rca_context :: "rca_report \<Rightarrow> json dict option \<Rightarrow> exn + json" where
  "build_rca_context report feature_metadata =
     ebind (gmtime_text (rr_computed_at report)) (\<lambda>timestamp.
       Inr (JObj
         ([(''feature_name'', JStr (rr_feature_name report)),
           (''drift_metrics'', JObj
             [(''psi_score'', JNum (rr_psi_score report)),
              (''psi_interpretation'', JStr (interpret_psi (rr_psi_score report))),
              (''ks_statistic'', JNum (rr_ks_statistic report)),
              (''ks_p_value'', JNum (rr_ks_p_value report)),
              (''ks_significant'', JBool (rr_ks_p_value report < Fin 0.05)),
              (''z_score'', JNum (rr_z_score report)),
              (''z_score_anomalous'', JBool (Fin 3 < \<bar>rr_z_score report\<bar>)),
              (''kl_divergence'', JNum (rr_kl_divergence report))]),
           (''severity'', JStr (rr_severity report)),
           (''time_context'', JObj
             [(''baseline_period'', JStr (rr_baseline_period report)),
              (''current_period'', JStr (rr_current_period report)),
              (''sample_size'', JNum (Fin (of_int (rr_sample_size report)))),
              (''analysis_timestamp'', timestamp)])]
          @ (case feature_metadata of
               None \<Rightarrow> []
             | Some m \<Rightarrow> if m = [] then [] else [(''feature_metadata'', metadata_json m)]))))"

subsection \<open>The tool\<close>

definition CAUSE_CATEGORIES :: "string list" where
  "CAUSE_CATEGORIES = [''data_pipeline_delay'', ''schema_change'', ''upstream_data_quality'',
     ''seasonal_pattern'', ''model_drift'', ''infrastructure_issue'', ''unknown'']"

definition URGENCIES :: "string list" where
  "URGENCIES = [''low'', ''medium'', ''high'', ''critical'']"

definition string_property :: "string \<Rightarrow> json" where
  "string_property description = JObj [(''type'', JStr ''string''), (''description'', JStr description)]"

definition enum_property :: "string list \<Rightarrow> json" where
  "enum_property values = JObj [(''type'', JStr ''string''), (''enum'', JArr (map JStr values))]"

definition array_property :: "string \<Rightarrow> json" where
  "array_property description = JObj [(''type'', JStr ''array''), (''items'', JObj [(''type'', JStr ''string'')]),
     (''description'', JStr description)]"

definition RCA_PROPERTIES :: "json dict" where
  "RCA_PROPERTIES =
     [(''probable_cause'', string_property ''1-2 sentence explanation of the most likely root cause.''),
      (''cause_category'', enum_property CAUSE_CATEGORIES),
      (''confidence'', JObj [(''type'', JStr ''number''), (''minimum'', JNum (Fin 0)), (''maximum'', JNum (Fin 1)),
         (''description'', JStr (''Confidence in this diagnosis (0'' @ [CHR 0xE2, CHR 0x80, CHR 0x93] @ ''1).''))]),
      (''affected_features'', array_property ''Feature names likely affected by this root cause.''),
      (''remediation_steps'', array_property ''Ordered list of concrete remediation actions.''),
      (''urgency'', enum_property URGENCIES),
      (''estimated_impact'', string_property ''Brief description of potential ML model impact if not addressed.'')]"

definition RCA_REQUIRED :: "string list" where
  "RCA_REQUIRED = [''probable_cause'', ''cause_category'', ''confidence'', ''affected_features'',
     ''remediation_steps'', ''urgency'', ''estimated_impact'']"

definition RCA_TOOL_DEFINITION :: json where
  "RCA_TOOL_DEFINITION = JObj
     [(''name'', JStr ''submit_rca_diagnosis''),
      (''description'', JStr ''Submit the root cause analysis diagnosis for a feature drift or consistency issue.''),
      (''input_schema'', JObj
        [(''type'', JStr ''object''),
         (''properties'', JObj RCA_PROPERTIES),
         (''required'', JArr (map JStr RCA_REQUIRED))])]"

subsection \<open>The prompt\<close>

definition PROMPT_LINES :: "string list" where
  \<open>PROMPT_LINES =
    [''You are a senior ML infrastructure engineer specializing in real-time feature stores and training-serving skew. You diagnose data drift, consistency issues, and pipeline failures in production ML systems.'',
     [],
     ''Your expertise covers:'',
     ''- Apache Kafka: consumer lag, partition rebalancing, offset management, broker failures'',
     ''- PySpark Structured Streaming: watermark delays, late data, checkpoint corruption, windowed aggregation edge cases'',
     ''- Redis: TTL expiry, cache stampede, memory eviction, connection pool exhaustion'',
     ''- Delta Lake: write conflicts, Z-ordering, small file problems, time-travel correctness'',
     ''- Statistical concepts: PSI thresholds, KS test interpretation, Z-score outlier detection'',
     ''- ML pipeline patterns: training-serving skew, feature leakage, data distribution shift'',
     [],
     ''When analyzing a drift or consistency report, consider:'',
     ''1. Is this temporal? (time-of-day/week seasonality, promotional events)'',
     ''2. Is this correlated with infrastructure changes? (deployments, config changes, scaling events)'',
     ''3. Is this localized to specific user segments or feature windows?'',
     ''4. Is upstream data volume anomalous? (Kafka lag, event rate changes)'',
     ''5. Are multiple features drifting together? (suggests upstream data issue vs single feature pipeline bug)'',
     ''6. Is the drift direction meaningful? (sudden spike vs gradual drift vs missing data)'',
     [],
     ''PSI interpretation:'',
     ''- < 0.1: no significant shift'',
     ''- 0.1'' @ [CHR 0xE2, CHR 0x80, CHR 0x93] @ ''0.2: moderate shift, monitor closely'',
     ''- > 0.2: major shift, investigate immediately'',
     [],
     ''KS test: p-value < 0.05 means the distributions are statistically different.'',
     ''Z-score > 3.0 on mean value suggests the current window is significantly different from baseline.'',
     [],
     ''Common root causes in this feature store architecture:'',
     ''- "data_pipeline_delay": Kafka consumer lag causing stale features in Redis beyond TTL'',
     ''- "schema_change": upstream event schema changed, breaking field parsing'',
     ''- "upstream_data_quality": null/invalid values in raw events, upstream service bug'',
     ''- "seasonal_pattern": legitimate distribution change (daily/weekly cycle)'',
     ''- "model_drift": the model's training distribution has become outdated'',
     ''- "infrastructure_issue": Redis memory pressure, Spark executor failure, checkpoint corruption'',
     ''- "unknown": insufficient information to determine root cause'',
     [],
     ''Always provide concrete, actionable remediation steps. Be specific about which system to check first.'']\<close>

fun join_lines :: "string list \<Rightarrow> string" where
  "join_lines [] = []"
| "join_lines [l] = l"
| "join_lines (l # m # ls) = l @ CHR 0x0A # join_lines (m # ls)"

definition SYSTEM_PROMPT :: string where
  "SYSTEM_PROMPT = join_lines PROMPT_LINES"

subsection \<open>The engine\<close>

text \<open>
  A response is a list of blocks; a block that is not a tool call has no name and no input. \<open>request\<close> is what the
  engine sends.
\<close>

record block =
  bl_type :: string
  bl_name :: string
  bl_input :: "json dict"

record response =
  rs_content :: "block list"
  rs_input_tokens :: int
  rs_output_tokens :: int

record request =
  rq_model :: string
  rq_max_tokens :: int
  rq_system :: json
  rq_messages :: "string \<times> json"
  rq_tools :: "json list"
  rq_tool_choice :: json

text \<open>The engine's state: whether the client has been made, and the state of the world.\<close>

record 's engine =
  en_client :: bool
  en_world :: 's

definition get_client :: "diagnostics_config \<Rightarrow> 's engine \<Rightarrow> (exn + unit) \<times> 's engine" where
  "get_client cfg st =
     (if \<not> en_client st then
        (if dg_anthropic_api_key cfg = [] then (Inl ValueError, st) else (Inr (), st\<lparr>en_client := True\<rparr>))
      else (Inr (), st))"

definition rca_request :: "diagnostics_config \<Rightarrow> json \<Rightarrow> request" where
  "rca_request cfg context_json = \<lparr>
     rq_model = dg_anthropic_model cfg,
     rq_max_tokens = dg_rca_max_tokens cfg,
     rq_system = JArr [JObj [(''type'', JStr ''text''), (''text'', JStr SYSTEM_PROMPT),
       (''cache_control'', JObj [(''type'', JStr ''ephemeral'')])]],
     rq_messages = (''Analyze this feature drift report and diagnose the root cause:'' @ [CHR 0x0A, CHR 0x0A], context_json),
     rq_tools = [RCA_TOOL_DEFINITION],
     rq_tool_choice = JObj [(''type'', JStr ''tool''), (''name'', JStr ''submit_rca_diagnosis'')]\<rparr>"

fun tool_input :: "block list \<Rightarrow> json dict option" where
  "tool_input [] = None"
| "tool_input (b # bs) =
     (if bl_type b = ''tool_use'' \<and> bl_name b = ''submit_rca_diagnosis'' then Some (bl_input b) else tool_input bs)"

text \<open>\<open>float(v)\<close> of a JSON value; \<open>parse\<close> reads the text of a number.\<close>

fun float_of_json :: "(string \<Rightarrow> pyfloat option) \<Rightarrow> json \<Rightarrow> exn + pyfloat" where
  "float_of_json parse (JNum x) = Inr x"
| "float_of_json parse (JBool b) = Inr (if b then Fin 1 else Fin 0)"
| "float_of_json parse (JStr s) = (case parse s of None \<Rightarrow> Inl ValueError | Some x \<Rightarrow> Inr x)"
| "float_of_json parse (JTime t) = Inl ValueError"
| "float_of_json parse j = Inl TypeError"

definition diagnosis_of_tool ::
  "(string \<Rightarrow> pyfloat option) \<Rightarrow> diagnostics_config \<Rightarrow> pyfloat \<Rightarrow> rca_report \<Rightarrow> json dict \<Rightarrow> int \<Rightarrow> exn + rca_diagnosis" where
  "diagnosis_of_tool parse cfg now report t tokens_used =
     ebind (dict_item t ''probable_cause'') (\<lambda>probable_cause.
     ebind (dict_item t ''cause_category'') (\<lambda>cause_category.
     ebind (ebind (dict_item t ''confidence'') (float_of_json parse)) (\<lambda>confidence.
     ebind (dict_item t ''affected_features'') (\<lambda>affected_features.
     ebind (dict_item t ''remediation_steps'') (\<lambda>remediation_steps.
     ebind (dict_item t ''urgency'') (\<lambda>urgency.
     ebind (dict_item t ''estimated_impact'') (\<lambda>estimated_impact.
       Inr \<lparr>rd_feature_name = rr_feature_name report, rd_probable_cause = probable_cause,
            rd_cause_category = cause_category, rd_confidence = confidence, rd_affected_features = affected_features,
            rd_remediation_steps = remediation_steps, rd_urgency = urgency, rd_estimated_impact = estimated_impact,
            rd_model_used = dg_anthropic_model cfg, rd_tokens_used = tokens_used, rd_computed_at = now,
            rd_fallback_used = False\<rparr>)))))))"

definition analyze_once ::
  "(request \<Rightarrow> 's \<Rightarrow> (exn + response) \<times> 's) \<Rightarrow> (string \<Rightarrow> pyfloat option) \<Rightarrow> diagnostics_config \<Rightarrow> pyfloat
   \<Rightarrow> rca_report \<Rightarrow> json dict option \<Rightarrow> 's engine \<Rightarrow> (exn + rca_diagnosis) \<times> 's engine" where
  "analyze_once create parse cfg now report feature_metadata st =
     (case get_client cfg st of
        (Inl e, st1) \<Rightarrow> (Inl e, st1)
      | (Inr u, st1) \<Rightarrow>
          (case build_rca_context report feature_metadata of
             Inl e \<Rightarrow> (Inl e, st1)
           | Inr context_json \<Rightarrow>
               (case create (rca_request cfg context_json) (en_world st1) of
                  (Inl e, w) \<Rightarrow> (Inl e, st1\<lparr>en_world := w\<rparr>)
                | (Inr response, w) \<Rightarrow>
                    (case tool_input (rs_content response) of
                       None \<Rightarrow> (Inl ValueError, st1\<lparr>en_world := w\<rparr>)
                     | Some t \<Rightarrow>
                         (if t = [] then (Inl ValueError, st1\<lparr>en_world := w\<rparr>)
                          else (diagnosis_of_tool parse cfg now report t
                                 (rs_input_tokens response + rs_output_tokens response),
                               st1\<lparr>en_world := w\<rparr>))))))"

text \<open>The decorated method; \<open>retry\<close> is the decorator.\<close>

type_synonym 's rca_retry =
  "('s engine \<Rightarrow> (exn + rca_diagnosis) \<times> 's engine) \<Rightarrow> 's engine \<Rightarrow> (exn + rca_diagnosis) \<times> 's engine"

definition analyze_with_llm ::
  "'s rca_retry \<Rightarrow> (request \<Rightarrow> 's \<Rightarrow> (exn + response) \<times> 's) \<Rightarrow> (string \<Rightarrow> pyfloat option) \<Rightarrow> diagnostics_config
   \<Rightarrow> pyfloat \<Rightarrow> rca_report \<Rightarrow> json dict option \<Rightarrow> 's engine \<Rightarrow> (exn + rca_diagnosis) \<times> 's engine" where
  "analyze_with_llm retry create parse cfg now report feature_metadata st =
     retry (analyze_once create parse cfg now report feature_metadata) st"

text \<open>The rules used when the call raises: cause, explanation, steps, urgency and confidence.\<close>

definition fallback_rule :: "rca_report \<Rightarrow> string \<times> string \<times> string list \<times> string \<times> pyfloat" where
  "fallback_rule report =
     (let feature = rr_feature_name report;
          psi = rr_psi_score report;
          z = \<bar>rr_z_score report\<bar>;
          ks_sig = rr_ks_p_value report < Fin 0.05
      in if Fin 0.2 < psi \<and> Fin 3 < z then
        (''data_pipeline_delay'',
         ''Major distribution shift in '' @ feature @ '' (PSI='' @ fixed 3 psi @ '', Z='' @ fixed 2 z @ ''). ''
           @ ''Likely cause: Kafka consumer lag causing stale cached values or upstream data volume spike.'',
         [''1. Check Kafka consumer lag for topic ecommerce.events.raw (group: feature-processor-cg)'',
          ''2. Verify Redis TTL for features:'' @ take 10 feature @ '':* keys'',
          ''3. Check Spark streaming micro-batch processing time in Spark UI'',
          ''4. Review ingestion service logs for errors in the last hour''],
         ''high'', Fin 0.72)
      else if Fin 0.1 < psi then
        (''upstream_data_quality'',
         ''Moderate distribution shift in '' @ feature @ '' (PSI='' @ fixed 3 psi @ ''). ''
           @ ''Possible upstream data quality issue or legitimate seasonal pattern.'',
         [''1. Review event schema changes in ingestion service'',
          ''2. Check null/invalid transaction_amount rates in raw events'',
          ''3. Compare event volume to same time last week'',
          ''4. Verify no recent schema migrations on upstream services''],
         ''medium'', Fin 0.55)
      else if ks_sig then
        (''seasonal_pattern'',
         ''Statistically significant distribution change in '' @ feature @ '' ''
           @ ''(KS p-value='' @ fixed 4 (rr_ks_p_value report) @ ''). Could be legitimate seasonal variation.'',
         [''1. Compare current distribution to same hour/day last week'',
          ''2. Check for marketing campaigns or external events'',
          ''3. Update baseline distribution if change is expected''],
         ''low'', Fin 0.45)
      else
        (''unknown'',
         ''Minor drift detected in '' @ feature @ ''. Insufficient signal for confident diagnosis.'',
         [''1. Continue monitoring'', ''2. Collect more data before taking action''],
         ''low'', Fin 0.30))"

definition rule_based_fallback :: "pyfloat \<Rightarrow> rca_report \<Rightarrow> rca_diagnosis" where
  "rule_based_fallback now report =
     (let feature = rr_feature_name report;
          (cause, probable, steps, urgency, confidence) = fallback_rule report
      in \<lparr>rd_feature_name = feature, rd_probable_cause = JStr probable, rd_cause_category = JStr cause,
          rd_confidence = confidence, rd_affected_features = JArr [JStr feature],
          rd_remediation_steps = JArr (map JStr steps), rd_urgency = JStr urgency,
          rd_estimated_impact = JStr (''Potential model accuracy degradation for features depending on '' @ feature @ ''.''),
          rd_model_used = ''rule_based_fallback'', rd_tokens_used = 0, rd_computed_at = now, rd_fallback_used = True\<rparr>)"

definition analyze ::
  "'s rca_retry \<Rightarrow> (request \<Rightarrow> 's \<Rightarrow> (exn + response) \<times> 's) \<Rightarrow> (string \<Rightarrow> pyfloat option) \<Rightarrow> diagnostics_config
   \<Rightarrow> pyfloat \<Rightarrow> rca_report \<Rightarrow> json dict option \<Rightarrow> 's engine \<Rightarrow> rca_diagnosis \<times> 's engine" where
  "analyze retry create parse cfg now report feature_metadata st =
     (case analyze_with_llm retry create parse cfg now report feature_metadata st of
        (Inr d, st') \<Rightarrow> (d, st')
      | (Inl e, st') \<Rightarrow> (rule_based_fallback now report, st'))"

subsection \<open>Properties\<close>

definition is_connection_error :: "exn \<Rightarrow> bool" where
  "is_connection_error e \<longleftrightarrow> e = APIConnectionError"

text \<open>A diagnosis that stays within the tool's schema.\<close>

definition in_schema :: "rca_diagnosis \<Rightarrow> bool" where
  "in_schema d \<longleftrightarrow>
     list_ex (\<lambda>c. rd_cause_category d = JStr c) CAUSE_CATEGORIES \<and> list_ex (\<lambda>u. rd_urgency d = JStr u) URGENCIES
     \<and> Fin 0 \<le> rd_confidence d \<and> rd_confidence d \<le> Fin 1"

lemma fallback_in_schema: "in_schema (rule_based_fallback now report)"
  by (auto simp: in_schema_def rule_based_fallback_def fallback_rule_def Let_def CAUSE_CATEGORIES_def URGENCIES_def)

lemma fallback_fields [simp]:
  "rd_feature_name (rule_based_fallback now report) = rr_feature_name report"
  "rd_fallback_used (rule_based_fallback now report)"
  by (simp_all add: rule_based_fallback_def Let_def split: prod.split)

lemma diagnosis_of_tool_fields:
  "diagnosis_of_tool parse cfg now report t n = Inr d \<Longrightarrow>
     rd_feature_name d = rr_feature_name report \<and> \<not> rd_fallback_used d"
  by (auto simp: diagnosis_of_tool_def ebind_Inr_iff)

lemma analyze_once_fields:
  "analyze_once create parse cfg now report m st = (Inr d, st') \<Longrightarrow>
     rd_feature_name d = rr_feature_name report \<and> \<not> rd_fallback_used d"
  by (auto simp: analyze_once_def split: prod.splits sum.splits option.splits if_splits
      dest: diagnosis_of_tool_fields)

lemma attempts_on_result:
  assumes "attempts_on p n f s = (Inr x, s')" and "\<And>s x s'. f s = (Inr x, s') \<Longrightarrow> Q x"
  shows "Q x"
  using assms by (induction n arbitrary: s) (auto split: prod.splits sum.splits if_splits)

text \<open>
  C32. The engine always answers, about the feature it was asked about; the answer is marked as a fallback exactly
  when the model call raised, and a fallback answer stays within the schema the model is given: a listed category, a listed
  urgency, a confidence between 0 and 1.
\<close>

theorem analyze_total:
  assumes "retry_on is_connection_error 3 retry"
    and "analyze retry create parse cfg now report m st = (d, st')"
  shows "rd_feature_name d = rr_feature_name report
    \<and> rd_fallback_used d = isl (fst (analyze_with_llm retry create parse cfg now report m st))
    \<and> (if rd_fallback_used d then in_schema d else True)"
proof -
  obtain r t where r: "analyze_with_llm retry create parse cfg now report m st = (r, t)" by fastforce
  show ?thesis
  proof (cases r)
    case (Inl e)
    then show ?thesis using assms(2) r fallback_in_schema by (auto simp: analyze_def)
  next
    case (Inr x)
    then have "attempts_on is_connection_error 3 (analyze_once create parse cfg now report m) st = (Inr x, t)"
      using assms(1) r by (simp add: analyze_with_llm_def retry_on_def)
    then have "rd_feature_name x = rr_feature_name report \<and> \<not> rd_fallback_used x"
      by (rule attempts_on_result) (rule analyze_once_fields)
    then show ?thesis using assms(2) r Inr by (auto simp: analyze_def)
  qed
qed

definition sample_rca_report :: rca_report where
  "sample_rca_report = \<lparr>rr_feature_name = ''anomaly_score'', rr_psi_score = Fin 0.25, rr_ks_statistic = Fin 0.15,
     rr_ks_p_value = Fin 0.02, rr_z_score = Fin 3.5, rr_severity = ''alert'', rr_baseline_period = ''last_7d'',
     rr_current_period = ''last_1h'', rr_sample_size = 500, rr_kl_divergence = Fin 0, rr_computed_at = Fin 0\<rparr>"

definition sample_cfg :: diagnostics_config where
  "sample_cfg = diagnostics_config_default\<lparr>dg_anthropic_api_key := ''key''\<rparr>"

text \<open>A service that cannot be reached, and counts the calls.\<close>

definition unreachable :: "request \<Rightarrow> nat \<Rightarrow> (exn + response) \<times> nat" where
  "unreachable rq n = (Inl APIConnectionError, Suc n)"

definition sample_tool :: "json dict" where
  "sample_tool = [(''probable_cause'', JStr ''lag''), (''cause_category'', JStr ''data_pipeline_delay''),
     (''confidence'', JNum (Fin 0.9)), (''affected_features'', JArr []), (''remediation_steps'', JArr []),
     (''urgency'', JStr ''high''), (''estimated_impact'', JStr ''minor'')]"

definition answering :: "request \<Rightarrow> nat \<Rightarrow> (exn + response) \<times> nat" where
  "answering rq n =
     (Inr \<lparr>rs_content = [\<lparr>bl_type = ''tool_use'', bl_name = ''submit_rca_diagnosis'', bl_input = sample_tool\<rparr>],
           rs_input_tokens = 100, rs_output_tokens = 50\<rparr>, Suc n)"

lemma analyze_total_witness:
  "\<exists>d st'. analyze (attempts_on is_connection_error 3) unreachable Map.empty sample_cfg (Fin 0) sample_rca_report None
      \<lparr>en_client = False, en_world = 0\<rparr> = (d, st') \<and> rd_feature_name d = ''anomaly_score''"
proof -
  obtain d st' where run: "analyze (attempts_on is_connection_error 3) unreachable Map.empty sample_cfg (Fin 0)
      sample_rca_report None \<lparr>en_client = False, en_world = 0\<rparr> = (d, st')"
    by fastforce
  show ?thesis using analyze_total [OF retry_on_attempts run] run by (simp add: sample_rca_report_def)
qed

lemma analyze_once_calls:
  assumes "\<And>rq w. calls (snd (create rq w)) = Suc (calls w)"
    and "analyze_once create parse cfg now report m st = (r, st')"
  shows "calls (en_world st') \<le> Suc (calls (en_world st))"
  using assms(2) assms(1) [of _ "en_world st"]
  by (auto simp: analyze_once_def get_client_def split: prod.splits sum.splits option.splits if_splits)
    (metis snd_conv le_refl)+

lemma attempts_on_calls:
  assumes "\<And>s r s'. f s = (r, s') \<Longrightarrow> m s' \<le> Suc (m s)" and "attempts_on p n f s = (r, s')"
  shows "m s' \<le> m s + (n :: nat)"
  using assms(2)
proof (induction n arbitrary: s)
  case 0
  then show ?case by simp
next
  case (Suc n)
  obtain q t where q: "f s = (q, t)" by fastforce
  show ?case using Suc.prems Suc.IH [of t] assms(1) [OF q] q by (auto split: sum.splits if_splits)
qed



text \<open>A tool input that conforms to the schema.\<close>

definition conforming :: "json dict \<Rightarrow> bool" where
  "conforming t \<longleftrightarrow> list_all (\<lambda>k. map_of t k \<noteq> None) RCA_REQUIRED
     \<and> (\<exists>c. map_of t ''confidence'' = Some (JNum (Fin c)) \<and> 0 \<le> c \<and> c \<le> 1)
     \<and> list_ex (\<lambda>c. map_of t ''cause_category'' = Some (JStr c)) CAUSE_CATEGORIES
     \<and> list_ex (\<lambda>u. map_of t ''urgency'' = Some (JStr u)) URGENCIES"

lemma conforming_diagnosis:
  assumes "conforming t"
  shows "\<exists>d. diagnosis_of_tool parse cfg now report t n = Inr d \<and> in_schema d \<and> \<not> rd_fallback_used d"
  using assms
  by (auto simp: conforming_def RCA_REQUIRED_def diagnosis_of_tool_def dict_item_def in_schema_def
      list_ex_iff split: option.splits)

text \<open>
  The model's answer is used when it conforms: if a client exists or a key is configured, the report has a real
  timestamp and the first response carries a conforming call of the tool, the diagnosis is the model's and not the
  fallback, and stays within the schema.
\<close>

theorem conforming_answer_used:
  assumes "retry_on is_connection_error 3 retry"
    and "en_client st \<or> dg_anthropic_api_key cfg \<noteq> []" and "is_fin (rr_computed_at report)"
    and "\<forall>rq. \<exists>resp w t. create rq (en_world st) = (Inr resp, w) \<and> tool_input (rs_content resp) = Some t \<and> conforming t"
    and "analyze retry create parse cfg now report m st = (d, st')"
  shows "\<not> rd_fallback_used d \<and> in_schema d"
proof -
  obtain ctx where ctx: "build_rca_context report m = Inr ctx"
    using assms(3) by (auto simp: build_rca_context_def is_fin_iff)
  obtain resp w t where resp: "create (rca_request cfg ctx) (en_world st) = (Inr resp, w)"
    "tool_input (rs_content resp) = Some t" "conforming t"
    using assms(4) by blast
  have "t \<noteq> []" using resp(3) by (auto simp: conforming_def)
  obtain x where x: "diagnosis_of_tool parse cfg now report t (rs_input_tokens resp + rs_output_tokens resp) = Inr x"
    "in_schema x" "\<not> rd_fallback_used x"
    using conforming_diagnosis [OF resp(3)] by blast
  obtain st1 where st1: "get_client cfg st = (Inr (), st1)" "en_world st1 = en_world st"
    using assms(2) by (cases "en_client st") (auto simp: get_client_def)
  have "analyze_once create parse cfg now report m st = (Inr x, st1\<lparr>en_world := w\<rparr>)"
    using \<open>t \<noteq> []\<close> by (simp add: analyze_once_def st1 ctx resp x)
  then have "analyze_with_llm retry create parse cfg now report m st = (Inr x, st1\<lparr>en_world := w\<rparr>)"
    using assms(1) by (simp add: analyze_with_llm_def retry_on_def eval_nat_numeral)
  then show ?thesis using assms(5) x by (auto simp: analyze_def)
qed

lemma conforming_answer_used_witness:
  "\<exists>d st'. analyze (attempts_on is_connection_error 3) answering Map.empty sample_cfg (Fin 0) sample_rca_report None
      \<lparr>en_client = False, en_world = 0\<rparr> = (d, st') \<and> \<not> rd_fallback_used d"
proof -
  let ?st = "\<lparr>en_client = False, en_world = 0\<rparr>"
  obtain d st' where run: "analyze (attempts_on is_connection_error 3) answering Map.empty sample_cfg (Fin 0)
      sample_rca_report None ?st = (d, st')"
    by fastforce
  have "conforming sample_tool"
    by (auto simp: conforming_def sample_tool_def RCA_REQUIRED_def CAUSE_CATEGORIES_def URGENCIES_def
        intro: exI [of _ "0.9"])
  then have h: "\<forall>rq. \<exists>resp w t. answering rq (en_world ?st) = (Inr resp, w) \<and> tool_input (rs_content resp) = Some t \<and> conforming t"
    by (simp add: answering_def)
  have k: "en_client ?st \<or> dg_anthropic_api_key sample_cfg \<noteq> []" by (simp add: sample_cfg_def)
  have f: "is_fin (rr_computed_at sample_rca_report)" by (simp add: sample_rca_report_def)
  show ?thesis using conforming_answer_used [OF retry_on_attempts k f h run] run by blast
qed

text \<open>
  The prompt and the tool agree: every category of the tool's enumeration is explained in the prompt's list of root
  causes and in that order, and the required fields are exactly the declared properties.
\<close>

theorem prompt_covers_categories:
  "PROMPT_LINES ! 26 = ''Common root causes in this feature store architecture:''
   \<and> list_all2 (\<lambda>c l. take (length c + 5) l = ''- '' @ [CHR 0x22] @ c @ [CHR 0x22] @ '':'')
       CAUSE_CATEGORIES (take 7 (drop 27 PROMPT_LINES))
   \<and> map fst RCA_PROPERTIES = RCA_REQUIRED"
  by (simp add: PROMPT_LINES_def CAUSE_CATEGORIES_def RCA_PROPERTIES_def RCA_REQUIRED_def)

end
