(* ===== verification/Registry.thy ===== *)
theory Registry
  imports Prelude "HOL-Library.Multiset" "HOL-Library.List_Lexorder" "HOL-Library.Char_ord"
begin

text \<open>
  The feature registry, \<open>registry/\<close>: the tables of \<open>models.py\<close>, the queries of
  \<open>registry_service.py\<close>, the routes of \<open>router.py\<close> and the seeding of \<open>seed_data.py\<close>. The
  database and SQLAlchemy are not part of the repository: the statements the code issues are the record
  \<open>database\<close>, and the locale \<open>registry_db\<close> states what the code relies on, in terms of the tables
  the session sees and the committed ones: constraints are enforced, a failed statement rolls the session back, queries
  report the session's tables. \<open>ref_database\<close> satisfies it.
\<close>

subsection \<open>Configuration\<close>

record registry_config =
  rg_postgres_host :: string
  rg_postgres_port :: nat
  rg_postgres_db :: string
  rg_postgres_user :: string
  rg_postgres_password :: string

definition registry_config_default :: registry_config where
  "registry_config_default = \<lparr>
     rg_postgres_host = ''localhost'',
     rg_postgres_port = 5432,
     rg_postgres_db = ''feature_store'',
     rg_postgres_user = ''featurestore'',
     rg_postgres_password = ''featurestore_secret''\<rparr>"

definition database_url :: "registry_config \<Rightarrow> string" where
  "database_url c = ''postgresql+asyncpg://'' @ rg_postgres_user c @ '':'' @ rg_postgres_password c
     @ ''@'' @ rg_postgres_host c @ '':'' @ decimal (rg_postgres_port c) @ ''/'' @ rg_postgres_db c"

definition sync_database_url :: "registry_config \<Rightarrow> string" where
  "sync_database_url c = ''postgresql+psycopg2://'' @ rg_postgres_user c @ '':'' @ rg_postgres_password c
     @ ''@'' @ rg_postgres_host c @ '':'' @ decimal (rg_postgres_port c) @ ''/'' @ rg_postgres_db c"

subsection \<open>Tables\<close>

text \<open>\<open>fd_id\<close> and its like are the surrogate keys the database assigns.\<close>

record feature_definition =
  df_id :: nat
  df_feature_name :: string
  df_display_name :: "string option"
  df_description :: "string option"
  df_transform_logic :: "string option"
  df_window_type :: "string option"
  df_freshness_sla_seconds :: int
  df_owner :: "string option"
  df_version :: string
  df_is_active :: bool
  df_created_at :: pyfloat
  df_updated_at :: pyfloat

record feature_lineage =
  ln_feature_name :: string
  ln_upstream_source :: string
  ln_transform_step :: string

record feature_metric =
  mt_feature_name :: string
  mt_metric_type :: string
  mt_metric_value :: pyfloat
  mt_recorded_at :: real

record rca_result =
  rc_feature_name :: string
  rc_probable_cause :: string
  rc_cause_category :: string
  rc_confidence :: pyfloat
  rc_urgency :: string
  rc_remediation_steps :: json
  rc_estimated_impact :: string
  rc_model_used :: string
  rc_tokens_used :: int
  rc_computed_at :: pyfloat

record tables =
  t_features :: "feature_definition list"
  t_lineage :: "feature_lineage list"
  t_metrics :: "feature_metric list"
  t_rca :: "rca_result list"

definition feature_names :: "tables \<Rightarrow> string set" where
  "feature_names t = df_feature_name ` set (t_features t)"

text \<open>The declared constraints: unique feature names, and foreign keys into them.\<close>

definition integrity :: "tables \<Rightarrow> bool" where
  "integrity t \<longleftrightarrow> distinct (map df_feature_name (t_features t))
     \<and> list_all (\<lambda>l. ln_feature_name l \<in> feature_names t) (t_lineage t)
     \<and> list_all (\<lambda>m. mt_feature_name m \<in> feature_names t) (t_metrics t)"

subsection \<open>The database and its contract\<close>

record 'd database =
  i_feature :: "feature_definition \<Rightarrow> 'd \<Rightarrow> (exn + unit) \<times> 'd"
  i_lineage :: "feature_lineage \<Rightarrow> 'd \<Rightarrow> (exn + unit) \<times> 'd"
  i_metric :: "feature_metric \<Rightarrow> 'd \<Rightarrow> (exn + unit) \<times> 'd"
  i_rca :: "rca_result \<Rightarrow> 'd \<Rightarrow> (exn + unit) \<times> 'd"
  q_features :: "(feature_definition \<Rightarrow> bool) \<Rightarrow> 'd \<Rightarrow> exn + feature_definition list"
  q_features_by_name :: "(feature_definition \<Rightarrow> bool) \<Rightarrow> 'd \<Rightarrow> exn + feature_definition list"
  q_lineage :: "string \<Rightarrow> 'd \<Rightarrow> exn + feature_lineage list"
  q_metrics_latest :: "(feature_metric \<Rightarrow> bool) \<Rightarrow> nat \<Rightarrow> 'd \<Rightarrow> exn + feature_metric list"
  d_commit :: "'d \<Rightarrow> (exn + unit) \<times> 'd"
  d_collate :: "string \<Rightarrow> string \<Rightarrow> bool"

locale registry_db =
  fixes DB :: "'d database" and seen :: "'d \<Rightarrow> tables" and committed :: "'d \<Rightarrow> tables"
  assumes feature_ok: "i_feature DB r d = (Inr (), d') \<Longrightarrow>
      df_feature_name r \<notin> feature_names (seen d) \<and> committed d' = committed d
      \<and> (\<exists>i. seen d' = (seen d)\<lparr>t_features := t_features (seen d) @ [r\<lparr>df_id := i\<rparr>]\<rparr>)"
    and feature_raised: "i_feature DB r d = (Inl e, d') \<Longrightarrow> committed d' = committed d \<and> seen d' = committed d"
    and lineage_ok: "i_lineage DB l d = (Inr (), d') \<Longrightarrow>
      ln_feature_name l \<in> feature_names (seen d) \<and> committed d' = committed d
      \<and> seen d' = (seen d)\<lparr>t_lineage := t_lineage (seen d) @ [l]\<rparr>"
    and lineage_raised: "i_lineage DB l d = (Inl e, d') \<Longrightarrow> committed d' = committed d \<and> seen d' = committed d"
    and metric_ok: "i_metric DB m d = (Inr (), d') \<Longrightarrow>
      mt_feature_name m \<in> feature_names (seen d) \<and> committed d' = committed d
      \<and> seen d' = (seen d)\<lparr>t_metrics := t_metrics (seen d) @ [m]\<rparr>"
    and metric_raised: "i_metric DB m d = (Inl e, d') \<Longrightarrow> committed d' = committed d \<and> seen d' = committed d"
    and rca_ok: "i_rca DB x d = (Inr (), d') \<Longrightarrow>
      committed d' = committed d \<and> seen d' = (seen d)\<lparr>t_rca := t_rca (seen d) @ [x]\<rparr>"
    and rca_raised: "i_rca DB x d = (Inl e, d') \<Longrightarrow> committed d' = committed d \<and> seen d' = committed d"
    and features_seen: "q_features DB p d = Inr rows \<Longrightarrow> mset rows = mset (filter p (t_features (seen d)))"
    and features_ordered: "q_features_by_name DB p d = Inr rows \<Longrightarrow> mset rows = mset (filter p (t_features (seen d)))
      \<and> sorted_wrt (\<lambda>a b. d_collate DB (df_feature_name a) (df_feature_name b)) rows"
    and lineage_seen: "q_lineage DB f d = Inr ls \<Longrightarrow>
      mset ls = mset (filter (\<lambda>l. ln_feature_name l = f) (t_lineage (seen d)))"
    and metrics_latest: "q_metrics_latest DB pm n d = Inr ms \<Longrightarrow>
      \<exists>all. mset all = mset (filter pm (t_metrics (seen d)))
        \<and> sorted_wrt (\<lambda>a b. mt_recorded_at b \<le> mt_recorded_at a) all \<and> ms = take n all"
    and commit_ok: "d_commit DB d = (Inr (), d') \<Longrightarrow> committed d' = seen d \<and> seen d' = seen d"
    and commit_raised: "d_commit DB d = (Inl e, d') \<Longrightarrow> committed d' = committed d \<and> seen d' = committed d"
begin

text \<open>No insertion breaks the integrity of what the session sees or of what is committed.\<close>

lemma feature_integrity:
  assumes "i_feature DB r d = (x, d')" and "integrity (seen d)" and "integrity (committed d)"
  shows "integrity (seen d') \<and> integrity (committed d')"
proof (cases x)
  case (Inl e)
  then show ?thesis using assms feature_raised by simp
next
  case (Inr u)
  then obtain i where "df_feature_name r \<notin> feature_names (seen d)" "committed d' = committed d"
    "seen d' = (seen d)\<lparr>t_features := t_features (seen d) @ [r\<lparr>df_id := i\<rparr>]\<rparr>"
    using assms(1) feature_ok [of r d d'] by auto
  then show ?thesis using assms(2,3) by (auto simp: integrity_def feature_names_def list_all_iff)
qed

lemma lineage_integrity:
  assumes "i_lineage DB l d = (x, d')" and "integrity (seen d)" and "integrity (committed d)"
  shows "integrity (seen d') \<and> integrity (committed d')"
  using assms lineage_raised lineage_ok [of l d d'] by (cases x) (auto simp: integrity_def feature_names_def)

lemma metric_integrity:
  assumes "i_metric DB m d = (x, d')" and "integrity (seen d)" and "integrity (committed d)"
  shows "integrity (seen d') \<and> integrity (committed d')"
  using assms metric_raised metric_ok [of m d d'] by (cases x) (auto simp: integrity_def feature_names_def)

end

subsection \<open>Engines and sessions\<close>

text \<open>\<open>database.py\<close>: the two engines as they are configured.\<close>

record engine_settings =
  en_url :: string
  en_pool_size :: "nat option"
  en_max_overflow :: "nat option"
  en_pool_pre_ping :: bool
  en_echo :: bool

text \<open>What a call leaves out, SQLAlchemy chooses.\<close>

definition async_engine :: "registry_config \<Rightarrow> engine_settings" where
  "async_engine cfg = \<lparr>en_url = database_url cfg, en_pool_size = Some 10, en_max_overflow = Some 20, en_pool_pre_ping = True,
     en_echo = False\<rparr>"

definition sync_engine :: "registry_config \<Rightarrow> engine_settings" where
  "sync_engine cfg = \<lparr>en_url = sync_database_url cfg, en_pool_size = None, en_max_overflow = None, en_pool_pre_ping = True,
     en_echo = False\<rparr>"

text \<open>
  What SQLAlchemy does when a connection or session is entered and left; the body of the \<open>with\<close> block runs in between.
  A dependency of a route yields the session to the route's handler.
\<close>

record 'd sessions =
  sn_open :: "'d \<Rightarrow> 'd"
  sn_close :: "'d \<Rightarrow> 'd"

definition AsyncSessionLocal :: "'d sessions \<Rightarrow> ('d \<Rightarrow> 'a \<times> 'd) \<Rightarrow> 'd \<Rightarrow> 'a \<times> 'd" where
  "AsyncSessionLocal SN body d = (case body (sn_open SN d) of (r, d') \<Rightarrow> (r, sn_close SN d'))"

definition SyncSessionLocal :: "'d sessions \<Rightarrow> ('d \<Rightarrow> 'a \<times> 'd) \<Rightarrow> 'd \<Rightarrow> 'a \<times> 'd" where
  "SyncSessionLocal SN body d = (case body (sn_open SN d) of (r, d') \<Rightarrow> (r, sn_close SN d'))"

definition get_async_session :: "'d sessions \<Rightarrow> ('d \<Rightarrow> 'a \<times> 'd) \<Rightarrow> 'd \<Rightarrow> 'a \<times> 'd" where
  "get_async_session SN handler = AsyncSessionLocal SN handler"

definition get_sync_session :: "'d sessions \<Rightarrow> ('d \<Rightarrow> 'a \<times> 'd) \<Rightarrow> 'd \<Rightarrow> 'a \<times> 'd" where
  "get_sync_session SN handler = SyncSessionLocal SN handler"

text \<open>
  \<open>engine.begin()\<close> is one transaction: leaving the block commits, or rolls back on an exception. \<open>create_all\<close> creates the
  tables that are missing.
\<close>

definition create_tables ::
  "'d sessions \<Rightarrow> 'd database \<Rightarrow> ('d \<Rightarrow> (exn + unit) \<times> 'd) \<Rightarrow> 'd \<Rightarrow> (exn + unit) \<times> 'd" where
  "create_tables SN DB create_all d =
     (case create_all (sn_open SN d) of
        (Inl e, d') \<Rightarrow> (Inl e, sn_close SN d')
      | (Inr u, d') \<Rightarrow> (case d_commit DB d' of (r, d'') \<Rightarrow> (r, sn_close SN d'')))"

text \<open>A new session sees what is committed, and what it has not committed when it is closed is rolled back.\<close>

locale session_db = registry_db DB seen committed for DB :: "'d database" and seen committed +
  fixes SN :: "'d sessions"
  assumes opens: "committed (sn_open SN d) = committed d \<and> seen (sn_open SN d) = committed d"
    and closes: "committed (sn_close SN d) = committed d \<and> seen (sn_close SN d) = committed d"

subsection \<open>The service\<close>

text \<open>A feature with its lineage loaded.\<close>

type_synonym feature_loaded = "feature_definition \<times> feature_lineage list"

definition with_lineage :: "'d database \<Rightarrow> 'd \<Rightarrow> feature_definition \<Rightarrow> exn + feature_loaded" where
  "with_lineage DB d f = ebind (q_lineage DB (df_feature_name f) d) (\<lambda>ls. Inr (f, ls))"

definition get_all_features :: "'d database \<Rightarrow> 'd \<Rightarrow> exn + feature_loaded list" where
  "get_all_features DB d = ebind (q_features_by_name DB df_is_active d) (emap (with_lineage DB d))"

text \<open>\<open>scalar_one_or_none\<close> raises when there are several rows.\<close>

fun scalar_one_or_none :: "'a list \<Rightarrow> exn + 'a option" where
  "scalar_one_or_none [] = Inr None"
| "scalar_one_or_none [x] = Inr (Some x)"
| "scalar_one_or_none (x # y # zs) = Inl ValueError"

definition get_feature :: "'d database \<Rightarrow> 'd \<Rightarrow> string \<Rightarrow> exn + feature_loaded option" where
  "get_feature DB d feature_name =
     ebind (q_features DB (\<lambda>f. df_feature_name f = feature_name) d) (\<lambda>rows.
     ebind (emap (with_lineage DB d) rows) scalar_one_or_none)"

record metric_create =
  mc_feature_name :: string
  mc_metric_type :: string
  mc_metric_value :: pyfloat

record rca_create =
  cc_feature_name :: string
  cc_probable_cause :: string
  cc_cause_category :: string
  cc_confidence :: pyfloat
  cc_urgency :: string
  cc_remediation_steps :: "string list"
  cc_estimated_impact :: string
  cc_model_used :: string
  cc_tokens_used :: int

definition record_metric :: "'d database \<Rightarrow> real \<Rightarrow> metric_create \<Rightarrow> 'd \<Rightarrow> (exn + unit) \<times> 'd" where
  "record_metric DB utcnow metric d =
     (case i_metric DB \<lparr>mt_feature_name = mc_feature_name metric, mt_metric_type = mc_metric_type metric,
         mt_metric_value = mc_metric_value metric, mt_recorded_at = utcnow\<rparr> d of
        (Inl e, d') \<Rightarrow> (Inl e, d')
      | (Inr u, d') \<Rightarrow> d_commit DB d')"

definition record_rca :: "'d database \<Rightarrow> pyfloat \<Rightarrow> rca_create \<Rightarrow> 'd \<Rightarrow> (exn + rca_result) \<times> 'd" where
  "record_rca DB utcnow rca d =
     (let obj = \<lparr>rc_feature_name = cc_feature_name rca, rc_probable_cause = cc_probable_cause rca,
            rc_cause_category = cc_cause_category rca, rc_confidence = cc_confidence rca,
            rc_urgency = cc_urgency rca, rc_remediation_steps = JArr (map JStr (cc_remediation_steps rca)),
            rc_estimated_impact = cc_estimated_impact rca, rc_model_used = cc_model_used rca,
            rc_tokens_used = cc_tokens_used rca, rc_computed_at = utcnow\<rparr>
      in case i_rca DB obj d of
           (Inl e, d') \<Rightarrow> (Inl e, d')
         | (Inr u, d') \<Rightarrow>
             (case d_commit DB d' of
                (Inl e, d'') \<Rightarrow> (Inl e, d'')
              | (Inr u, d'') \<Rightarrow> (Inr obj, d'')))"

definition get_recent_metrics :: "'d database \<Rightarrow> 'd \<Rightarrow> string \<Rightarrow> string \<Rightarrow> nat \<Rightarrow> exn + feature_metric list" where
  "get_recent_metrics DB d feature_name metric_type limit =
     q_metrics_latest DB (\<lambda>m. mt_feature_name m = feature_name \<and> mt_metric_type m = metric_type) limit d"

subsection \<open>The routes\<close>

record feature_response =
  fs_id :: nat
  fs_feature_name :: string
  fs_display_name :: "string option"
  fs_description :: "string option"
  fs_transform_logic :: "string option"
  fs_window_type :: "string option"
  fs_freshness_sla_seconds :: int
  fs_owner :: "string option"
  fs_version :: string
  fs_is_active :: bool
  fs_created_at :: pyfloat
  fs_updated_at :: pyfloat
  fs_lineage :: "(string \<times> string) list"

definition response_of :: "feature_loaded \<Rightarrow> feature_response" where
  "response_of = (\<lambda>(f, ls). \<lparr>fs_id = df_id f, fs_feature_name = df_feature_name f, fs_display_name = df_display_name f,
     fs_description = df_description f, fs_transform_logic = df_transform_logic f, fs_window_type = df_window_type f,
     fs_freshness_sla_seconds = df_freshness_sla_seconds f, fs_owner = df_owner f, fs_version = df_version f,
     fs_is_active = df_is_active f, fs_created_at = df_created_at f, fs_updated_at = df_updated_at f,
     fs_lineage = map (\<lambda>l. (ln_upstream_source l, ln_transform_step l)) ls\<rparr>)"

definition list_features :: "'d database \<Rightarrow> 'd \<Rightarrow> exn + feature_response list" where
  "list_features DB d = ebind (get_all_features DB d) (\<lambda>fs. Inr (map response_of fs))"

definition get_feature_detail :: "'d database \<Rightarrow> string \<Rightarrow> 'd \<Rightarrow> exn + feature_response" where
  "get_feature_detail DB feature_name d =
     ebind (get_feature DB d feature_name) (\<lambda>feature.
       case feature of None \<Rightarrow> Inl (HTTPException 404) | Some f \<Rightarrow> Inr (response_of f))"

subsection \<open>Seeding\<close>

text \<open>
  The seeds are module-level dictionaries that \<open>seed_features\<close> changes while it runs: \<open>sd_lineage\<close> is
  \<open>None\<close> while the key is popped.
\<close>

record feature_seed =
  sd_feature_name :: string
  sd_display_name :: string
  sd_description :: string
  sd_transform_logic :: string
  sd_window_type :: string
  sd_freshness_sla_seconds :: int
  sd_owner :: string
  sd_version :: string
  sd_lineage :: "(string \<times> string) list option"

definition FEATURE_SEEDS :: "feature_seed list" where
  \<open>FEATURE_SEEDS =
    [\<lparr>sd_feature_name = ''txn_count_5m'',
      sd_display_name = ''Transaction Count (5 min)'',
      sd_description = ''Number of purchase transactions in the last 5-minute tumbling window.'',
      sd_transform_logic = ''COUNT(event_type='' @ [CHR 0x27] @ ''purchase'' @ [CHR 0x27] @ '') OVER TUMBLING WINDOW 5 MINUTES'',
      sd_window_type = ''tumbling_5m'',
      sd_freshness_sla_seconds = 60,
      sd_owner = ''ml-platform'',
      sd_version = ''1.0'',
      sd_lineage = Some
       [(''kafka:ecommerce.events.raw'', ''filter event_type=purchase''),
        (''pyspark:structured_streaming'', ''count_window_5m'')]\<rparr>,
     \<lparr>sd_feature_name = ''avg_spend_1h'',
      sd_display_name = ''Average Spend (1 hour)'',
      sd_description = ''Average purchase transaction amount in a sliding 1-hour window.'',
      sd_transform_logic = ''AVG(transaction_amount WHERE event_type='' @ [CHR 0x27] @ ''purchase'' @ [CHR 0x27] @ '') OVER SLIDING WINDOW 1H/5MIN'',
      sd_window_type = ''sliding_1h'',
      sd_freshness_sla_seconds = 300,
      sd_owner = ''ml-platform'',
      sd_version = ''1.0'',
      sd_lineage = Some
       [(''kafka:ecommerce.events.raw'', ''filter event_type=purchase''),
        (''pyspark:structured_streaming'', ''avg_window_1h'')]\<rparr>,
     \<lparr>sd_feature_name = ''session_activity_rate'',
      sd_display_name = ''Session Activity Rate (5 min)'',
      sd_description = ''Ratio of total events to distinct sessions in the last 5 minutes.'',
      sd_transform_logic = ''COUNT(events) / COUNT(DISTINCT session_id) OVER TUMBLING WINDOW 5 MINUTES'',
      sd_window_type = ''tumbling_5m'',
      sd_freshness_sla_seconds = 60,
      sd_owner = ''ml-platform'',
      sd_version = ''1.0'',
      sd_lineage = Some
       [(''kafka:ecommerce.events.raw'', ''all_events''),
        (''pyspark:structured_streaming'', ''session_rate_5m'')]\<rparr>,
     \<lparr>sd_feature_name = ''cart_abandon_ratio'',
      sd_display_name = ''Cart Abandonment Ratio (30 min)'',
      sd_description = ''Fraction of add-to-cart events not followed by a purchase in 30 minutes.'',
      sd_transform_logic = ''add_to_cart_count_without_purchase / total_add_to_cart OVER TUMBLING 30 MINUTES'',
      sd_window_type = ''tumbling_30m'',
      sd_freshness_sla_seconds = 300,
      sd_owner = ''ml-platform'',
      sd_version = ''1.0'',
      sd_lineage = Some
       [(''kafka:ecommerce.events.raw'', ''filter add_to_cart + purchase''),
        (''pyspark:structured_streaming'', ''cart_abandon_30m'')]\<rparr>,
     \<lparr>sd_feature_name = ''product_interaction_freq'',
      sd_display_name = ''Product Interaction Frequency (1 hour)'',
      sd_description = ''Number of product page views in the last 1-hour tumbling window.'',
      sd_transform_logic = ''COUNT(event_type='' @ [CHR 0x27] @ ''page_view'' @ [CHR 0x27] @ '') OVER TUMBLING WINDOW 1 HOUR'',
      sd_window_type = ''tumbling_1h'',
      sd_freshness_sla_seconds = 300,
      sd_owner = ''ml-platform'',
      sd_version = ''1.0'',
      sd_lineage = Some
       [(''kafka:ecommerce.events.raw'', ''filter page_view''),
        (''pyspark:structured_streaming'', ''pageview_count_1h'')]\<rparr>,
     \<lparr>sd_feature_name = ''anomaly_score'',
      sd_display_name = ''Transaction Anomaly Score (5 min)'',
      sd_description = ''Z-score of current transaction amount vs 24-hour rolling mean/stddev. High values indicate potential fraud.'',
      sd_transform_logic = ''(avg_txn_5m - mean_24h) / stddev_24h'',
      sd_window_type = ''tumbling_5m'',
      sd_freshness_sla_seconds = 60,
      sd_owner = ''fraud-detection'',
      sd_version = ''1.0'',
      sd_lineage = Some
       [(''kafka:ecommerce.events.raw'', ''filter purchase''),
        (''pyspark:structured_streaming'', ''zscore_24h'')]\<rparr>]\<close>

definition seed_row :: "pyfloat \<Rightarrow> feature_seed \<Rightarrow> feature_definition" where
  "seed_row now s = \<lparr>df_id = 0, df_feature_name = sd_feature_name s, df_display_name = Some (sd_display_name s),
     df_description = Some (sd_description s), df_transform_logic = Some (sd_transform_logic s),
     df_window_type = Some (sd_window_type s), df_freshness_sla_seconds = sd_freshness_sla_seconds s,
     df_owner = Some (sd_owner s), df_version = sd_version s, df_is_active = True, df_created_at = now,
     df_updated_at = now\<rparr>"

fun add_lineage :: "'d database \<Rightarrow> string \<Rightarrow> (string \<times> string) list \<Rightarrow> 'd \<Rightarrow> (exn + unit) \<times> 'd" where
  "add_lineage DB f [] d = (Inr (), d)"
| "add_lineage DB f ((upstream, step) # steps) d =
     (case i_lineage DB \<lparr>ln_feature_name = f, ln_upstream_source = upstream, ln_transform_step = step\<rparr> d of
        (Inl e, d') \<Rightarrow> (Inl e, d')
      | (Inr u, d') \<Rightarrow> add_lineage DB f steps d')"

text \<open>
  One iteration: the outcome, the seed as it is left, and the database. The feature row is flushed while the key is
  popped; the lineage rows are sent with the next statement, when it has been restored.
\<close>

definition seed_one :: "'d database \<Rightarrow> pyfloat \<Rightarrow> feature_seed \<Rightarrow> 'd \<Rightarrow> (exn + unit) \<times> feature_seed \<times> 'd" where
  "seed_one DB now seed d =
     (case ebind (q_features DB (\<lambda>f. df_feature_name f = sd_feature_name seed) d) scalar_one_or_none of
        Inl e \<Rightarrow> (Inl e, seed, d)
      | Inr (Some f) \<Rightarrow> (Inr (), seed, d)
      | Inr None \<Rightarrow>
          (let lineage_data = (case sd_lineage seed of None \<Rightarrow> [] | Some ls \<Rightarrow> ls);
               popped = seed\<lparr>sd_lineage := None\<rparr>
           in case i_feature DB (seed_row now popped) d of
                (Inl e, d') \<Rightarrow> (Inl e, popped, d')
              | (Inr u, d') \<Rightarrow>
                  (case add_lineage DB (sd_feature_name seed) lineage_data d' of
                     (Inl e, d'') \<Rightarrow> (Inl e, popped\<lparr>sd_lineage := Some lineage_data\<rparr>, d'')
                   | (Inr u, d'') \<Rightarrow> (Inr (), popped\<lparr>sd_lineage := Some lineage_data\<rparr>, d''))))"

fun seed_loop ::
  "'d database \<Rightarrow> pyfloat \<Rightarrow> feature_seed list \<Rightarrow> 'd \<Rightarrow> (exn + unit) \<times> feature_seed list \<times> 'd" where
  "seed_loop DB now [] d = (Inr (), [], d)"
| "seed_loop DB now (seed # seeds) d =
     (case seed_one DB now seed d of
        (Inl e, seed', d') \<Rightarrow> (Inl e, seed' # seeds, d')
      | (Inr u, seed', d') \<Rightarrow>
          (case seed_loop DB now seeds d' of (r, seeds', d'') \<Rightarrow> (r, seed' # seeds', d'')))"

definition seed_features ::
  "'d database \<Rightarrow> pyfloat \<Rightarrow> feature_seed list \<Rightarrow> 'd \<Rightarrow> (exn + unit) \<times> feature_seed list \<times> 'd" where
  "seed_features DB now seeds d =
     (case seed_loop DB now seeds d of
        (Inl e, seeds', d') \<Rightarrow> (Inl e, seeds', d')
      | (Inr u, seeds', d') \<Rightarrow> (case d_commit DB d' of (r, d'') \<Rightarrow> (r, seeds', d'')))"

subsection \<open>A database that satisfies the contract\<close>

text \<open>Its next \<open>rt_faults\<close> insertions fail.\<close>

record ref_tables =
  rt_seen :: tables
  rt_committed :: tables
  rt_faults :: nat

definition ref_insert :: "bool \<Rightarrow> (tables \<Rightarrow> tables) \<Rightarrow> ref_tables \<Rightarrow> (exn + unit) \<times> ref_tables" where
  "ref_insert allowed f d =
     (if 0 < rt_faults d \<or> \<not> allowed
      then (Inl IntegrityError, d\<lparr>rt_seen := rt_committed d, rt_faults := rt_faults d - 1\<rparr>)
      else (Inr (), d\<lparr>rt_seen := f (rt_seen d)\<rparr>))"

definition ref_database :: "ref_tables database" where
  "ref_database = \<lparr>
     i_feature = (\<lambda>r d. ref_insert (df_feature_name r \<notin> feature_names (rt_seen d))
       (\<lambda>t. t\<lparr>t_features := t_features t @ [r\<lparr>df_id := Suc (length (t_features t))\<rparr>]\<rparr>) d),
     i_lineage = (\<lambda>l d. ref_insert (ln_feature_name l \<in> feature_names (rt_seen d))
       (\<lambda>t. t\<lparr>t_lineage := t_lineage t @ [l]\<rparr>) d),
     i_metric = (\<lambda>m d. ref_insert (mt_feature_name m \<in> feature_names (rt_seen d))
       (\<lambda>t. t\<lparr>t_metrics := t_metrics t @ [m]\<rparr>) d),
     i_rca = (\<lambda>x d. ref_insert True (\<lambda>t. t\<lparr>t_rca := t_rca t @ [x]\<rparr>) d),
     q_features = (\<lambda>p d. Inr (filter p (t_features (rt_seen d)))),
     q_features_by_name = (\<lambda>p d. Inr (sort_key df_feature_name (filter p (t_features (rt_seen d))))),
     q_lineage = (\<lambda>f d. Inr (filter (\<lambda>l. ln_feature_name l = f) (t_lineage (rt_seen d)))),
     q_metrics_latest = (\<lambda>p n d. Inr (take n (sort_key (\<lambda>m. - mt_recorded_at m) (filter p (t_metrics (rt_seen d)))))),
     d_commit = (\<lambda>d. (Inr (), d\<lparr>rt_committed := rt_seen d\<rparr>)),
     d_collate = (\<le>)\<rparr>"

lemma sorted_desc:
  "sorted_wrt (\<lambda>a b. mt_recorded_at b \<le> mt_recorded_at a) (sort_key (\<lambda>m. - mt_recorded_at m) ms)"
  using sorted_sort_key [of "\<lambda>m. - mt_recorded_at m" ms] by (simp add: sorted_map sorted_wrt_map)

lemma ref_database_contract: "registry_db ref_database rt_seen rt_committed"
proof (unfold_locales, goal_cases)
  case (10 p d rows)
  then show ?case using sorted_sort_key [of df_feature_name "filter p (t_features (rt_seen d))"]
    by (auto simp: ref_database_def sorted_map)
next
  case (12 p n d ms)
  then show ?case
    by (intro exI [of _ "sort_key (\<lambda>m. - mt_recorded_at m) (filter p (t_metrics (rt_seen d)))"])
      (auto simp: ref_database_def sorted_desc)
qed (auto simp: ref_database_def ref_insert_def split: if_splits)

interpretation ref_db: registry_db ref_database rt_seen rt_committed
  by (rule ref_database_contract)

definition ref_sessions :: "ref_tables sessions" where
  "ref_sessions = \<lparr>sn_open = (\<lambda>d. d\<lparr>rt_seen := rt_committed d\<rparr>), sn_close = (\<lambda>d. d\<lparr>rt_seen := rt_committed d\<rparr>)\<rparr>"

lemma ref_session_db: "session_db ref_database rt_seen rt_committed ref_sessions"
  by (intro session_db.intro ref_database_contract session_db_axioms.intro) (simp_all add: ref_sessions_def)

interpretation ref_sn: session_db ref_database rt_seen rt_committed ref_sessions
  by (rule ref_session_db)

definition empty_tables :: ref_tables where
  "empty_tables = (let t = \<lparr>t_features = [], t_lineage = [], t_metrics = [], t_rca = []\<rparr>
     in \<lparr>rt_seen = t, rt_committed = t, rt_faults = 0\<rparr>)"

subsection \<open>What seeding does\<close>

definition seed_names :: "feature_seed list \<Rightarrow> string list" where
  "seed_names seeds = map sd_feature_name seeds"

definition lineage_rows :: "feature_seed \<Rightarrow> feature_lineage list" where
  "lineage_rows s = map (\<lambda>(u, t). \<lparr>ln_feature_name = sd_feature_name s, ln_upstream_source = u, ln_transform_step = t\<rparr>)
     (case sd_lineage s of None \<Rightarrow> [] | Some ls \<Rightarrow> ls)"

text \<open>The features of \<open>seeds\<close> that are not in the table yet.\<close>

definition missing :: "tables \<Rightarrow> feature_seed list \<Rightarrow> feature_seed list" where
  "missing t seeds = filter (\<lambda>s. sd_feature_name s \<notin> feature_names t) seeds"

text \<open>\<open>t'\<close> is \<open>t\<close> with one row for each of \<open>seeds\<close> and their lineage appended.\<close>

definition seeded :: "tables \<Rightarrow> feature_seed list \<Rightarrow> tables \<Rightarrow> bool" where
  "seeded t seeds t' \<longleftrightarrow>
     (\<exists>rows. t_features t' = t_features t @ rows \<and> map df_feature_name rows = seed_names seeds)
     \<and> t_lineage t' = t_lineage t @ concat (map lineage_rows seeds)
     \<and> t_metrics t' = t_metrics t \<and> t_rca t' = t_rca t"

lemma seeded_refl: "seeded t [] t"
  by (simp add: seeded_def seed_names_def)

lemma seeded_names: "seeded t seeds t' \<Longrightarrow> feature_names t' = feature_names t \<union> set (seed_names seeds)"
  by (auto simp: seeded_def feature_names_def simp flip: set_map)

lemma seeded_trans: "seeded t as t' \<Longrightarrow> seeded t' bs t'' \<Longrightarrow> seeded t (as @ bs) t''"
  by (auto simp: seeded_def seed_names_def)

lemma scalar_one_or_none_None: "scalar_one_or_none rows = Inr None \<longleftrightarrow> rows = []"
  by (cases rows rule: scalar_one_or_none.cases) auto

lemma scalar_one_or_none_Some: "scalar_one_or_none rows = Inr (Some x) \<longleftrightarrow> rows = [x]"
  by (cases rows rule: scalar_one_or_none.cases) auto

context registry_db
begin

lemma add_lineage_ok:
  "add_lineage DB f ls d = (Inr (), d') \<Longrightarrow> committed d' = committed d \<and>
     seen d' = (seen d)\<lparr>t_lineage := t_lineage (seen d)
       @ map (\<lambda>(u, t). \<lparr>ln_feature_name = f, ln_upstream_source = u, ln_transform_step = t\<rparr>) ls\<rparr>"
proof (induction ls arbitrary: d)
  case Nil
  then show ?case by simp
next
  case (Cons p ls)
  obtain u t where p: "p = (u, t)" by (cases p)
  obtain e where "i_lineage DB \<lparr>ln_feature_name = f, ln_upstream_source = u, ln_transform_step = t\<rparr> d = (Inr (), e)"
    "add_lineage DB f ls e = (Inr (), d')"
    using Cons.prems by (auto simp: p split: prod.splits sum.splits)
  then show ?case using Cons.IH [of e] lineage_ok by (auto simp: p)
qed

lemma query_by_name:
  assumes "ebind (q_features DB (\<lambda>f. df_feature_name f = n) d) scalar_one_or_none = Inr r"
  shows "case r of None \<Rightarrow> n \<notin> feature_names (seen d)
    | Some x \<Rightarrow> filter (\<lambda>f. df_feature_name f = n) (t_features (seen d)) = [x]"
proof -
  obtain rows where rows: "mset rows = mset (filter (\<lambda>f. df_feature_name f = n) (t_features (seen d)))"
    "scalar_one_or_none rows = Inr r"
    using assms features_seen by (auto simp: ebind_Inr_iff)
  show ?thesis
  proof (cases r)
    case None
    then have "filter (\<lambda>f. df_feature_name f = n) (t_features (seen d)) = []"
      using rows by (simp add: scalar_one_or_none_None)
    then show ?thesis using None by (auto simp: feature_names_def filter_empty_conv)
  next
    case (Some x)
    then have "mset (filter (\<lambda>f. df_feature_name f = n) (t_features (seen d))) = {#x#}"
      using rows by (simp add: scalar_one_or_none_Some del: mset_filter)
    then show ?thesis using Some by (simp del: mset_filter)
  qed
qed

lemma seed_one_ok:
  assumes "seed_one DB now s d = (Inr (), s', d')" and "sd_lineage s \<noteq> None"
  shows "s' = s \<and> committed d' = committed d \<and> seeded (seen d) (missing (seen d) [s]) (seen d')"
proof -
  let ?q = "ebind (q_features DB (\<lambda>f. df_feature_name f = sd_feature_name s) d) scalar_one_or_none"
  obtain r where r: "?q = Inr r" using assms(1) by (auto simp: seed_one_def split: sum.splits)
  show ?thesis
  proof (cases r)
    case (Some f)
    then have "sd_feature_name s \<in> feature_names (seen d)"
      using query_by_name [OF r] by (auto simp: feature_names_def filter_eq_Cons_iff)
    then show ?thesis using assms(1) r Some by (simp add: seed_one_def missing_def seeded_refl)
  next
    case None
    obtain ls where ls: "sd_lineage s = Some ls" using assms(2) by blast
    obtain e where e: "i_feature DB (seed_row now (s\<lparr>sd_lineage := None\<rparr>)) d = (Inr (), e)"
      "add_lineage DB (sd_feature_name s) ls e = (Inr (), d')" "s' = s\<lparr>sd_lineage := Some ls\<rparr>"
      using assms(1) r None ls by (auto simp: seed_one_def Let_def split: prod.splits sum.splits)
    have "s' = s" using e(3) ls by (cases s) simp
    moreover have "missing (seen d) [s] = [s]" using query_by_name [OF r] None by (simp add: missing_def)
    moreover obtain i where "seen e = (seen d)\<lparr>t_features := t_features (seen d) @ [(seed_row now (s\<lparr>sd_lineage := None\<rparr>))\<lparr>df_id := i\<rparr>]\<rparr>"
      "committed e = committed d"
      using feature_ok [OF e(1)] by blast
    ultimately show ?thesis
      using add_lineage_ok [OF e(2)] by (simp add: seeded_def seed_names_def lineage_rows_def ls seed_row_def)
  qed
qed

lemma seed_loop_ok:
  assumes "seed_loop DB now seeds d = (Inr (), seeds', d')" and "\<forall>s \<in> set seeds. sd_lineage s \<noteq> None"
    and "distinct (seed_names seeds)"
  shows "seeds' = seeds \<and> committed d' = committed d \<and> seeded (seen d) (missing (seen d) seeds) (seen d')"
  using assms
proof (induction seeds arbitrary: d seeds')
  case Nil
  then show ?case by (simp add: missing_def seeded_refl)
next
  case (Cons s seeds)
  obtain s' e rest where e: "seed_one DB now s d = (Inr (), s', e)" "seed_loop DB now seeds e = (Inr (), rest, d')"
    "seeds' = s' # rest"
    using Cons.prems(1) by (auto split: prod.splits sum.splits)
  have one: "s' = s \<and> committed e = committed d \<and> seeded (seen d) (missing (seen d) [s]) (seen e)"
    using seed_one_ok [OF e(1)] Cons.prems(2) by simp
  have "seed_names (missing (seen d) [s]) = (if sd_feature_name s \<in> feature_names (seen d) then [] else [sd_feature_name s])"
    by (simp add: missing_def seed_names_def)
  then have "feature_names (seen e) = feature_names (seen d) \<union> {sd_feature_name s}"
    using seeded_names [of "seen d" _ "seen e"] one by (auto split: if_splits)
  moreover have "\<forall>x \<in> set seeds. sd_feature_name x \<noteq> sd_feature_name s"
    using Cons.prems(3) by (auto simp: seed_names_def image_iff)
  ultimately have "missing (seen e) seeds = missing (seen d) seeds"
    by (auto simp: missing_def seed_names_def intro!: filter_cong)
  moreover have "rest = seeds \<and> committed d' = committed e \<and> seeded (seen e) (missing (seen e) seeds) (seen d')"
    using Cons.IH [OF e(2)] Cons.prems(2,3) by (simp add: seed_names_def)
  moreover have "missing (seen d) (s # seeds) = missing (seen d) [s] @ missing (seen d) seeds"
    by (simp add: missing_def)
  ultimately show ?case using one e(3) seeded_trans by auto
qed

end

lemma seeds_wellformed:
  "distinct (seed_names FEATURE_SEEDS)" "\<forall>s \<in> set FEATURE_SEEDS. sd_lineage s \<noteq> None"
  by (simp_all add: FEATURE_SEEDS_def seed_names_def)

context registry_db
begin

lemma seed_features_facts:
  assumes "seed_features DB now FEATURE_SEEDS d = (Inr (), seeds', d')"
  shows "seeds' = FEATURE_SEEDS" "committed d' = seen d'" "seeded (seen d) (missing (seen d) FEATURE_SEEDS) (seen d')"
    "feature_names (seen d') = feature_names (seen d) \<union> set (seed_names FEATURE_SEEDS)"
proof -
  obtain e where e: "seed_loop DB now FEATURE_SEEDS d = (Inr (), seeds', e)" "d_commit DB e = (Inr (), d')"
    using assms by (auto simp: seed_features_def split: prod.splits sum.splits)
  have loop: "seeds' = FEATURE_SEEDS \<and> committed e = committed d
      \<and> seeded (seen d) (missing (seen d) FEATURE_SEEDS) (seen e)"
    by (rule seed_loop_ok [OF e(1) seeds_wellformed(2,1)])
  have commit: "committed d' = seen e \<and> seen d' = seen e" by (rule commit_ok [OF e(2)])
  show "seeds' = FEATURE_SEEDS" "committed d' = seen d'" "seeded (seen d) (missing (seen d) FEATURE_SEEDS) (seen d')"
    using loop commit by simp_all
  show "feature_names (seen d') = feature_names (seen d) \<union> set (seed_names FEATURE_SEEDS)"
    using seeded_names [of "seen d" _ "seen e"] loop commit by (auto simp: missing_def seed_names_def)
qed

end

text \<open>
  C34. Seeding completes the registry: when it returns, exactly the features that were missing have been appended,
  each with its lineage, every other row is untouched, and the result is committed; the seeds are as before. In
  particular a second seeding changes nothing.
\<close>

theorem seed_features_completes:
  assumes "registry_db DB seen committed" and "seed_features DB now FEATURE_SEEDS d = (Inr (), seeds', d')"
  shows "seeds' = FEATURE_SEEDS \<and> committed d' = seen d'
    \<and> seeded (seen d) (missing (seen d) FEATURE_SEEDS) (seen d')
    \<and> feature_names (seen d') = feature_names (seen d) \<union> set (seed_names FEATURE_SEEDS)
    \<and> missing (seen d') FEATURE_SEEDS = []"
proof -
  note facts = registry_db.seed_features_facts [OF assms]
  have "missing (seen d') FEATURE_SEEDS = []"
    using facts(4) by (auto simp: missing_def seed_names_def filter_empty_conv)
  with facts show ?thesis by simp
qed

lemma ref_database_sel [simp]:
  "i_feature ref_database r d = ref_insert (df_feature_name r \<notin> feature_names (rt_seen d))
       (\<lambda>t. t\<lparr>t_features := t_features t @ [r\<lparr>df_id := Suc (length (t_features t))\<rparr>]\<rparr>) d"
  "i_lineage ref_database l d = ref_insert (ln_feature_name l \<in> feature_names (rt_seen d))
       (\<lambda>t. t\<lparr>t_lineage := t_lineage t @ [l]\<rparr>) d"
  "i_metric ref_database m d = ref_insert (mt_feature_name m \<in> feature_names (rt_seen d))
       (\<lambda>t. t\<lparr>t_metrics := t_metrics t @ [m]\<rparr>) d"
  "q_features ref_database p d = Inr (filter p (t_features (rt_seen d)))"
  "q_lineage ref_database f d = Inr (filter (\<lambda>l. ln_feature_name l = f) (t_lineage (rt_seen d)))"
  "d_commit ref_database d = (Inr (), d\<lparr>rt_committed := rt_seen d\<rparr>)"
  by (simp_all add: ref_database_def)

lemma seed_features_completes_witness:
  "\<exists>seeds' d'. seed_features ref_database (Fin 0) FEATURE_SEEDS empty_tables = (Inr (), seeds', d')
     \<and> feature_names (rt_committed d') = set (seed_names FEATURE_SEEDS)"
proof -
  obtain r seeds' d' where run: "seed_features ref_database (Fin 0) FEATURE_SEEDS empty_tables = (r, seeds', d')"
    by (cases "seed_features ref_database (Fin 0) FEATURE_SEEDS empty_tables") auto
  have "isl (fst (seed_features ref_database (Fin 0) FEATURE_SEEDS empty_tables)) = False"
    by (simp add: seed_features_def FEATURE_SEEDS_def seed_one_def Let_def empty_tables_def ref_insert_def
        feature_names_def seed_row_def)
  then have "r = Inr ()" using run by (cases r) auto
  with run have run: "seed_features ref_database (Fin 0) FEATURE_SEEDS empty_tables = (Inr (), seeds', d')" by simp
  have "feature_names (rt_seen empty_tables) = {}" by (simp add: empty_tables_def Let_def feature_names_def)
  with seed_features_completes [OF ref_database_contract run] run show ?thesis by auto
qed

text \<open>
  Seeding is not exception-safe: when the insertion of a feature raises, its seed keeps its lineage popped, so a
  later seeding by the same process inserts the feature and commits it with no lineage at all.
\<close>

theorem seed_lineage_lost:
  assumes "registry_db DB seen committed"
    and "seed_one DB now s d = (Inl e, s', d')" and "isl (q_features DB (\<lambda>f. df_feature_name f = sd_feature_name s) d) = False"
    and "sd_feature_name s \<notin> feature_names (seen d)" and "isl (fst (i_feature DB (seed_row now (s\<lparr>sd_lineage := None\<rparr>)) d))"
    and "seed_one DB now' s' d1 = (Inr (), s'', d2)"
  shows "sd_lineage s' = None \<and> t_lineage (seen d2) = t_lineage (seen d1)"
proof -
  obtain rows where rows: "q_features DB (\<lambda>f. df_feature_name f = sd_feature_name s) d = Inr rows"
    using assms(3) by (cases "q_features DB (\<lambda>f. df_feature_name f = sd_feature_name s) d") auto
  have "filter (\<lambda>f. df_feature_name f = sd_feature_name s) (t_features (seen d)) = []"
    using assms(4) by (auto simp: feature_names_def filter_empty_conv image_iff)
  then have "mset rows = {#}"
    using registry_db.features_seen [OF assms(1) rows] by (simp del: mset_filter)
  then have "rows = []" by simp
  then have s': "s' = s\<lparr>sd_lineage := None\<rparr>"
    using assms(2,5) rows by (auto simp: seed_one_def Let_def split: prod.splits sum.splits)
  obtain r where r: "ebind (q_features DB (\<lambda>f. df_feature_name f = sd_feature_name s') d1) scalar_one_or_none = Inr r"
    using assms(6) by (auto simp: seed_one_def split: sum.splits)
  have "t_lineage (seen d2) = t_lineage (seen d1)"
  proof (cases r)
    case (Some f)
    then show ?thesis using assms(6) r by (auto simp: seed_one_def)
  next
    case None
    have no_lineage: "sd_lineage s' = None" by (simp add: s')
    obtain q e where q: "i_feature DB (seed_row now' (s'\<lparr>sd_lineage := None\<rparr>)) d1 = (q, e)" by fastforce
    have "q = Inr () \<and> e = d2"
      using assms(6) by (cases q) (simp_all add: seed_one_def Let_def r None q no_lineage)
    with q have "i_feature DB (seed_row now' (s'\<lparr>sd_lineage := None\<rparr>)) d1 = (Inr (), d2)" by simp
    from registry_db.feature_ok [OF assms(1) this] show ?thesis by auto
  qed
  with s' show ?thesis by simp
qed

lemma seed_lineage_lost_witness:
  "\<exists>s' d' s'' d2. seed_one ref_database (Fin 0) (hd FEATURE_SEEDS) (empty_tables\<lparr>rt_faults := 1\<rparr>) = (Inl IntegrityError, s', d')
     \<and> seed_one ref_database (Fin 1) s' empty_tables = (Inr (), s'', d2)
     \<and> feature_names (rt_seen d2) = {''txn_count_5m''} \<and> t_lineage (rt_seen d2) = []"
proof -
  let ?s = "hd FEATURE_SEEDS" and ?d = "empty_tables\<lparr>rt_faults := 1\<rparr>"
  let ?s' = "?s\<lparr>sd_lineage := None\<rparr>"
  have name: "sd_feature_name ?s = ''txn_count_5m''" by (simp add: FEATURE_SEEDS_def)
  obtain d' where one: "seed_one ref_database (Fin 0) ?s ?d = (Inl IntegrityError, ?s', d')"
    by (simp add: seed_one_def empty_tables_def Let_def ref_insert_def)
  obtain s'' d2 where two: "seed_one ref_database (Fin 1) ?s' empty_tables = (Inr (), s'', d2)"
      "feature_names (rt_seen d2) = {sd_feature_name ?s}"
    by (simp add: seed_one_def empty_tables_def Let_def ref_insert_def feature_names_def seed_row_def)
  have h: "isl (q_features ref_database (\<lambda>f. df_feature_name f = sd_feature_name ?s) ?d) = False"
    "sd_feature_name ?s \<notin> feature_names (rt_seen ?d)"
    "isl (fst (i_feature ref_database (seed_row (Fin 0) (?s\<lparr>sd_lineage := None\<rparr>)) ?d))"
    by (simp_all add: empty_tables_def Let_def feature_names_def ref_insert_def)
  have "t_lineage (rt_seen empty_tables) = []" by (simp add: empty_tables_def Let_def)
  with seed_lineage_lost [OF ref_database_contract one h two(1)] one two name show ?thesis by auto
qed

subsection \<open>Queries and records\<close>

context registry_db
begin

lemma with_lineage_ok:
  "with_lineage DB d f = Inr x \<Longrightarrow>
     fst x = f \<and> mset (snd x) = mset (filter (\<lambda>l. ln_feature_name l = df_feature_name f) (t_lineage (seen d)))"
  by (auto simp: with_lineage_def ebind_Inr_iff dest: lineage_seen)

lemma get_feature_ok:
  assumes "get_feature DB d n = Inr r"
  shows "case r of None \<Rightarrow> n \<notin> feature_names (seen d)
    | Some (f, ls) \<Rightarrow> filter (\<lambda>f. df_feature_name f = n) (t_features (seen d)) = [f]
        \<and> mset ls = mset (filter (\<lambda>l. ln_feature_name l = n) (t_lineage (seen d)))"
proof -
  obtain rows xs where q: "q_features DB (\<lambda>f. df_feature_name f = n) d = Inr rows"
    "emap (with_lineage DB d) rows = Inr xs" "scalar_one_or_none xs = Inr r"
    using assms by (auto simp: get_feature_def ebind_Inr_iff)
  have len: "length xs = length rows" using emap_length [OF q(2)] .
  show ?thesis
  proof (cases r)
    case None
    then have "rows = []" using q(3) len by (simp add: scalar_one_or_none_None)
    then have "mset (filter (\<lambda>f. df_feature_name f = n) (t_features (seen d))) = {#}"
      using features_seen [OF q(1)] by (simp del: mset_filter)
    then show ?thesis using None by (auto simp: feature_names_def filter_empty_conv simp del: mset_filter)
  next
    case (Some x)
    then have xs: "xs = [x]" using q(3) by (simp add: scalar_one_or_none_Some)
    then obtain f where f: "rows = [f]" using len by (cases rows) auto
    then have "with_lineage DB d f = Inr x" using q(2) xs by (auto simp: ebind_Inr_iff)
    note x = with_lineage_ok [OF this]
    have one: "filter (\<lambda>f. df_feature_name f = n) (t_features (seen d)) = [f]"
      using features_seen [OF q(1)] f by (simp del: mset_filter)
    then have "df_feature_name f = n" by (auto simp: filter_eq_Cons_iff)
    then show ?thesis using Some x one by (cases x) (simp del: mset_filter)
  qed
qed

end

text \<open>
  Looking up a feature: a returned detail is the stored row of that name with exactly its lineage, and the route
  answers 404 exactly when the session has no such feature, given that the database answers.
\<close>

theorem feature_detail_exact:
  assumes "registry_db DB seen committed" and "get_feature DB d n = Inr r"
  shows "case r of
      None \<Rightarrow> n \<notin> feature_names (seen d) \<and> get_feature_detail DB n d = Inl (HTTPException 404)
    | Some (f, ls) \<Rightarrow> n \<in> feature_names (seen d) \<and> get_feature_detail DB n d = Inr (response_of (f, ls))
        \<and> fs_feature_name (response_of (f, ls)) = n
        \<and> mset (fs_lineage (response_of (f, ls)))
          = mset (map (\<lambda>l. (ln_upstream_source l, ln_transform_step l)) (filter (\<lambda>l. ln_feature_name l = n) (t_lineage (seen d))))"
proof (cases r)
  case None
  then show ?thesis
    using registry_db.get_feature_ok [OF assms] assms(2) by (simp add: get_feature_detail_def)
next
  case (Some x)
  obtain f ls where x: "x = (f, ls)" by (cases x)
  have f: "filter (\<lambda>f. df_feature_name f = n) (t_features (seen d)) = [f]"
    "mset ls = mset (filter (\<lambda>l. ln_feature_name l = n) (t_lineage (seen d)))"
    using registry_db.get_feature_ok [OF assms] Some x by (simp_all del: mset_filter)
  then have "f \<in> set (t_features (seen d))" "df_feature_name f = n"
    by (auto simp: filter_eq_Cons_iff)
  moreover have "mset (map g ls) = mset (map g (filter (\<lambda>l. ln_feature_name l = n) (t_lineage (seen d))))"
    for g :: "feature_lineage \<Rightarrow> string \<times> string"
    unfolding mset_map f(2) ..
  ultimately show ?thesis
    using Some x assms(2) by (auto simp: get_feature_detail_def response_of_def feature_names_def simp del: mset_filter mset_map)
qed

lemma feature_detail_exact_witness:
  "get_feature_detail ref_database ''nope'' empty_tables = Inl (HTTPException 404)"
proof -
  have q: "get_feature ref_database empty_tables ''nope'' = Inr None"
    by (simp add: get_feature_def empty_tables_def Let_def)
  show ?thesis using feature_detail_exact [OF ref_database_contract q] by simp
qed

text \<open>
  The recent metrics are at most \<open>limit\<close>, all of the requested feature and type, newest first, and no omitted
  one is newer than a returned one.
\<close>

theorem recent_metrics_latest:
  assumes "registry_db DB seen committed" and "get_recent_metrics DB d f t limit = Inr ms"
  shows "length ms \<le> limit
    \<and> list_all (\<lambda>m. mt_feature_name m = f \<and> mt_metric_type m = t) ms
    \<and> sorted_wrt (\<lambda>a b. mt_recorded_at b \<le> mt_recorded_at a) ms
    \<and> (\<exists>omitted. mset (ms @ omitted) = mset (filter (\<lambda>m. mt_feature_name m = f \<and> mt_metric_type m = t) (t_metrics (seen d)))
        \<and> list_all (\<lambda>x. list_all (\<lambda>m. mt_recorded_at x \<le> mt_recorded_at m) ms) omitted)"
proof -
  obtain all where all: "mset all = mset (filter (\<lambda>m. mt_feature_name m = f \<and> mt_metric_type m = t) (t_metrics (seen d)))"
    "sorted_wrt (\<lambda>a b. mt_recorded_at b \<le> mt_recorded_at a) all" "ms = take limit all"
    using assms(2) registry_db.metrics_latest [OF assms(1)] unfolding get_recent_metrics_def by blast
  have split: "sorted_wrt (\<lambda>a b. mt_recorded_at b \<le> mt_recorded_at a) (take limit all @ drop limit all)"
    using all(2) by simp
  have "set all = set (filter (\<lambda>m. mt_feature_name m = f \<and> mt_metric_type m = t) (t_metrics (seen d)))"
    using all(1) by (rule mset_eq_setD)
  then have match: "list_all (\<lambda>m. mt_feature_name m = f \<and> mt_metric_type m = t) ms"
    using all(3) by (auto simp: list_all_iff dest: in_set_takeD)
  have "mset (ms @ drop limit all) = mset all" by (simp only: all(3) append_take_drop_id)
  then show ?thesis
    using match split all
    by (intro conjI exI [of _ "drop limit all"]) (auto simp: sorted_wrt_append list_all_iff simp del: append_take_drop_id)
qed

definition sample_metric :: "real \<Rightarrow> feature_metric" where
  "sample_metric t = \<lparr>mt_feature_name = ''f'', mt_metric_type = ''psi'', mt_metric_value = Fin 0, mt_recorded_at = t\<rparr>"

definition sample_tables :: ref_tables where
  "sample_tables = empty_tables\<lparr>rt_seen := \<lparr>t_features = [], t_lineage = [],
     t_metrics = [sample_metric 1, sample_metric 3, sample_metric 2], t_rca = []\<rparr>\<rparr>"

lemma recent_metrics_latest_witness:
  "\<exists>ms. get_recent_metrics ref_database sample_tables ''f'' ''psi'' 2 = Inr ms \<and> length ms \<le> 2"
proof -
  obtain ms where ms: "get_recent_metrics ref_database sample_tables ''f'' ''psi'' 2 = Inr ms"
    by (simp add: get_recent_metrics_def ref_database_def)
  show ?thesis using recent_metrics_latest [OF ref_database_contract ms] ms by blast
qed

text \<open>
  Recording a metric: when it returns, the metric is committed after the rows the session saw, and its feature is
  registered; a metric of an unregistered feature is never recorded, and whatever happens the committed tables keep their
  integrity.
\<close>

theorem record_metric_committed:
  assumes "registry_db DB seen committed" and "record_metric DB utcnow m d = (r, d')"
    and "integrity (seen d)" and "integrity (committed d)"
  shows "(if r = Inr () then t_metrics (committed d') = t_metrics (seen d) @
        [\<lparr>mt_feature_name = mc_feature_name m, mt_metric_type = mc_metric_type m, mt_metric_value = mc_metric_value m,
          mt_recorded_at = utcnow\<rparr>] \<and> mc_feature_name m \<in> feature_names (seen d)
      else committed d' = committed d)
    \<and> integrity (committed d')"
proof -
  let ?m = "\<lparr>mt_feature_name = mc_feature_name m, mt_metric_type = mc_metric_type m, mt_metric_value = mc_metric_value m,
          mt_recorded_at = utcnow\<rparr>"
  obtain q e where q: "i_metric DB ?m d = (q, e)" by fastforce
  have int: "integrity (seen e) \<and> integrity (committed e)"
    by (rule registry_db.metric_integrity [OF assms(1) q assms(3,4)])
  show ?thesis
  proof (cases q)
    case (Inl x)
    then show ?thesis using assms(2) q registry_db.metric_raised [OF assms(1), of ?m d x e] int
      by (auto simp: record_metric_def)
  next
    case (Inr u)
    then have ok: "mc_feature_name m \<in> feature_names (seen d)" "committed e = committed d"
      "seen e = (seen d)\<lparr>t_metrics := t_metrics (seen d) @ [?m]\<rparr>"
      using registry_db.metric_ok [OF assms(1), of ?m d e] q by auto
    have "d_commit DB e = (r, d')" using assms(2) q Inr by (simp add: record_metric_def)
    then show ?thesis
      using registry_db.commit_ok [OF assms(1), of e d'] registry_db.commit_raised [OF assms(1), of e _ d'] ok int
      by (cases r) auto
  qed
qed

lemma record_metric_committed_witness:
  "\<exists>r d'. record_metric ref_database 5 \<lparr>mc_feature_name = ''all_features'', mc_metric_type = ''consistency_rate'',
      mc_metric_value = Fin 1\<rparr> empty_tables = (r, d')
     \<and> r \<noteq> Inr () \<and> integrity (rt_committed d')"
proof -
  obtain r d' where run: "record_metric ref_database 5 \<lparr>mc_feature_name = ''all_features'', mc_metric_type = ''consistency_rate'',
      mc_metric_value = Fin 1\<rparr> empty_tables = (r, d')" by fastforce
  have i: "integrity (rt_seen empty_tables)" "integrity (rt_committed empty_tables)"
    by (simp_all add: empty_tables_def Let_def integrity_def feature_names_def)
  have "feature_names (rt_seen empty_tables) = {}" by (simp add: empty_tables_def Let_def feature_names_def)
  with record_metric_committed [OF ref_database_contract run i] run show ?thesis by auto
qed

end
