(* ===== verification/Spark.thy ===== *)
theory Spark
  imports Prelude "HOL-Library.Multiset"
begin

text \<open>
  The interface to Spark. The engine is not part of the repository: the code only builds queries, which are the
  data type \<open>plan\<close>, and an engine is a parameter that runs a plan on a table of input rows. The locale
  \<open>spark_engine\<close> states the documented meaning of the operations the code uses: the result is a permutation of
  \<open>sem\<close>, which evaluates a plan on a list of rows with SQL's treatment of null (a comparison with null is null, a
  filter keeps only true, an aggregate skips nulls), windows aligned to the epoch, left joins that pair every row with
  every match, and \<open>fillna\<close> by column type. Times are microseconds since the epoch. Watermarks and the incremental
  evaluation of a stream are not modelled: a plan is evaluated on the finite set of events the engine holds.
\<close>

named_theorems row_simps "lookups in rows"

subsection \<open>Rows\<close>

datatype cell =
    CNull
  | CBool bool
  | CNum pyfloat
  | CStr string
  | CTime int
  | CDate int
  | CStruct "(string \<times> cell) list"

datatype ctype = TBool | TNum | TStr | TTime | TDate | TStruct "(string \<times> ctype) list"

type_synonym row = "(string \<times> cell) list"
type_synonym schema = "(string \<times> ctype) list"

definition get :: "row \<Rightarrow> string \<Rightarrow> cell" where
  "get r c = (case map_of r c of None \<Rightarrow> CNull | Some x \<Rightarrow> x)"

subsection \<open>Queries\<close>

datatype expr =
    Col string
  | Lit cell
  | Field expr string
  | Equal expr expr
  | Greater expr expr
  | IsIn expr "string list"
  | NotNull expr
  | And expr expr
  | Between expr int int
  | When expr expr expr
  | Add expr expr
  | Sub expr expr
  | Div expr expr
  | Abs expr
  | Greatest expr expr
  | Coalesce expr expr
  | CastDouble expr
  | UnixTimestamp expr
  | CurrentTimestamp
  | FromUnixtime expr
  | ToDate expr
  | Substring expr nat nat

datatype agg =
    CountAll
  | CountDistinct string
  | AvgOf string
  | SumOf expr
  | StddevOf string

datatype plan =
    Events
  | Filter expr plan
  | GroupWindow int int "(string \<times> agg) list" plan
  | WithColumn string expr plan
  | Select "string list" plan
  | DropColumn string plan
  | LeftJoin plan plan
  | FillNa pyfloat plan
  | FillNaIn string pyfloat plan

definition minutes :: "int \<Rightarrow> int" where
  "minutes n = n * 60 * 10 ^ 6"

subsection \<open>Column types\<close>

fun type_of :: "schema \<Rightarrow> expr \<Rightarrow> ctype" where
  "type_of S (Col c) = (case map_of S c of None \<Rightarrow> TStr | Some t \<Rightarrow> t)"
| "type_of S (Lit (CNum x)) = TNum"
| "type_of S (Lit (CBool b)) = TBool"
| "type_of S (Lit (CTime t)) = TTime"
| "type_of S (Lit (CDate d)) = TDate"
| "type_of S (Lit x) = TStr"
| "type_of S (Field e f) =
     (case type_of S e of TStruct fs \<Rightarrow> (case map_of fs f of None \<Rightarrow> TStr | Some t \<Rightarrow> t) | _ \<Rightarrow> TStr)"
| "type_of S (Equal a b) = TBool"
| "type_of S (Greater a b) = TBool"
| "type_of S (IsIn a xs) = TBool"
| "type_of S (NotNull a) = TBool"
| "type_of S (And a b) = TBool"
| "type_of S (Between a x y) = TBool"
| "type_of S (When c a b) = type_of S a"
| "type_of S (Add a b) = TNum"
| "type_of S (Sub a b) = TNum"
| "type_of S (Div a b) = TNum"
| "type_of S (Abs a) = TNum"
| "type_of S (Greatest a b) = type_of S a"
| "type_of S (Coalesce a b) = type_of S a"
| "type_of S (CastDouble a) = TNum"
| "type_of S (UnixTimestamp a) = TNum"
| "type_of S CurrentTimestamp = TTime"
| "type_of S (FromUnixtime a) = TTime"
| "type_of S (ToDate a) = TDate"
| "type_of S (Substring a i n) = TStr"

definition window_type :: ctype where
  "window_type = TStruct [(''start'', TTime), (''end'', TTime)]"

fun columns :: "schema \<Rightarrow> plan \<Rightarrow> schema" where
  "columns S Events = S"
| "columns S (Filter e p) = columns S p"
| "columns S (GroupWindow d s as p) =
     (''user_id'', TStr) # (''window'', window_type) # map (\<lambda>(c, a). (c, TNum)) as"
| "columns S (WithColumn c e p) = AList.update c (type_of (columns S p) e) (columns S p)"
| "columns S (Select cs p) = map (\<lambda>c. (c, type_of (columns S p) (Col c))) cs"
| "columns S (DropColumn c p) = filter (\<lambda>(k, t). k \<noteq> c) (columns S p)"
| "columns S (LeftJoin p q) = columns S p @ filter (\<lambda>(k, t). k \<noteq> ''user_id'') (columns S q)"
| "columns S (FillNa v p) = columns S p"
| "columns S (FillNaIn c v p) = columns S p"

subsection \<open>Expressions\<close>

text \<open>The clock of the query, and the offset of the session's time zone in seconds.\<close>

record spark_env =
  se_now :: int
  se_tz :: int

text \<open>Spark's order on doubles: NaN is equal to itself and above everything.\<close>

definition sp_less :: "pyfloat \<Rightarrow> pyfloat \<Rightarrow> bool" where
  "sp_less x y \<longleftrightarrow> x < y \<or> x \<noteq> NaN \<and> y = NaN"

fun lift_num :: "(pyfloat \<Rightarrow> pyfloat \<Rightarrow> cell) \<Rightarrow> cell \<Rightarrow> cell \<Rightarrow> cell" where
  "lift_num f (CNum x) (CNum y) = f x y"
| "lift_num f x y = CNull"

fun sp_greater :: "cell \<Rightarrow> cell \<Rightarrow> cell" where
  "sp_greater (CNum x) (CNum y) = CBool (sp_less y x)"
| "sp_greater (CTime x) (CTime y) = CBool (y < x)"
| "sp_greater x y = CNull"

fun sp_equal :: "cell \<Rightarrow> cell \<Rightarrow> cell" where
  "sp_equal CNull y = CNull"
| "sp_equal x CNull = CNull"
| "sp_equal x y = CBool (x = y)"

fun sp_and :: "cell \<Rightarrow> cell \<Rightarrow> cell" where
  "sp_and (CBool False) y = CBool False"
| "sp_and x (CBool False) = CBool False"
| "sp_and (CBool True) (CBool True) = CBool True"
| "sp_and x y = CNull"

text \<open>\<open>greatest\<close> skips nulls.\<close>

fun sp_greatest :: "cell \<Rightarrow> cell \<Rightarrow> cell" where
  "sp_greatest (CNum x) (CNum y) = CNum (if sp_less x y then y else x)"
| "sp_greatest CNull y = y"
| "sp_greatest x y = x"

text \<open>Division by zero is null.\<close>

definition sp_div :: "pyfloat \<Rightarrow> pyfloat \<Rightarrow> cell" where
  "sp_div x y = (if y = Fin 0 then CNull else CNum (fdiv x y))"

fun eval :: "spark_env \<Rightarrow> row \<Rightarrow> expr \<Rightarrow> cell" where
  "eval E r (Col c) = get r c"
| "eval E r (Lit x) = x"
| "eval E r (Field e f) = (case eval E r e of CStruct fs \<Rightarrow> get fs f | _ \<Rightarrow> CNull)"
| "eval E r (Equal a b) = sp_equal (eval E r a) (eval E r b)"
| "eval E r (Greater a b) = sp_greater (eval E r a) (eval E r b)"
| "eval E r (IsIn a xs) = (case eval E r a of CStr s \<Rightarrow> CBool (s \<in> set xs) | _ \<Rightarrow> CNull)"
| "eval E r (NotNull a) = CBool (eval E r a \<noteq> CNull)"
| "eval E r (And a b) = sp_and (eval E r a) (eval E r b)"
| "eval E r (Between a x y) = (case eval E r a of CTime t \<Rightarrow> CBool (x \<le> t \<and> t \<le> y) | _ \<Rightarrow> CNull)"
| "eval E r (When c a b) = (if eval E r c = CBool True then eval E r a else eval E r b)"
| "eval E r (Add a b) = lift_num (\<lambda>x y. CNum (x + y)) (eval E r a) (eval E r b)"
| "eval E r (Sub a b) = lift_num (\<lambda>x y. CNum (x - y)) (eval E r a) (eval E r b)"
| "eval E r (Div a b) = lift_num sp_div (eval E r a) (eval E r b)"
| "eval E r (Abs a) = (case eval E r a of CNum x \<Rightarrow> CNum \<bar>x\<bar> | _ \<Rightarrow> CNull)"
| "eval E r (Greatest a b) = sp_greatest (eval E r a) (eval E r b)"
| "eval E r (Coalesce a b) = (if eval E r a = CNull then eval E r b else eval E r a)"
| "eval E r (CastDouble a) = (case eval E r a of CNum x \<Rightarrow> CNum x | _ \<Rightarrow> CNull)"
| "eval E r (UnixTimestamp a) = (case eval E r a of CTime t \<Rightarrow> CNum (Fin (of_int (t div 10 ^ 6))) | _ \<Rightarrow> CNull)"
| "eval E r CurrentTimestamp = CTime (se_now E)"
| "eval E r (FromUnixtime a) = (case eval E r a of
     CNum (Fin x) \<Rightarrow> CTime ((if 0 \<le> x then \<lfloor>x\<rfloor> else \<lceil>x\<rceil>) * 10 ^ 6) | _ \<Rightarrow> CNull)"
| "eval E r (ToDate a) = (case eval E r a of CTime t \<Rightarrow> CDate ((t div 10 ^ 6 + se_tz E) div 86400) | _ \<Rightarrow> CNull)"
| "eval E r (Substring a i n) = (case eval E r a of CStr s \<Rightarrow> CStr (take n (drop (i - 1) s)) | _ \<Rightarrow> CNull)"

subsection \<open>Aggregates\<close>

definition nums_of :: "cell list \<Rightarrow> pyfloat list" where
  "nums_of xs = concat (map (\<lambda>x. case x of CNum y \<Rightarrow> [y] | _ \<Rightarrow> []) xs)"

fun fsqrt :: "pyfloat \<Rightarrow> pyfloat" where
  "fsqrt (Fin x) = (if x < 0 then NaN else Fin (sqrt x))"
| "fsqrt PInf = PInf"
| "fsqrt x = NaN"

definition avg_of :: "pyfloat list \<Rightarrow> cell" where
  "avg_of xs = (if xs = [] then CNull else CNum (fdiv (py_sum xs) (fnat (length xs))))"

text \<open>The sample standard deviation; null for fewer than two values.\<close>

definition stddev_of :: "pyfloat list \<Rightarrow> cell" where
  "stddev_of xs = (if length xs < 2 then CNull
     else let m = fdiv (py_sum xs) (fnat (length xs))
       in CNum (fsqrt (fdiv (py_sum (map (\<lambda>x. (x - m) * (x - m)) xs)) (fnat (length xs - 1)))))"

fun aggregate :: "spark_env \<Rightarrow> row list \<Rightarrow> agg \<Rightarrow> cell" where
  "aggregate E rs CountAll = CNum (fnat (length rs))"
| "aggregate E rs (CountDistinct c) = CNum (fnat (length (remdups (filter (\<lambda>x. x \<noteq> CNull) (map (\<lambda>r. get r c) rs)))))"
| "aggregate E rs (AvgOf c) = avg_of (nums_of (map (\<lambda>r. get r c) rs))"
| "aggregate E rs (SumOf e) =
     (let xs = nums_of (map (\<lambda>r. eval E r e) rs) in if xs = [] then CNull else CNum (py_sum xs))"
| "aggregate E rs (StddevOf c) = stddev_of (nums_of (map (\<lambda>r. get r c) rs))"

subsection \<open>Windows\<close>

text \<open>The starts of the windows of length \<open>d\<close>, one every \<open>s\<close>, that contain the time \<open>t\<close>.\<close>

definition window_starts :: "int \<Rightarrow> int \<Rightarrow> int \<Rightarrow> int list" where
  "window_starts d s t =
     filter (\<lambda>a. a \<le> t \<and> t < a + d) (map (\<lambda>i. (t div s - int i) * s) [0..<nat ((d + s - 1) div s)])"

definition row_windows :: "int \<Rightarrow> int \<Rightarrow> row \<Rightarrow> int list" where
  "row_windows d s r = (case get r ''timestamp'' of CTime t \<Rightarrow> window_starts d s t | _ \<Rightarrow> [])"

definition window_cell :: "int \<Rightarrow> int \<Rightarrow> cell" where
  "window_cell d a = CStruct [(''start'', CTime a), (''end'', CTime (a + d))]"

definition window_keys :: "int \<Rightarrow> int \<Rightarrow> row list \<Rightarrow> (cell \<times> int) list" where
  "window_keys d s rs = remdups (concat (map (\<lambda>r. map (\<lambda>a. (get r ''user_id'', a)) (row_windows d s r)) rs))"

definition in_window :: "int \<Rightarrow> int \<Rightarrow> cell \<Rightarrow> int \<Rightarrow> row list \<Rightarrow> row list" where
  "in_window d s u a rs = filter (\<lambda>r. get r ''user_id'' = u \<and> a \<in> set (row_windows d s r)) rs"

definition group_window :: "spark_env \<Rightarrow> int \<Rightarrow> int \<Rightarrow> (string \<times> agg) list \<Rightarrow> row list \<Rightarrow> row list" where
  "group_window E d s as rs =
     map (\<lambda>(u, a). (''user_id'', u) # (''window'', window_cell d a)
       # map (\<lambda>(c, g). (c, aggregate E (in_window d s u a rs) g)) as) (window_keys d s rs)"

subsection \<open>The meaning of a query\<close>

definition join_rows :: "string list \<Rightarrow> row list \<Rightarrow> row \<Rightarrow> row list" where
  "join_rows right_columns right l =
     (let ms = filter (\<lambda>r. sp_equal (get l ''user_id'') (get r ''user_id'') = CBool True) right
      in if ms = [] then [l @ map (\<lambda>c. (c, CNull)) right_columns]
         else map (\<lambda>r. l @ map (\<lambda>c. (c, get r c)) right_columns) ms)"

definition fill_row :: "(string \<Rightarrow> bool) \<Rightarrow> pyfloat \<Rightarrow> row \<Rightarrow> row" where
  "fill_row which v r = map (\<lambda>(c, x). (c, if x = CNull \<and> which c then CNum v else x)) r"

definition joined_columns :: "schema \<Rightarrow> plan \<Rightarrow> string list" where
  "joined_columns S q = filter (\<lambda>c. c \<noteq> ''user_id'') (map fst (columns S q))"

fun sem :: "spark_env \<Rightarrow> schema \<Rightarrow> plan \<Rightarrow> row list \<Rightarrow> row list" where
  "sem E S Events df = df"
| "sem E S (Filter e p) df = filter (\<lambda>r. eval E r e = CBool True) (sem E S p df)"
| "sem E S (GroupWindow d s as p) df = group_window E d s as (sem E S p df)"
| "sem E S (WithColumn c e p) df = map (\<lambda>r. AList.update c (eval E r e) r) (sem E S p df)"
| "sem E S (Select cs p) df = map (\<lambda>r. map (\<lambda>c. (c, get r c)) cs) (sem E S p df)"
| "sem E S (DropColumn c p) df = map (filter (\<lambda>(k, x). k \<noteq> c)) (sem E S p df)"
| "sem E S (LeftJoin p q) df = concat (map (join_rows (joined_columns S q) (sem E S q df)) (sem E S p df))"
| "sem E S (FillNa v p) df = map (fill_row (\<lambda>c. map_of (columns S p) c = Some TNum) v) (sem E S p df)"
| "sem E S (FillNaIn c v p) df =
     map (fill_row (\<lambda>k. k = c \<and> map_of (columns S p) c = Some TNum) v) (sem E S p df)"

subsection \<open>Rows and windows\<close>

lemma get_Nil [simp, row_simps]: "get [] c = CNull"
  by (simp add: get_def)

lemma get_Cons [simp, row_simps]: "get ((k, x) # r) c = (if k = c then x else get r c)"
  by (simp add: get_def)

lemma get_update [simp, row_simps]: "get (AList.update k x r) c = (if k = c then x else get r c)"
  by (simp add: get_def)

lemma get_select [row_simps]: "get (map (\<lambda>c. (c, f c)) cs) c = (if c \<in> set cs then f c else CNull)"
  by (induction cs) auto

lemma get_drop [row_simps]: "get (filter (\<lambda>(k, x). k \<noteq> c) r) d = (if c = d then CNull else get r d)"
  by (induction r) auto

lemma get_append [row_simps]: "get (l @ r) c = (if c \<in> set (map fst l) then get l c else get r c)"
  by (induction l) (auto simp del: set_map)

lemma get_fill [row_simps]:
  "c \<in> set (map fst r) \<Longrightarrow> get (fill_row which v r) c = (if get r c = CNull \<and> which c then CNum v else get r c)"
  by (induction r) (auto simp: fill_row_def simp del: set_map split: if_splits)

lemma keys_fill [simp]: "map fst (fill_row which v r) = map fst r"
  by (induction r) (auto simp: fill_row_def)

lemma get_aggregates:
  "(c, g) \<in> set as \<Longrightarrow> distinct (map fst as) \<Longrightarrow> get (map (\<lambda>(c, g). (c, f g)) as) c = f g"
proof (induction as)
  case Nil
  then show ?case by simp
next
  case (Cons a as)
  then show ?case by (cases a) (auto simp: image_iff)
qed

lemma keys_filter: "map fst (filter (\<lambda>(k, x). k \<noteq> c) r) = filter (\<lambda>k. k \<noteq> c) (map fst r)"
  by (induction r) auto

text \<open>Every row of a result has the columns the query declares.\<close>

lemma sem_keys:
  assumes "\<forall>r \<in> set df. map fst r = map fst S"
  shows "\<forall>r \<in> set (sem E S p df). map fst r = map fst (columns S p)"
proof (induction p)
  case Events
  then show ?case using assms by simp
next
  case (GroupWindow d s as p)
  have "map fst (map (\<lambda>(c, g). (c, h g)) as) = map fst as" for h :: "agg \<Rightarrow> 'x"
    by (induction as) auto
  moreover have "map fst (map (\<lambda>(c, a). (c, TNum)) as) = map fst as" by (induction as) auto
  ultimately show ?case by (auto simp: group_window_def comp_def split: prod.splits)
next
  case (WithColumn c e p)
  then show ?case by (auto simp: keys_AList_update)
next
  case (Select cs p)
  then show ?case by (auto simp: comp_def)
next
  case (DropColumn c p)
  then show ?case by (auto simp: keys_filter)
next
  case (LeftJoin p q)
  then show ?case by (auto simp: join_rows_def joined_columns_def comp_def keys_filter Let_def split: if_splits)
next
  case (FillNa v p)
  then show ?case by simp
qed auto

lemma window_starts_member:
  assumes "0 < s"
  shows "a \<in> set (window_starts d s t) \<longleftrightarrow> s dvd a \<and> a \<le> t \<and> t < a + d"
proof
  assume h: "s dvd a \<and> a \<le> t \<and> t < a + d"
  then obtain k where k: "a = s * k" by blast
  have "s * k div s \<le> t div s" using h k assms by (intro zdiv_mono1) auto
  then have le: "k \<le> t div s" using assms by simp
  have "s * (t div s) \<le> t" using assms by (metis mult.commute pos_mod_sign div_mult_mod_eq le_add_same_cancel1)
  then have "s * (t div s - k + 1) \<le> d + s - 1" using h k by (simp add: algebra_simps)
  then have "s * (t div s - k + 1) div s \<le> (d + s - 1) div s" using assms by (intro zdiv_mono1) auto
  then have "t div s - k < (d + s - 1) div s" using assms by simp
  with le show "a \<in> set (window_starts d s t)"
    using h k by (auto simp: window_starts_def image_iff intro!: bexI [of _ "nat (t div s - k)"])
qed (auto simp: window_starts_def)

lemma aligned_bounds:
  assumes "0 < (s :: int)"
  shows "t div s * s \<le> t" and "t < t div s * s + s"
proof -
  have "t = t div s * s + t mod s" by simp
  moreover have "0 \<le> t mod s" "t mod s < s" using assms by simp_all
  ultimately show "t div s * s \<le> t" "t < t div s * s + s" by linarith+
qed

lemma length_window_starts:
  assumes "0 < s" and "0 < k"
  shows "length (window_starts (int k * s) s t) = k"
proof -
  let ?q = "t div s"
  have "(int k * s + s - 1) div s = int k + (s - 1) div s"
    using assms by (metis add_diff_eq div_mult_self4 less_irrefl mult.commute)
  then have n: "nat ((int k * s + s - 1) div s) = k" using assms by simp
  have "(?q - int i) * s \<le> t \<and> t < (?q - int i) * s + int k * s" if "i < k" for i
  proof -
    have "?q * s \<le> t" "t < (?q + 1) * s"
      using aligned_bounds [OF assms(1), of t] by (simp_all add: distrib_right)
    moreover have "(?q - int i) * s \<le> ?q * s" using assms by (intro mult_right_mono) auto
    moreover have "(?q + 1) * s \<le> (?q - int i + int k) * s" using assms that by (intro mult_right_mono) auto
    moreover have "(?q - int i + int k) * s = (?q - int i) * s + int k * s" by (rule distrib_right)
    ultimately show ?thesis by linarith
  qed
  then show ?thesis by (simp add: window_starts_def n filter_True)
qed

lemma window_starts_tumbling: "0 < s \<Longrightarrow> window_starts s s t = [t div s * s]"
proof -
  assume s: "0 < s"
  then have "length (window_starts s s t) = 1" using length_window_starts [of s 1 t] by simp
  moreover have "t div s * s \<in> set (window_starts s s t)"
    using s aligned_bounds [OF s, of t] by (simp add: window_starts_member)
  ultimately show ?thesis by (cases "window_starts s s t") auto
qed

lemma distinct_window_starts: "0 < s \<Longrightarrow> distinct (window_starts d s t)"
  by (auto simp: window_starts_def distinct_map inj_on_def)

lemma window_keys_member:
  "(u, a) \<in> set (window_keys d s rs) \<longleftrightarrow> in_window d s u a rs \<noteq> []"
  by (auto simp: window_keys_def in_window_def filter_empty_conv)

text \<open>A row of a grouping is one user's window with at least one event, and its aggregates.\<close>

lemma group_window_member:
  assumes "r \<in> set (group_window E d s as rs)"
  shows "\<exists>u a. in_window d s u a rs \<noteq> [] \<and> get r ''user_id'' = u \<and> get r ''window'' = window_cell d a
    \<and> r = (''user_id'', u) # (''window'', window_cell d a) # map (\<lambda>(c, g). (c, aggregate E (in_window d s u a rs) g)) as"
  using assms by (auto simp: group_window_def window_keys_member split: prod.splits)

lemma in_windowD:
  "r \<in> set (in_window d s u a rs) \<Longrightarrow> r \<in> set rs \<and> get r ''user_id'' = u \<and> a \<in> set (row_windows d s r)"
  by (simp add: in_window_def)

definition same_user :: "row \<Rightarrow> row \<Rightarrow> bool" where
  "same_user l r \<longleftrightarrow> sp_equal (get l ''user_id'') (get r ''user_id'') = CBool True"

lemma same_userD: "same_user l r \<Longrightarrow> get r ''user_id'' = get l ''user_id''"
  unfolding same_user_def by (cases "get l ''user_id''"; cases "get r ''user_id''") auto

lemma join_rows_member:
  assumes "r \<in> set (join_rows cs right l)"
  shows "(\<exists>m \<in> set right. same_user l m \<and> r = l @ map (\<lambda>c. (c, get m c)) cs)
    \<or> (list_all (\<lambda>m. \<not> same_user l m) right \<and> r = l @ map (\<lambda>c. (c, CNull)) cs)"
  using assms by (auto simp: join_rows_def same_user_def Let_def list_all_iff filter_empty_conv split: if_splits)

lemma length_join_rows: "length (join_rows cs right l) = max 1 (length (filter (same_user l) right))"
  by (auto simp: join_rows_def Let_def same_user_def [abs_def] max_def) (use not_less_eq_eq in fastforce)

locale spark_engine =
  fixes run_plan :: "spark_env \<Rightarrow> schema \<Rightarrow> plan \<Rightarrow> row list \<Rightarrow> row list"
  assumes run_sem: "mset (run_plan E S p df) = mset (sem E S p df)"
begin

lemma run_set: "set (run_plan E S p df) = set (sem E S p df)"
  by (rule mset_eq_setD [OF run_sem])

lemma run_length: "length (run_plan E S p df) = length (sem E S p df)"
  by (rule mset_eq_length [OF run_sem])

end

lemma sem_engine: "spark_engine sem"
  by unfold_locales simp

interpretation ref_engine: spark_engine sem
  by (rule sem_engine)

end
