(* ===== verification/Features.thy ===== *)
theory Features
  imports Spark Ingestion
begin

text \<open>
  The feature computation, shared by the streaming job and the backfill:
  \<open>streaming/feature_definitions.py\<close>, \<open>streaming/anomaly_scorer.py\<close> and the queries of
  \<open>streaming/feature_processor.py\<close> and \<open>offline_store/backfill.py\<close>. Each function that builds a
  DataFrame is a function from plans to plans, written with the same operations in the same order; its properties hold for
  every engine that satisfies \<open>spark_engine\<close>. A cast of an aggregate to double is the identity on the numbers of
  the model. What \<open>from_json\<close> makes of a message is \<open>decode_event\<close>.
\<close>

subsection \<open>The features\<close>

definition event_is :: "string \<Rightarrow> expr" where
  "event_is t = Equal (Col ''event_type'') (Lit (CStr t))"

definition compute_txn_count_5m :: "plan \<Rightarrow> plan" where
  "compute_txn_count_5m df =
     Select [''user_id'', ''window'', ''txn_count_5m'']
       (GroupWindow (minutes 5) (minutes 5) [(''txn_count_5m'', CountAll)]
         (Filter (event_is ''purchase'') df))"

definition compute_avg_spend_1h :: "plan \<Rightarrow> plan" where
  "compute_avg_spend_1h df =
     Select [''user_id'', ''window'', ''avg_spend_1h'']
       (GroupWindow (minutes 60) (minutes 5) [(''avg_spend_1h'', AvgOf ''transaction_amount'')]
         (Filter (event_is ''purchase'') df))"

definition compute_session_activity_rate :: "plan \<Rightarrow> plan" where
  "compute_session_activity_rate df =
     Select [''user_id'', ''window'', ''session_activity_rate'']
       (WithColumn ''session_activity_rate''
         (When (Greater (Col ''session_count'') (Lit (CNum (Fin 0))))
           (Div (Col ''event_count'') (Col ''session_count''))
           (Lit (CNum (Fin 0))))
         (GroupWindow (minutes 5) (minutes 5)
           [(''event_count'', CountAll), (''session_count'', CountDistinct ''session_id'')] df))"

definition one_if :: "string \<Rightarrow> expr" where
  "one_if t = When (event_is t) (Lit (CNum (Fin 1))) (Lit (CNum (Fin 0)))"

definition compute_cart_abandon_ratio :: "plan \<Rightarrow> plan" where
  "compute_cart_abandon_ratio df =
     Select [''user_id'', ''window'', ''cart_abandon_ratio'']
       (WithColumn ''cart_abandon_ratio''
         (When (Greater (Col ''add_to_cart_count'') (Lit (CNum (Fin 0))))
           (Greatest
             (Div (Sub (Col ''add_to_cart_count'') (Col ''purchase_count'')) (Col ''add_to_cart_count''))
             (Lit (CNum (Fin 0))))
           (Lit (CNum (Fin 0))))
         (GroupWindow (minutes 30) (minutes 30)
           [(''add_to_cart_count'', SumOf (one_if ''add_to_cart'')), (''purchase_count'', SumOf (one_if ''purchase''))]
           (Filter (IsIn (Col ''event_type'') [''add_to_cart'', ''purchase'']) df)))"

definition compute_product_interaction_freq :: "plan \<Rightarrow> plan" where
  "compute_product_interaction_freq df =
     Select [''user_id'', ''window'', ''product_interaction_freq'']
       (GroupWindow (minutes 60) (minutes 60) [(''product_interaction_freq'', CountAll)]
         (Filter (event_is ''page_view'') df))"

definition FEATURE_COLUMNS :: "string list" where
  "FEATURE_COLUMNS = [''user_id'', ''window_start'', ''window_end'', ''computed_at'', ''txn_count_5m'',
     ''avg_spend_1h'', ''session_activity_rate'', ''cart_abandon_ratio'', ''product_interaction_freq'']"

definition join_features :: "plan \<Rightarrow> plan" where
  "join_features df =
     LeftJoin
      (LeftJoin
       (LeftJoin
        (LeftJoin (compute_txn_count_5m df)
          (DropColumn ''window'' (compute_avg_spend_1h df)))
        (DropColumn ''window'' (compute_session_activity_rate df)))
       (DropColumn ''window'' (compute_cart_abandon_ratio df)))
      (DropColumn ''window'' (compute_product_interaction_freq df))"

definition compute_all_features :: "plan \<Rightarrow> plan" where
  "compute_all_features df =
     Select FEATURE_COLUMNS
      (FillNa (Fin 0)
       (WithColumn ''computed_at'' (CastDouble (UnixTimestamp CurrentTimestamp))
        (WithColumn ''window_end'' (Field (Col ''window'') ''end'')
         (WithColumn ''window_start'' (Field (Col ''window'') ''start'')
          (join_features df)))))"

definition compute_anomaly_score :: "plan \<Rightarrow> plan" where
  "compute_anomaly_score df =
     (let purchases = Filter (event_is ''purchase'') df;
          baseline = GroupWindow (minutes (24 * 60)) (minutes 5)
            [(''mean_24h'', AvgOf ''transaction_amount''), (''std_24h'', StddevOf ''transaction_amount'')] purchases;
          current = GroupWindow (minutes 5) (minutes 5) [(''avg_5m'', AvgOf ''transaction_amount'')] purchases
      in Select [''user_id'', ''window'', ''anomaly_score'']
          (WithColumn ''anomaly_score''
            (When (NotNull (Col ''mean_24h''))
              (CastDouble (Abs (Div (Sub (Col ''avg_5m'') (Col ''mean_24h''))
                (Add (Coalesce (Col ''std_24h'') (Lit (CNum (Fin 1)))) (Lit (CNum (Fin (1 / 10 ^ 6))))))))
              (Lit (CNum (Fin 0))))
            (LeftJoin current (DropColumn ''window'' baseline))))"

subsection \<open>The two jobs\<close>

definition EVENT_SCHEMA :: schema where
  "EVENT_SCHEMA =
     [(''event_id'', TStr), (''user_id'', TStr), (''session_id'', TStr), (''event_type'', TStr), (''timestamp'', TTime),
      (''transaction_amount'', TNum), (''product_id'', TStr), (''category'', TStr),
      (''location'', TStruct [(''country'', TStr), (''city'', TStr)]), (''device_type'', TStr),
      (''schema_version'', TStr)]"

definition BACKFILL_SCHEMA :: schema where
  "BACKFILL_SCHEMA =
     [(''event_id'', TStr), (''user_id'', TStr), (''session_id'', TStr), (''event_type'', TStr), (''timestamp'', TTime),
      (''transaction_amount'', TNum), (''product_id'', TStr), (''category'', TStr), (''device_type'', TStr),
      (''schema_version'', TStr)]"

text \<open>\<open>from_json\<close>: each declared field, null when it is missing or not of its type.\<close>

fun decode_cell :: "ctype \<Rightarrow> json \<Rightarrow> cell" where
  "decode_cell TStr (JStr s) = CStr s"
| "decode_cell TNum (JNum x) = CNum x"
| "decode_cell TTime (JTime (Fin t)) = CTime \<lfloor>t * 10 ^ 6\<rfloor>"
| "decode_cell TBool (JBool b) = CBool b"
| "decode_cell (TStruct fs) (JObj kvs) =
     CStruct (map (\<lambda>(f, t). (f, case map_of kvs f of Some (JStr s) \<Rightarrow> CStr s | _ \<Rightarrow> CNull)) fs)"
| "decode_cell t j = CNull"

definition decode_event :: "schema \<Rightarrow> json \<Rightarrow> row" where
  "decode_event S j = map (\<lambda>(f, t). (f, case obj_field f j of None \<Rightarrow> CNull | Some x \<Rightarrow> decode_cell t x)) S"

definition full_features :: "plan \<Rightarrow> plan" where
  "full_features events_df =
     FillNaIn ''anomaly_score'' (Fin 0)
       (LeftJoin (compute_all_features events_df)
         (Select [''user_id'', ''anomaly_score''] (compute_anomaly_score events_df)))"

definition stream_events :: plan where
  "stream_events = Filter (NotNull (Col ''user_id'')) Events"

definition stream_plan :: plan where
  "stream_plan = full_features stream_events"

definition backfill_events :: "int \<Rightarrow> int \<Rightarrow> plan" where
  "backfill_events start_date end_date =
     Filter (And (NotNull (Col ''user_id'')) (Between (Col ''timestamp'') start_date end_date)) Events"

definition backfill_plan :: "int \<Rightarrow> int \<Rightarrow> plan" where
  "backfill_plan start_date end_date =
     WithColumn ''computed_at'' (CastDouble (UnixTimestamp (Col ''window_start'')))
       (full_features (backfill_events start_date end_date))"

subsection \<open>Column lists\<close>

definition feature_names_all :: "string list" where
  "feature_names_all = [''txn_count_5m'', ''avg_spend_1h'', ''session_activity_rate'',
     ''cart_abandon_ratio'', ''product_interaction_freq'', ''anomaly_score'']"

lemma minutes_pos [simp]: "0 < n \<Longrightarrow> 0 < minutes n"
  by (simp add: minutes_def)

lemma columns_features [simp]:
  "columns S (compute_txn_count_5m p) = [(''user_id'', TStr), (''window'', window_type), (''txn_count_5m'', TNum)]"
  "columns S (compute_avg_spend_1h p) = [(''user_id'', TStr), (''window'', window_type), (''avg_spend_1h'', TNum)]"
  "columns S (compute_session_activity_rate p) = [(''user_id'', TStr), (''window'', window_type), (''session_activity_rate'', TNum)]"
  "columns S (compute_cart_abandon_ratio p) = [(''user_id'', TStr), (''window'', window_type), (''cart_abandon_ratio'', TNum)]"
  "columns S (compute_product_interaction_freq p) = [(''user_id'', TStr), (''window'', window_type), (''product_interaction_freq'', TNum)]"
  "columns S (compute_anomaly_score p) = [(''user_id'', TStr), (''window'', window_type), (''anomaly_score'', TNum)]"
  by (simp_all add: compute_txn_count_5m_def compute_avg_spend_1h_def compute_session_activity_rate_def
      compute_cart_abandon_ratio_def compute_product_interaction_freq_def compute_anomaly_score_def Let_def)

lemma columns_join [simp]:
  "columns S (join_features p) = [(''user_id'', TStr), (''window'', window_type), (''txn_count_5m'', TNum),
     (''avg_spend_1h'', TNum), (''session_activity_rate'', TNum), (''cart_abandon_ratio'', TNum),
     (''product_interaction_freq'', TNum)]"
  by (simp add: join_features_def)

lemma columns_all [simp]:
  "columns S (compute_all_features p) = [(''user_id'', TStr), (''window_start'', TTime), (''window_end'', TTime),
     (''computed_at'', TNum), (''txn_count_5m'', TNum), (''avg_spend_1h'', TNum), (''session_activity_rate'', TNum),
     (''cart_abandon_ratio'', TNum), (''product_interaction_freq'', TNum)]"
  by (simp add: compute_all_features_def FEATURE_COLUMNS_def window_type_def)

subsection \<open>Events in a window\<close>

definition has_type :: "string \<Rightarrow> row \<Rightarrow> bool" where
  "has_type t r \<longleftrightarrow> get r ''event_type'' = CStr t"

definition timed :: "row \<Rightarrow> bool" where
  "timed r \<longleftrightarrow> (case get r ''timestamp'' of CTime t \<Rightarrow> True | _ \<Rightarrow> False)"

definition in_span :: "int \<Rightarrow> int \<Rightarrow> row \<Rightarrow> bool" where
  "in_span lo hi r \<longleftrightarrow> (case get r ''timestamp'' of CTime t \<Rightarrow> lo \<le> t \<and> t < hi | _ \<Rightarrow> False)"

text \<open>The events of a user in the half-open span from \<open>lo\<close> to \<open>hi\<close>.\<close>

definition user_events :: "cell \<Rightarrow> int \<Rightarrow> int \<Rightarrow> row list \<Rightarrow> row list" where
  "user_events u lo hi rs = filter (\<lambda>r. get r ''user_id'' = u \<and> in_span lo hi r) rs"

lemma eval_event_is [simp]: "eval E r (event_is t) = CBool True \<longleftrightarrow> has_type t r"
  by (cases "get r ''event_type''") (auto simp: event_is_def has_type_def)

lemma row_windows_member:
  "0 < s \<Longrightarrow> a \<in> set (row_windows d s r) \<longleftrightarrow> s dvd a \<and> in_span a (a + d) r"
  by (auto simp: row_windows_def in_span_def window_starts_member split: cell.splits)

lemma in_window_events:
  assumes "0 < s" and "in_window d s u a rs \<noteq> []"
  shows "s dvd a" and "in_window d s u a rs = user_events u a (a + d) rs"
proof -
  obtain r where "r \<in> set (in_window d s u a rs)" using assms(2) by (cases "in_window d s u a rs") auto
  then show dvd: "s dvd a" using assms(1) by (auto simp: in_window_def row_windows_member)
  show "in_window d s u a rs = user_events u a (a + d) rs"
    unfolding in_window_def user_events_def
    by (rule filter_cong [OF refl]) (use assms(1) dvd in \<open>simp add: row_windows_member\<close>)
qed

text \<open>A row of a windowed feature: the user, an aligned window with events in it, and the events the aggregates see.\<close>

lemma group_window_events:
  assumes "0 < s" and "r \<in> set (group_window E d s as rs)"
  shows "\<exists>u a. get r ''user_id'' = u \<and> get r ''window'' = window_cell d a \<and> s dvd a
    \<and> user_events u a (a + d) rs \<noteq> []
    \<and> r = (''user_id'', u) # (''window'', window_cell d a)
        # map (\<lambda>(c, g). (c, aggregate E (user_events u a (a + d) rs) g)) as"
  using group_window_member [OF assms(2)] in_window_events [OF assms(1)] by metis

subsection \<open>Counting features\<close>

lemma count_double:
  assumes "finite K" and "\<forall>r \<in> set rs. keys r \<subseteq> K"
  shows "(\<Sum>k\<in>K. length (filter (\<lambda>r. k \<in> keys r) rs)) = sum_list (map (\<lambda>r. card (keys r)) rs)"
  using assms(2)
proof (induction rs)
  case Nil
  then show ?case by simp
next
  case (Cons r rs)
  have "(\<Sum>k\<in>K. length (filter (\<lambda>r. k \<in> keys r) (r # rs)))
      = (\<Sum>k\<in>K. (if k \<in> keys r then 1 else 0) + length (filter (\<lambda>r. k \<in> keys r) rs))"
    by (rule sum.cong) auto
  also have "\<dots> = (\<Sum>k\<in>K. if k \<in> keys r then 1 else 0) + (\<Sum>k\<in>K. length (filter (\<lambda>r. k \<in> keys r) rs))"
    by (rule sum.distrib)
  also have "(\<Sum>k\<in>K. if k \<in> keys r then 1 else 0) = card (keys r)"
    using assms(1) Cons.prems by (simp add: sum.If_cases Int_absorb1)
  finally show ?case using Cons by simp
qed

lemma sum_window_counts:
  assumes "0 < s"
  shows "sum_list (map (\<lambda>(u, a). length (in_window s s u a rs)) (window_keys s s rs)) = length (filter timed rs)"
proof -
  let ?keys = "\<lambda>r. (\<lambda>a. (get r ''user_id'', a)) ` set (row_windows s s r)"
  let ?K = "set (window_keys s s rs)"
  have sub: "\<forall>r \<in> set rs. ?keys r \<subseteq> ?K" by (auto simp: window_keys_def)
  have "sum_list (map (\<lambda>(u, a). length (in_window s s u a rs)) (window_keys s s rs))
      = (\<Sum>k\<in>?K. length (filter (\<lambda>r. k \<in> ?keys r) rs))"
    by (subst sum_list_distinct_conv_sum_set)
      (auto simp: window_keys_def in_window_def intro!: sum.cong arg_cong [where f = length] filter_cong)
  also have "\<dots> = sum_list (map (\<lambda>r. card (?keys r)) rs)" by (rule count_double [OF _ sub]) simp
  also have "\<dots> = length (filter timed rs)"
    using assms by (induction rs) (auto simp: timed_def row_windows_def window_starts_tumbling split: cell.splits)
  finally show ?thesis .
qed

definition num_of :: "cell \<Rightarrow> pyfloat" where
  "num_of x = (case x of CNum y \<Rightarrow> y | _ \<Rightarrow> Fin 0)"

text \<open>The rows of a counting feature, and the sum of their counts.\<close>

definition count_feature :: "int \<Rightarrow> string \<Rightarrow> string \<Rightarrow> plan \<Rightarrow> plan" where
  "count_feature s name t df = Select [''user_id'', ''window'', name] (GroupWindow s s [(name, CountAll)] (Filter (event_is t) df))"

lemma counting_features:
  "compute_txn_count_5m df = count_feature (minutes 5) ''txn_count_5m'' ''purchase'' df"
  "compute_product_interaction_freq df = count_feature (minutes 60) ''product_interaction_freq'' ''page_view'' df"
  by (simp_all add: count_feature_def compute_txn_count_5m_def compute_product_interaction_freq_def)

lemma count_feature_row:
  assumes "0 < s" and "r \<in> set (sem E S (count_feature s name t p) df)" and "name \<noteq> ''user_id''" and "name \<noteq> ''window''"
  shows "\<exists>u a. get r ''user_id'' = u \<and> get r ''window'' = window_cell s a \<and> s dvd a
    \<and> get r name = CNum (fnat (length (user_events u a (a + s) (filter (has_type t) (sem E S p df)))))
    \<and> user_events u a (a + s) (filter (has_type t) (sem E S p df)) \<noteq> []"
proof -
  obtain g where g: "g \<in> set (group_window E s s [(name, CountAll)] (filter (has_type t) (sem E S p df)))"
    "r = map (\<lambda>c. (c, get g c)) [''user_id'', ''window'', name]"
    using assms(2) by (auto simp: count_feature_def)
  from group_window_events [OF assms(1) g(1)] obtain u a where "get g ''user_id'' = u" "get g ''window'' = window_cell s a"
    "s dvd a" "user_events u a (a + s) (filter (has_type t) (sem E S p df)) \<noteq> []"
    "g = (''user_id'', u) # (''window'', window_cell s a)
        # map (\<lambda>(c, h). (c, aggregate E (user_events u a (a + s) (filter (has_type t) (sem E S p df))) h)) [(name, CountAll)]"
    by blast
  then show ?thesis using assms(3,4) g(2) by auto
qed

lemma count_feature_sum:
  assumes "0 < s" and "name \<noteq> ''user_id''" and "name \<noteq> ''window''"
  shows "map (\<lambda>r. get r name) (sem E S (count_feature s name t p) df)
      = map (\<lambda>(u, a). CNum (fnat (length (in_window s s u a (filter (has_type t) (sem E S p df))))))
          (window_keys s s (filter (has_type t) (sem E S p df)))"
  using assms by (auto simp: count_feature_def group_window_def split: prod.splits)

lemma sum_list_perm: "mset xs = mset ys \<Longrightarrow> sum_list xs = (sum_list ys :: real)"
  by (metis sum_mset_sum_list)

lemma real_sum_list: "real (sum_list xs) = sum_list (map real xs)"
  by (induction xs) auto

definition total_count :: "string \<Rightarrow> row list \<Rightarrow> real" where
  "total_count name rows = sum_list (map (\<lambda>r. real_of (num_of (get r name))) rows)"

definition events_of_type :: "string \<Rightarrow> row list \<Rightarrow> row list" where
  "events_of_type t rs = filter (has_type t) rs"

context spark_engine
begin

lemma count_feature_engine:
  assumes "0 < s" and "name \<noteq> ''user_id''" and "name \<noteq> ''window''"
  shows "list_all (\<lambda>r. \<exists>u a. get r ''user_id'' = u \<and> get r ''window'' = window_cell s a \<and> s dvd a
        \<and> get r name = CNum (fnat (length (user_events u a (a + s) (events_of_type t (sem E S p df)))))
        \<and> user_events u a (a + s) (events_of_type t (sem E S p df)) \<noteq> [])
      (run_plan E S (count_feature s name t p) df)
    \<and> total_count name (run_plan E S (count_feature s name t p) df)
      = real (length (filter timed (events_of_type t (sem E S p df))))"
proof
  show "list_all (\<lambda>r. \<exists>u a. get r ''user_id'' = u \<and> get r ''window'' = window_cell s a \<and> s dvd a
        \<and> get r name = CNum (fnat (length (user_events u a (a + s) (events_of_type t (sem E S p df)))))
        \<and> user_events u a (a + s) (events_of_type t (sem E S p df)) \<noteq> [])
      (run_plan E S (count_feature s name t p) df)"
    unfolding list_all_iff run_set events_of_type_def using count_feature_row [OF assms(1) _ assms(2,3)] by blast
  let ?rs = "filter (has_type t) (sem E S p df)" and ?f = "\<lambda>x. real_of (num_of x)"
  have "mset (map ?f (map (\<lambda>r. get r name) (run_plan E S (count_feature s name t p) df)))
      = mset (map ?f (map (\<lambda>r. get r name) (sem E S (count_feature s name t p) df)))"
    using run_sem [of E S "count_feature s name t p" df] by simp
  from sum_list_perm [OF this]
  have "total_count name (run_plan E S (count_feature s name t p) df)
      = sum_list (map ?f (map (\<lambda>r. get r name) (sem E S (count_feature s name t p) df)))"
    by (simp add: total_count_def comp_def)
  also have "\<dots> = sum_list (map (\<lambda>(u, a). real (length (in_window s s u a ?rs))) (window_keys s s ?rs))"
    unfolding count_feature_sum [OF assms] by (simp add: comp_def case_prod_unfold num_of_def fnat_def)
  also have "\<dots> = real (sum_list (map (\<lambda>(u, a). length (in_window s s u a ?rs)) (window_keys s s ?rs)))"
    by (simp add: real_sum_list comp_def case_prod_unfold)
  finally show "total_count name (run_plan E S (count_feature s name t p) df)
      = real (length (filter timed (events_of_type t (sem E S p df))))"
    by (simp add: sum_window_counts [OF assms(1)] events_of_type_def)
qed

end

text \<open>
  The purchase count: every row is a user's aligned five-minute window with at least one purchase, and its value
  is the number of that user's purchases in it; the counts add up to the number of purchases with a timestamp, so each is
  counted exactly once.
\<close>

theorem txn_count_exact:
  assumes "spark_engine run_plan"
  shows "list_all (\<lambda>r. \<exists>u a. get r ''user_id'' = u \<and> get r ''window'' = window_cell (minutes 5) a \<and> minutes 5 dvd a
        \<and> get r ''txn_count_5m'' = CNum (fnat (length (user_events u a (a + minutes 5) (events_of_type ''purchase'' (sem E S p df)))))
        \<and> user_events u a (a + minutes 5) (events_of_type ''purchase'' (sem E S p df)) \<noteq> [])
      (run_plan E S (compute_txn_count_5m p) df)
    \<and> total_count ''txn_count_5m'' (run_plan E S (compute_txn_count_5m p) df)
      = real (length (filter timed (events_of_type ''purchase'' (sem E S p df))))"
  unfolding counting_features using spark_engine.count_feature_engine [OF assms] by simp

definition sample_env :: spark_env where
  "sample_env = \<lparr>se_now = 1700000000000000, se_tz = 0\<rparr>"

definition sample_event :: "string \<Rightarrow> int \<Rightarrow> row" where
  "sample_event t micros = [(''event_id'', CStr ''e''), (''user_id'', CStr ''usr_00001''), (''session_id'', CStr ''ses_1''),
     (''event_type'', CStr t), (''timestamp'', CTime micros), (''transaction_amount'', CNum (Fin 40))]"

lemma txn_count_exact_witness:
  "total_count ''txn_count_5m'' (sem sample_env EVENT_SCHEMA (compute_txn_count_5m Events)
     [sample_event ''purchase'' 0, sample_event ''search'' 0, sample_event ''purchase'' 400000000]) = 2"
proof -
  have "total_count ''txn_count_5m'' (sem sample_env EVENT_SCHEMA (compute_txn_count_5m Events)
     [sample_event ''purchase'' 0, sample_event ''search'' 0, sample_event ''purchase'' 400000000])
    = real (length (filter timed (events_of_type ''purchase'' (sem sample_env EVENT_SCHEMA Events
     [sample_event ''purchase'' 0, sample_event ''search'' 0, sample_event ''purchase'' 400000000]))))"
    using txn_count_exact [OF sem_engine, where p = Events] by blast
  then show ?thesis by (simp add: sample_event_def events_of_type_def has_type_def timed_def)
qed

text \<open>
  The page-view count, likewise, over aligned one-hour windows.
\<close>

theorem product_interaction_exact:
  assumes "spark_engine run_plan"
  shows "list_all (\<lambda>r. \<exists>u a. get r ''user_id'' = u \<and> get r ''window'' = window_cell (minutes 60) a \<and> minutes 60 dvd a
        \<and> get r ''product_interaction_freq'' = CNum (fnat (length (user_events u a (a + minutes 60) (events_of_type ''page_view'' (sem E S p df)))))
        \<and> user_events u a (a + minutes 60) (events_of_type ''page_view'' (sem E S p df)) \<noteq> [])
      (run_plan E S (compute_product_interaction_freq p) df)
    \<and> total_count ''product_interaction_freq'' (run_plan E S (compute_product_interaction_freq p) df)
      = real (length (filter timed (events_of_type ''page_view'' (sem E S p df))))"
  unfolding counting_features using spark_engine.count_feature_engine [OF assms] by simp

lemma product_interaction_exact_witness:
  "total_count ''product_interaction_freq'' (sem sample_env EVENT_SCHEMA (compute_product_interaction_freq Events)
     [sample_event ''page_view'' 0, sample_event ''page_view'' 1]) = 2"
proof -
  have "total_count ''product_interaction_freq'' (sem sample_env EVENT_SCHEMA (compute_product_interaction_freq Events)
     [sample_event ''page_view'' 0, sample_event ''page_view'' 1])
    = real (length (filter timed (events_of_type ''page_view'' (sem sample_env EVENT_SCHEMA Events
     [sample_event ''page_view'' 0, sample_event ''page_view'' 1]))))"
    using product_interaction_exact [OF sem_engine, where p = Events] by blast
  then show ?thesis by (simp add: sample_event_def events_of_type_def has_type_def timed_def)
qed

subsection \<open>Rates, ratios and averages\<close>

lemma select_row:
  assumes "r \<in> set (sem E S (Select cs p) df)"
  obtains g where "g \<in> set (sem E S p df)" "\<And>c. c \<in> set cs \<Longrightarrow> get r c = get g c"
  using assms by (auto simp: get_select)

text \<open>A selected, computed column over a grouping.\<close>

lemma computed_row:
  assumes "0 < s" and "r \<in> set (sem E S (Select [''user_id'', ''window'', name] (WithColumn name e (GroupWindow d s as p))) df)"
    and "name \<noteq> ''user_id''" and "name \<noteq> ''window''"
  shows "\<exists>u a g. get r ''user_id'' = u \<and> get r ''window'' = window_cell d a \<and> s dvd a
    \<and> user_events u a (a + d) (sem E S p df) \<noteq> []
    \<and> g = (''user_id'', u) # (''window'', window_cell d a)
        # map (\<lambda>(c, h). (c, aggregate E (user_events u a (a + d) (sem E S p df)) h)) as
    \<and> get r name = eval E g e"
proof -
  obtain g where g: "g \<in> set (group_window E d s as (sem E S p df))"
    "r = map (\<lambda>c. (c, get (AList.update name (eval E g e) g) c)) [''user_id'', ''window'', name]"
    using assms(2) by auto
  show ?thesis using group_window_events [OF assms(1) g(1)] assms(3,4) g(2) by auto
qed

definition sessions :: "row list \<Rightarrow> cell set" where
  "sessions rs = {get r ''session_id'' | r. r \<in> set rs} - {CNull}"

lemma distinct_sessions:
  "length (remdups (filter (\<lambda>x. x \<noteq> CNull) (map (\<lambda>r. get r ''session_id'') rs))) = card (sessions rs)"
proof -
  have "set (filter (\<lambda>x. x \<noteq> CNull) (map (\<lambda>r. get r ''session_id'') rs)) = sessions rs"
    by (auto simp: sessions_def)
  then show ?thesis by (simp add: length_remdups_card_conv)
qed

lemma card_sessions_le: "card (sessions rs) \<le> length rs"
proof -
  have "length (remdups (filter (\<lambda>x. x \<noteq> CNull) (map (\<lambda>r. get r ''session_id'') rs))) \<le> length (map (\<lambda>r. get r ''session_id'') rs)"
    by (rule order_trans [OF length_remdups_leq length_filter_le])
  then show ?thesis by (simp add: distinct_sessions)
qed

text \<open>
  The session activity rate of a row is the number of the user's events in an aligned five-minute window over
  the number of its distinct sessions: at least 1, or 0 when no event of the window has a session.
\<close>

theorem session_rate_spec:
  assumes "spark_engine run_plan" and "r \<in> set (run_plan E S (compute_session_activity_rate p) df)"
  shows "\<exists>u a q. get r ''user_id'' = u \<and> get r ''window'' = window_cell (minutes 5) a \<and> minutes 5 dvd a
    \<and> get r ''session_activity_rate'' = CNum (Fin q)
    \<and> q = (let es = user_events u a (a + minutes 5) (sem E S p df) in real (length es) / real (card (sessions es)))
    \<and> (if sessions (user_events u a (a + minutes 5) (sem E S p df)) = {} then q = 0 else 1 \<le> q)"
proof -
  have "r \<in> set (sem E S (compute_session_activity_rate p) df)"
    using assms spark_engine.run_set by blast
  from computed_row [OF _ this [unfolded compute_session_activity_rate_def]]
  obtain u a where a: "get r ''user_id'' = u" "get r ''window'' = window_cell (minutes 5) a" "minutes 5 dvd a"
    and rate: "get r ''session_activity_rate'' =
      (let es = user_events u a (a + minutes 5) (sem E S p df);
           n = card (sessions es)
       in if 0 < n then CNum (Fin (real (length es) / real n)) else CNum (Fin 0))"
    by (auto simp: Let_def distinct_sessions fnat_def sp_less_def sp_div_def)
  define es where "es = user_events u a (a + minutes 5) (sem E S p df)"
  define q where "q = real (length es) / real (card (sessions es))"
  have fin: "finite (sessions es)" by (simp add: sessions_def)
  have "1 \<le> q" if "sessions es \<noteq> {}"
    using that fin card_sessions_le [of es] by (simp add: q_def le_divide_eq card_gt_0_iff)
  moreover have "get r ''session_activity_rate'' = CNum (Fin q)" and "sessions es = {} \<Longrightarrow> q = 0"
    using rate fin by (auto simp: q_def Let_def card_gt_0_iff simp flip: es_def)
  ultimately have "get r ''user_id'' = u \<and> get r ''window'' = window_cell (minutes 5) a \<and> minutes 5 dvd a
      \<and> get r ''session_activity_rate'' = CNum (Fin q)
      \<and> q = (let es = user_events u a (a + minutes 5) (sem E S p df) in real (length es) / real (card (sessions es)))
      \<and> (if sessions (user_events u a (a + minutes 5) (sem E S p df)) = {} then q = 0 else 1 \<le> q)"
    using a by (simp add: Let_def q_def flip: es_def)
  then show ?thesis by blast
qed

lemma session_rate_spec_witness:
  "\<exists>r q. r \<in> set (sem sample_env EVENT_SCHEMA (compute_session_activity_rate Events) [sample_event ''search'' 0, sample_event ''page_view'' 1])
     \<and> get r ''session_activity_rate'' = CNum (Fin q)"
proof -
  let ?rows = "sem sample_env EVENT_SCHEMA (compute_session_activity_rate Events) [sample_event ''search'' 0, sample_event ''page_view'' 1]"
  have "?rows \<noteq> []"
    by (simp add: compute_session_activity_rate_def group_window_def window_keys_def row_windows_def sample_event_def
        window_starts_tumbling)
  then have "hd ?rows \<in> set ?rows" by simp
  with session_rate_spec [OF sem_engine this] show ?thesis by blast
qed

lemma nums_of_CNum [simp]: "nums_of (map (\<lambda>r. CNum (f r)) rs) = map f rs"
  by (induction rs) (auto simp: nums_of_def)

definition count_of :: "string \<Rightarrow> row list \<Rightarrow> nat" where
  "count_of t rs = length (filter (has_type t) rs)"

lemma sum_one_if:
  "rs \<noteq> [] \<Longrightarrow> aggregate E rs (SumOf (one_if t)) = CNum (Fin (real (count_of t rs)))"
proof -
  assume ne: "rs \<noteq> []"
  have "map (\<lambda>r. eval E r (one_if t)) rs = map (\<lambda>r. CNum (if has_type t r then Fin 1 else Fin 0)) rs"
    by (auto simp: one_if_def)
  then have "nums_of (map (\<lambda>r. eval E r (one_if t)) rs) = map (\<lambda>r. if has_type t r then Fin 1 else Fin 0) rs"
    by (simp only: nums_of_CNum)
  also have "\<dots> = map Fin (map (\<lambda>r. if has_type t r then 1 else 0) rs)" by auto
  finally have nums: "nums_of (map (\<lambda>r. eval E r (one_if t)) rs) = map Fin (map (\<lambda>r. if has_type t r then 1 else 0) rs)" .
  have "sum_list (map (\<lambda>r. if has_type t r then 1 else 0) rs) = real (count_of t rs)"
    by (induction rs) (auto simp: count_of_def)
  then show ?thesis using ne by (simp only: aggregate.simps Let_def nums py_sum_fin) simp
qed

lemma eval_cart_ratio:
  assumes "get g ''add_to_cart_count'' = CNum (Fin c)" and "get g ''purchase_count'' = CNum (Fin b)" and "0 \<le> c"
  shows "eval E g (When (Greater (Col ''add_to_cart_count'') (Lit (CNum (Fin 0))))
           (Greatest
             (Div (Sub (Col ''add_to_cart_count'') (Col ''purchase_count'')) (Col ''add_to_cart_count''))
             (Lit (CNum (Fin 0))))
           (Lit (CNum (Fin 0)))) = CNum (Fin (if c = 0 then 0 else max ((c - b) / c) 0))"
  using assms by (simp add: sp_less_def sp_div_def max_def)



subsection \<open>Spending\<close>

definition priced :: "row \<Rightarrow> bool" where
  "priced r \<longleftrightarrow> (case get r ''transaction_amount'' of CNum (Fin x) \<Rightarrow> True | _ \<Rightarrow> False)"

definition amounts :: "row list \<Rightarrow> real list" where
  "amounts rs = map (\<lambda>r. real_of (num_of (get r ''transaction_amount''))) rs"

lemma priced_iff: "priced r \<longleftrightarrow> (\<exists>x. get r ''transaction_amount'' = CNum (Fin x))"
  by (auto simp: priced_def split: cell.splits pyfloat.splits)

lemma nums_of_amounts:
  assumes "list_all priced rs"
  shows "nums_of (map (\<lambda>r. get r ''transaction_amount'') rs) = map Fin (amounts rs)"
proof -
  have "map (\<lambda>r. get r ''transaction_amount'') rs
      = map (\<lambda>r. CNum (Fin (real_of (num_of (get r ''transaction_amount''))))) rs"
    using assms by (auto simp: list_all_iff priced_iff num_of_def)
  then have "nums_of (map (\<lambda>r. get r ''transaction_amount'') rs)
      = map (\<lambda>r. Fin (real_of (num_of (get r ''transaction_amount'')))) rs"
    by (simp only: nums_of_CNum)
  then show ?thesis by (simp add: amounts_def comp_def)
qed

definition mean_of :: "real list \<Rightarrow> real" where
  "mean_of xs = sum_list xs / real (length xs)"

lemma mean_between:
  assumes "xs \<noteq> []" and "\<forall>x \<in> set xs. lo \<le> x \<and> x \<le> hi"
  shows "lo \<le> mean_of xs \<and> mean_of xs \<le> hi"
proof -
  have "real (length xs) * lo \<le> sum_list xs" "sum_list xs \<le> real (length xs) * hi"
    using assms(2) by (induction xs) (auto simp: algebra_simps)
  then show ?thesis using assms(1) by (simp add: mean_of_def le_divide_eq divide_le_eq mult.commute)
qed

lemma avg_of_fin: "xs \<noteq> [] \<Longrightarrow> avg_of (map Fin xs) = CNum (Fin (mean_of xs))"
  by (simp add: avg_of_def mean_of_def fnat_def)

text \<open>
  The average spend of a row is the mean amount of the user's purchases in an aligned sliding hour, so it lies
  between the smallest and the largest of them, given that purchases carry finite amounts.
\<close>

theorem avg_spend_spec:
  assumes "spark_engine run_plan" and "r \<in> set (run_plan E S (compute_avg_spend_1h p) df)"
    and "list_all priced (events_of_type ''purchase'' (sem E S p df))"
  shows "\<exists>u a xs. get r ''user_id'' = u \<and> get r ''window'' = window_cell (minutes 60) a \<and> minutes 5 dvd a
    \<and> xs = amounts (user_events u a (a + minutes 60) (events_of_type ''purchase'' (sem E S p df))) \<and> xs \<noteq> []
    \<and> get r ''avg_spend_1h'' = CNum (Fin (mean_of xs)) \<and> Min (set xs) \<le> mean_of xs \<and> mean_of xs \<le> Max (set xs)"
proof -
  have "r \<in> set (sem E S (compute_avg_spend_1h p) df)" using assms spark_engine.run_set by blast
  then obtain g where g: "g \<in> set (group_window E (minutes 60) (minutes 5) [(''avg_spend_1h'', AvgOf ''transaction_amount'')]
      (events_of_type ''purchase'' (sem E S p df)))"
    "r = map (\<lambda>c. (c, get g c)) [''user_id'', ''window'', ''avg_spend_1h'']"
    by (auto simp: compute_avg_spend_1h_def events_of_type_def)
  have "0 < minutes 5" by simp
  from group_window_events [OF this g(1)] obtain u a where a: "get g ''user_id'' = u" "get g ''window'' = window_cell (minutes 60) a"
    "minutes 5 dvd a" "user_events u a (a + minutes 60) (events_of_type ''purchase'' (sem E S p df)) \<noteq> []"
    "g = (''user_id'', u) # (''window'', window_cell (minutes 60) a)
        # map (\<lambda>(c, h). (c, aggregate E (user_events u a (a + minutes 60) (events_of_type ''purchase'' (sem E S p df))) h))
          [(''avg_spend_1h'', AvgOf ''transaction_amount'')]"
    by blast
  define es where "es = user_events u a (a + minutes 60) (events_of_type ''purchase'' (sem E S p df))"
  have "list_all priced es" using assms(3) by (auto simp: es_def user_events_def list_all_iff)
  note nums = nums_of_amounts [OF this]
  have ne: "amounts es \<noteq> []" using a(4) by (simp add: es_def amounts_def)
  have "get r ''avg_spend_1h'' = CNum (Fin (mean_of (amounts es)))"
    using a(5) g(2) by (simp add: nums avg_of_fin [OF ne] flip: es_def)
  moreover have "Min (set (amounts es)) \<le> mean_of (amounts es) \<and> mean_of (amounts es) \<le> Max (set (amounts es))"
    by (rule mean_between [OF ne]) simp
  ultimately show ?thesis using a(1-3) g(2) ne by (auto simp: es_def)
qed

lemma avg_spend_spec_witness:
  "\<exists>r x. r \<in> set (sem sample_env EVENT_SCHEMA (compute_avg_spend_1h Events) [sample_event ''purchase'' 0]) \<and> get r ''avg_spend_1h'' = CNum (Fin x)"
proof -
  let ?rows = "sem sample_env EVENT_SCHEMA (compute_avg_spend_1h Events) [sample_event ''purchase'' 0]"
  have "0 \<in> set (window_starts (minutes 60) (minutes 5) 0)" by (simp add: window_starts_member)
  then have "?rows \<noteq> []"
    by (auto simp: compute_avg_spend_1h_def group_window_def window_keys_def row_windows_def sample_event_def
        has_type_def)
  then have r: "hd ?rows \<in> set ?rows" by simp
  have pr: "list_all priced (events_of_type ''purchase'' (sem sample_env EVENT_SCHEMA Events [sample_event ''purchase'' 0]))"
    by (simp add: events_of_type_def priced_def sample_event_def)
  from avg_spend_spec [OF sem_engine r pr] r show ?thesis by blast
qed

subsection \<open>Joins\<close>

definition conforms :: "schema \<Rightarrow> row list \<Rightarrow> bool" where
  "conforms S df \<longleftrightarrow> list_all (\<lambda>r. map fst r = map fst S) df"

lemma decode_conforms: "conforms S (map (decode_event S) js)"
  by (auto simp: conforms_def list_all_iff decode_event_def)

lemma conforms_keys: "conforms S df \<Longrightarrow> r \<in> set (sem E S p df) \<Longrightarrow> map fst r = map fst (columns S p)"
  using sem_keys [of df S E p] by (auto simp: conforms_def list_all_iff)

text \<open>A row of a left join extends a left row, by one matching right row or by nulls.\<close>

lemma left_join_row:
  assumes "conforms S df" and "r \<in> set (sem E S (LeftJoin p q) df)"
  obtains l where "l \<in> set (sem E S p df)" "\<And>c. c \<in> set (map fst (columns S p)) \<Longrightarrow> get r c = get l c"
    "(\<exists>m \<in> set (sem E S q df). same_user l m
        \<and> (\<forall>c. c \<in> set (joined_columns S q) \<and> c \<notin> set (map fst (columns S p)) \<longrightarrow> get r c = get m c))
     \<or> (list_all (\<lambda>m. \<not> same_user l m) (sem E S q df)
        \<and> (\<forall>c. c \<in> set (joined_columns S q) \<and> c \<notin> set (map fst (columns S p)) \<longrightarrow> get r c = CNull))"
proof -
  obtain l where l: "l \<in> set (sem E S p df)" "r \<in> set (join_rows (joined_columns S q) (sem E S q df) l)"
    using assms(2) by auto
  have keys: "map fst l = map fst (columns S p)" by (rule conforms_keys [OF assms(1) l(1)])
  from join_rows_member [OF l(2)] have "(\<exists>m \<in> set (sem E S q df). same_user l m \<and> r = l @ map (\<lambda>c. (c, get m c)) (joined_columns S q))
    \<or> (list_all (\<lambda>m. \<not> same_user l m) (sem E S q df) \<and> r = l @ map (\<lambda>c. (c, CNull)) (joined_columns S q))" .
  then show ?thesis
    by (intro that [OF l(1)]) (auto simp: get_append keys get_select simp del: set_map)
qed

text \<open>When every row of both sides belongs to one user, a left join is a product, with at least one partner each.\<close>

definition all_of_user :: "string \<Rightarrow> row list \<Rightarrow> bool" where
  "all_of_user u rs \<longleftrightarrow> list_all (\<lambda>r. get r ''user_id'' = CStr u) rs"

lemma length_left_join:
  assumes "all_of_user u (sem E S p df)" and "all_of_user u (sem E S q df)"
  shows "length (sem E S (LeftJoin p q) df) = length (sem E S p df) * max 1 (length (sem E S q df))"
proof -
  have "filter (same_user l) (sem E S q df) = sem E S q df" if "l \<in> set (sem E S p df)" for l
    using assms that by (auto simp: all_of_user_def list_all_iff same_user_def filter_id_conv)
  then have "map (length \<circ> join_rows (joined_columns S q) (sem E S q df)) (sem E S p df)
      = map (\<lambda>l. max 1 (length (sem E S q df))) (sem E S p df)"
    by (simp add: length_join_rows)
  then have "length (sem E S (LeftJoin p q) df) = sum_list (map (\<lambda>l. max 1 (length (sem E S q df))) (sem E S p df))"
    by (simp only: sem.simps length_concat map_map)
  then show ?thesis by (simp only: sum_list_triv of_nat_id)
qed

lemma left_join_user:
  assumes "conforms S df" and "all_of_user u (sem E S p df)" and "''user_id'' \<in> set (map fst (columns S p))"
  shows "all_of_user u (sem E S (LeftJoin p q) df)"
  unfolding all_of_user_def list_all_iff
proof
  fix r assume "r \<in> set (sem E S (LeftJoin p q) df)"
  from left_join_row [OF assms(1) this] obtain l where l: "l \<in> set (sem E S p df)"
    "\<And>c. c \<in> set (map fst (columns S p)) \<Longrightarrow> get r c = get l c"
    by blast
  then show "get r ''user_id'' = CStr u" using assms(2,3) by (simp add: all_of_user_def list_all_iff)
qed

subsection \<open>How many rows\<close>

definition is_purchase_of :: "string \<Rightarrow> row \<Rightarrow> bool" where
  "is_purchase_of u e \<longleftrightarrow> get e ''user_id'' = CStr u \<and> has_type ''purchase'' e \<and> timed e"

lemma single_group:
  assumes "is_purchase_of u e" and "0 < s" and "0 < k"
  shows "length (group_window E (int k * s) s as [e]) = k" and "all_of_user u (group_window E (int k * s) s as [e])"
proof -
  obtain t where t: "get e ''timestamp'' = CTime t" and u: "get e ''user_id'' = CStr u"
    using assms(1) by (auto simp: is_purchase_of_def timed_def split: cell.splits)
  have keys: "window_keys (int k * s) s [e] = map (\<lambda>a. (CStr u, a)) (window_starts (int k * s) s t)"
    using distinct_window_starts [OF assms(2), of "int k * s" t]
    by (simp add: window_keys_def row_windows_def t u distinct_remdups_id distinct_map inj_on_def)
  then show "length (group_window E (int k * s) s as [e]) = k"
    by (simp add: group_window_def length_window_starts [OF assms(2,3)])
  show "all_of_user u (group_window E (int k * s) s as [e])"
    by (auto simp: all_of_user_def list_all_iff group_window_def keys)
qed

lemma select_user:
  "''user_id'' \<in> set cs \<Longrightarrow> all_of_user u (sem E S p df) \<Longrightarrow> all_of_user u (sem E S (Select cs p) df)"
  by (auto simp: all_of_user_def list_all_iff get_select)

lemma column_user:
  "c \<noteq> ''user_id'' \<Longrightarrow> all_of_user u (sem E S p df) \<Longrightarrow> all_of_user u (sem E S (WithColumn c e p) df)"
  by (auto simp: all_of_user_def list_all_iff)

lemma drop_user:
  "c \<noteq> ''user_id'' \<Longrightarrow> all_of_user u (sem E S p df) \<Longrightarrow> all_of_user u (sem E S (DropColumn c p) df)"
  by (auto simp: all_of_user_def list_all_iff get_drop)

lemma window_multiples:
  "minutes 5 = int 1 * minutes 5" "minutes 60 = int 12 * minutes 5" "minutes 30 = int 1 * minutes 30"
  "minutes (24 * 60) = int 288 * minutes 5"
  by (simp_all add: minutes_def)

lemma filter_single:
  assumes "is_purchase_of u e" and "sem E S P [e] = [e]"
  shows "sem E S (Filter (event_is ''purchase'') P) [e] = [e]"
    and "sem E S (Filter (event_is ''page_view'') P) [e] = []"
    and "sem E S (Filter (IsIn (Col ''event_type'') [''add_to_cart'', ''purchase'']) P) [e] = [e]"
  using assms by (auto simp: is_purchase_of_def has_type_def)

lemma single_feature:
  assumes "is_purchase_of u e" and "sem E S P [e] = [e]" and "0 < s" and "0 < k" and "d = int k * s"
  shows "length (sem E S (GroupWindow d s as P) [e]) = k \<and> all_of_user u (sem E S (GroupWindow d s as P) [e])"
  using single_group [OF assms(1,3,4)] assms(2,5) by simp

lemma group_length:
  "length (sem E S (Select cs p) df) = length (sem E S p df)"
  "length (sem E S (WithColumn c e p) df) = length (sem E S p df)"
  "length (sem E S (DropColumn c p) df) = length (sem E S p df)"
  "length (sem E S (FillNa v p) df) = length (sem E S p df)"
  "length (sem E S (FillNaIn c v p) df) = length (sem E S p df)"
  by simp_all

lemma single_lengths:
  assumes "is_purchase_of u e" and "sem E S P [e] = [e]"
  shows "length (sem E S (compute_txn_count_5m P) [e]) = 1 \<and> all_of_user u (sem E S (compute_txn_count_5m P) [e])"
    and "length (sem E S (compute_avg_spend_1h P) [e]) = 12 \<and> all_of_user u (sem E S (compute_avg_spend_1h P) [e])"
    and "length (sem E S (compute_session_activity_rate P) [e]) = 1 \<and> all_of_user u (sem E S (compute_session_activity_rate P) [e])"
    and "length (sem E S (compute_cart_abandon_ratio P) [e]) = 1 \<and> all_of_user u (sem E S (compute_cart_abandon_ratio P) [e])"
    and "sem E S (compute_product_interaction_freq P) [e] = []"
proof -
  note f = filter_single [OF assms]
  note g = single_feature [OF assms(1)]
  have pos: "0 < minutes 5" "0 < minutes 30" by simp_all
  note rules = select_user column_user
  show "length (sem E S (compute_txn_count_5m P) [e]) = 1 \<and> all_of_user u (sem E S (compute_txn_count_5m P) [e])"
    using g [OF f(1) pos(1), of 1 "minutes 5" "[(''txn_count_5m'', CountAll)]"]
    unfolding compute_txn_count_5m_def group_length by (auto intro!: rules simp del: sem.simps)
  show "length (sem E S (compute_avg_spend_1h P) [e]) = 12 \<and> all_of_user u (sem E S (compute_avg_spend_1h P) [e])"
    using g [OF f(1) pos(1) _ window_multiples(2), of "[(''avg_spend_1h'', AvgOf ''transaction_amount'')]"]
    unfolding compute_avg_spend_1h_def group_length by (auto intro!: rules simp del: sem.simps)
  show "length (sem E S (compute_session_activity_rate P) [e]) = 1 \<and> all_of_user u (sem E S (compute_session_activity_rate P) [e])"
    using g [OF assms(2) pos(1), of 1 "minutes 5" "[(''event_count'', CountAll), (''session_count'', CountDistinct ''session_id'')]"]
    unfolding compute_session_activity_rate_def group_length by (auto intro!: rules simp del: sem.simps)
  show "length (sem E S (compute_cart_abandon_ratio P) [e]) = 1 \<and> all_of_user u (sem E S (compute_cart_abandon_ratio P) [e])"
    using g [OF f(3) pos(2), of 1 "minutes 30" "[(''add_to_cart_count'', SumOf (one_if ''add_to_cart'')), (''purchase_count'', SumOf (one_if ''purchase''))]"]
    unfolding compute_cart_abandon_ratio_def group_length by (auto intro!: rules simp del: sem.simps)
  show "sem E S (compute_product_interaction_freq P) [e] = []"
    using f(2) by (simp add: compute_product_interaction_freq_def group_window_def window_keys_def)
qed

lemma single_join:
  assumes "is_purchase_of u e" and "sem E S P [e] = [e]" and "conforms S [e]"
  shows "length (sem E S (compute_all_features P) [e]) = 12"
    and "all_of_user u (sem E S (compute_all_features P) [e])"
proof -
  note L = single_lengths [OF assms(1,2)]
  note drop = drop_user [of "''window''" u E S _ "[e]"]
  let ?a = "compute_txn_count_5m P"
  let ?b = "LeftJoin ?a (DropColumn ''window'' (compute_avg_spend_1h P))"
  let ?c = "LeftJoin ?b (DropColumn ''window'' (compute_session_activity_rate P))"
  let ?d = "LeftJoin ?c (DropColumn ''window'' (compute_cart_abandon_ratio P))"
  have b: "length (sem E S ?b [e]) = 12 \<and> all_of_user u (sem E S ?b [e])"
    using L(1,2) length_left_join [of u E S ?a "[e]"] left_join_user [OF assms(3), of u E ?a] drop
    by (simp del: sem.simps add: group_length)
  have c: "length (sem E S ?c [e]) = 12 \<and> all_of_user u (sem E S ?c [e])"
    using b L(3) length_left_join [of u E S ?b "[e]"] left_join_user [OF assms(3), of u E ?b] drop
    by (simp del: sem.simps add: group_length)
  have d: "length (sem E S ?d [e]) = 12 \<and> all_of_user u (sem E S ?d [e])"
    using c L(4) length_left_join [of u E S ?c "[e]"] left_join_user [OF assms(3), of u E ?c] drop
    by (simp del: sem.simps add: group_length)
  have none: "sem E S (DropColumn ''window'' (compute_product_interaction_freq P)) [e] = []" using L(5) by simp
  then have "all_of_user u (sem E S (DropColumn ''window'' (compute_product_interaction_freq P)) [e])"
    by (simp add: all_of_user_def)
  with d none have j: "length (sem E S (join_features P) [e]) = 12 \<and> all_of_user u (sem E S (join_features P) [e])"
    using length_left_join [of u E S ?d "[e]"] left_join_user [OF assms(3), of u E ?d]
    unfolding join_features_def by (simp del: sem.simps)
  then show "length (sem E S (compute_all_features P) [e]) = 12"
    unfolding compute_all_features_def group_length by simp
  have "get (fill_row which v r) ''user_id'' = CStr u" if "get r ''user_id'' = CStr u" for which v r
  proof -
    have "''user_id'' \<in> set (map fst r)"
      using that by (force simp: get_def split: option.splits dest!: map_of_SomeD)
    with that show ?thesis by (simp add: get_fill)
  qed
  then have fill: "all_of_user u (sem E S p [e]) \<Longrightarrow> all_of_user u (sem E S (FillNa v p) [e])" for v p
    by (simp add: all_of_user_def list_all_iff)
  show "all_of_user u (sem E S (compute_all_features P) [e])"
    unfolding compute_all_features_def
    by (intro select_user fill column_user) (use j in \<open>simp_all add: FEATURE_COLUMNS_def del: sem.simps\<close>)
qed

lemma single_anomaly:
  assumes "is_purchase_of u e" and "sem E S P [e] = [e]" and "conforms S [e]"
  shows "length (sem E S (compute_anomaly_score P) [e]) = 288 \<and> all_of_user u (sem E S (compute_anomaly_score P) [e])"
proof -
  note f = filter_single [OF assms(1,2)]
  have pos: "0 < minutes 5" by simp
  let ?cur = "GroupWindow (minutes 5) (minutes 5) [(''avg_5m'', AvgOf ''transaction_amount'')] (Filter (event_is ''purchase'') P)"
  let ?base = "GroupWindow (minutes (24 * 60)) (minutes 5)
     [(''mean_24h'', AvgOf ''transaction_amount''), (''std_24h'', StddevOf ''transaction_amount'')] (Filter (event_is ''purchase'') P)"
  have cur: "length (sem E S ?cur [e]) = 1 \<and> all_of_user u (sem E S ?cur [e])"
    using single_feature [OF assms(1) f(1) pos, of 1] by (simp del: sem.simps)
  have base: "length (sem E S ?base [e]) = 288 \<and> all_of_user u (sem E S ?base [e])"
    by (rule single_feature [OF assms(1) f(1) pos _ window_multiples(4)]) simp
  have "length (sem E S (LeftJoin ?cur (DropColumn ''window'' ?base)) [e]) = 288
      \<and> all_of_user u (sem E S (LeftJoin ?cur (DropColumn ''window'' ?base)) [e])"
    using cur base length_left_join [of u E S ?cur "[e]"] left_join_user [OF assms(3), of u E ?cur]
      drop_user [of "''window''" u E S ?base "[e]"]
    by (simp del: sem.simps add: group_length)
  then show ?thesis
    unfolding compute_anomaly_score_def Let_def group_length
    by (auto intro!: select_user column_user simp del: sem.simps)
qed

lemma single_full:
  assumes "is_purchase_of u e" and "conforms S [e]"
  shows "length (sem E S (compute_all_features stream_events) [e]) = 12 \<and> length (sem E S stream_plan [e]) = 3456"
proof -
  have ev: "sem E S stream_events [e] = [e]" using assms(1) by (simp add: stream_events_def is_purchase_of_def)
  note all = single_join [OF assms(1) ev assms(2)] and anomaly = single_anomaly [OF assms(1) ev assms(2)]
  let ?right = "Select [''user_id'', ''anomaly_score''] (compute_anomaly_score stream_events)"
  have right: "length (sem E S ?right [e]) = 288 \<and> all_of_user u (sem E S ?right [e])"
    using anomaly unfolding group_length by (auto intro!: select_user simp del: sem.simps)
  have "length (sem E S stream_plan [e]) = 3456"
    unfolding stream_plan_def full_features_def group_length
    using length_left_join [OF all(2) right [THEN conjunct2]] all(1) right by simp
  with all(1) show ?thesis by simp
qed

text \<open>
  C21. The joins multiply rows: they match on the user alone, not on the window, so one single purchase yields 3456
  feature rows (12 one-hour windows times 288 day windows) for its one five-minute window, where the documentation of
  \<open>compute_all_features\<close> promises a single row per user per window.
\<close>

theorem single_purchase_rows:
  assumes "spark_engine run_plan" and "is_purchase_of u e" and "conforms S [e]"
  shows "length (run_plan E S (compute_all_features stream_events) [e]) = 12
    \<and> length (run_plan E S stream_plan [e]) = 3456"
  using single_full [OF assms(2,3)] spark_engine.run_length [OF assms(1)] by simp

definition sample_purchase :: row where
  "sample_purchase = map (\<lambda>(c, t). (c, if c = ''user_id'' then CStr ''usr_00001'' else if c = ''event_type'' then CStr ''purchase''
     else if c = ''timestamp'' then CTime 0 else CNull)) EVENT_SCHEMA"

lemma single_purchase_rows_witness:
  "length (sem sample_env EVENT_SCHEMA stream_plan [sample_purchase]) = 3456"
proof -
  have p: "is_purchase_of ''usr_00001'' sample_purchase"
    by (simp add: is_purchase_of_def sample_purchase_def EVENT_SCHEMA_def has_type_def timed_def)
  have c: "conforms EVENT_SCHEMA [sample_purchase]"
    by (simp add: conforms_def sample_purchase_def EVENT_SCHEMA_def)
  show ?thesis using single_purchase_rows [OF sem_engine p c] by blast
qed

subsection \<open>Numeric columns hold numbers\<close>

definition num_or_null :: "cell \<Rightarrow> bool" where
  "num_or_null x \<longleftrightarrow> x = CNull \<or> (\<exists>y. x = CNum y)"

definition numeric_rows :: "schema \<Rightarrow> row list \<Rightarrow> bool" where
  "numeric_rows S rs \<longleftrightarrow> (\<forall>r \<in> set rs. \<forall>c. map_of S c = Some TNum \<longrightarrow> num_or_null (get r c))"

fun well_typed :: "schema \<Rightarrow> expr \<Rightarrow> bool" where
  "well_typed S (When c a b) \<longleftrightarrow> well_typed S a \<and> well_typed S b \<and> type_of S a = type_of S b"
| "well_typed S (Greatest a b) \<longleftrightarrow> well_typed S a \<and> well_typed S b \<and> type_of S a = type_of S b"
| "well_typed S (Coalesce a b) \<longleftrightarrow> well_typed S a \<and> well_typed S b \<and> type_of S a = type_of S b"
| "well_typed S (Field e f) \<longleftrightarrow> type_of S (Field e f) \<noteq> TNum"
| "well_typed S e \<longleftrightarrow> True"

fun well_typed_plan :: "schema \<Rightarrow> plan \<Rightarrow> bool" where
  "well_typed_plan S Events \<longleftrightarrow> True"
| "well_typed_plan S (Filter e p) \<longleftrightarrow> well_typed_plan S p"
| "well_typed_plan S (GroupWindow d s as p) \<longleftrightarrow> well_typed_plan S p"
| "well_typed_plan S (WithColumn c e p) \<longleftrightarrow> well_typed_plan S p \<and> well_typed (columns S p) e"
| "well_typed_plan S (Select cs p) \<longleftrightarrow> well_typed_plan S p"
| "well_typed_plan S (DropColumn c p) \<longleftrightarrow> well_typed_plan S p"
| "well_typed_plan S (LeftJoin p q) \<longleftrightarrow> well_typed_plan S p \<and> well_typed_plan S q"
| "well_typed_plan S (FillNa v p) \<longleftrightarrow> well_typed_plan S p"
| "well_typed_plan S (FillNaIn c v p) \<longleftrightarrow> well_typed_plan S p"

lemma num_or_null_simps [simp]: "num_or_null CNull" "num_or_null (CNum x)"
  by (simp_all add: num_or_null_def)

lemma num_or_null_lift [simp]: "num_or_null (lift_num (\<lambda>x y. CNum (f x y)) a b)" "num_or_null (lift_num sp_div a b)"
  by (cases a; cases b; simp add: sp_div_def)+

lemma num_or_null_greatest: "num_or_null a \<Longrightarrow> num_or_null b \<Longrightarrow> num_or_null (sp_greatest a b)"
  by (auto simp: num_or_null_def)

lemma num_or_null_aggregate: "num_or_null (aggregate E rs g)"
  by (cases g) (simp_all add: avg_of_def stddev_of_def Let_def)

lemma eval_numeric:
  assumes "\<And>c. map_of S c = Some TNum \<Longrightarrow> num_or_null (get r c)" and "type_of S e = TNum" and "well_typed S e"
  shows "num_or_null (eval E r e)"
  using assms(2,3)
proof (induction e)
  case (Col c)
  then show ?case using assms(1) by (auto split: option.splits)
next
  case (Lit x)
  then show ?case by (cases x) simp_all
qed (auto simp: num_or_null_greatest split: cell.splits pyfloat.splits)

lemma map_of_aggs: "map_of (map (\<lambda>(c, a). (c, TNum)) as) c = Some TNum \<longleftrightarrow> c \<in> set (map fst as)"
  by (induction as) auto

lemma get_aggs: "num_or_null (get (map (\<lambda>(c, g). (c, aggregate E rs g)) as) c)"
  by (induction as) (auto simp: num_or_null_aggregate)

lemma map_of_filter_key: "map_of (filter (\<lambda>(k, t). k \<noteq> x) S) c = (if c = x then None else map_of S c)"
  by (induction S) auto

lemma map_of_keys: "map_of S c = Some t \<Longrightarrow> c \<in> set (map fst S)"
  by (induction S) (auto split: if_splits)

lemma sem_numeric:
  assumes "conforms S df" and "numeric_rows S df" and "well_typed_plan S p"
  shows "numeric_rows (columns S p) (sem E S p df)"
  using assms(3)
proof (induction p)
  case Events
  then show ?case using assms(2) by simp
next
  case (GroupWindow d s as p)
  show ?case unfolding numeric_rows_def
  proof (intro ballI allI impI)
    fix r c assume r: "r \<in> set (sem E S (GroupWindow d s as p) df)"
      and c: "map_of (columns S (GroupWindow d s as p)) c = Some TNum"
    have "c \<noteq> ''user_id''" "c \<noteq> ''window''" using c by (auto simp: window_type_def split: if_splits)
    moreover obtain u a where "r = (''user_id'', u) # (''window'', window_cell d a)
        # map (\<lambda>(c, g). (c, aggregate E (in_window d s u a (sem E S p df)) g)) as"
      using group_window_member [OF r [unfolded sem.simps]] by blast
    ultimately show "num_or_null (get r c)" by (simp add: get_aggs)
  qed
next
  case (WithColumn c e p)
  then have IH: "numeric_rows (columns S p) (sem E S p df)" and wt: "well_typed (columns S p) e" by auto
  have "num_or_null (eval E r e)" if "r \<in> set (sem E S p df)" "type_of (columns S p) e = TNum" for r
    by (rule eval_numeric [OF _ that(2) wt]) (use IH that(1) in \<open>simp add: numeric_rows_def\<close>)
  then show ?case using IH by (auto simp: numeric_rows_def split: if_splits)
next
  case (Select cs p)
  then have IH: "numeric_rows (columns S p) (sem E S p df)" by simp
  have "map_of (columns S p) c = Some TNum \<and> c \<in> set cs"
    if "map_of (map (\<lambda>c. (c, type_of (columns S p) (Col c))) cs) c = Some TNum" for c
  proof -
    have c: "c \<in> set cs" using map_of_keys [OF that] by (simp add: comp_def)
    with that have "type_of (columns S p) (Col c) = TNum" by (simp add: map_of_map_keyed)
    with c show ?thesis by (auto split: option.splits)
  qed
  note col = this
  show ?case unfolding numeric_rows_def
  proof (intro ballI allI impI)
    fix r c assume r: "r \<in> set (sem E S (Select cs p) df)" and c: "map_of (columns S (Select cs p)) c = Some TNum"
    from c have "map_of (columns S p) c = Some TNum" "c \<in> set cs" using col [of c] by simp_all
    then show "num_or_null (get r c)" using IH r by (auto simp: numeric_rows_def get_select)
  qed
next
  case (DropColumn c p)
  then show ?case by (auto simp: numeric_rows_def get_drop map_of_filter_key split: if_splits)
next
  case (LeftJoin p q)
  then have IH: "numeric_rows (columns S p) (sem E S p df)" "numeric_rows (columns S q) (sem E S q df)" by auto
  show ?case unfolding numeric_rows_def
  proof (intro ballI allI impI)
    fix r c assume r: "r \<in> set (sem E S (LeftJoin p q) df)" and c: "map_of (columns S (LeftJoin p q)) c = Some TNum"
    obtain l where l: "l \<in> set (sem E S p df)" "r \<in> set (join_rows (joined_columns S q) (sem E S q df) l)"
      using r by auto
    have keys: "map fst l = map fst (columns S p)" by (rule conforms_keys [OF assms(1) l(1)])
    show "num_or_null (get r c)"
    proof (cases "c \<in> set (map fst (columns S p))")
      case True
      then obtain t where "map_of (columns S p) c = Some t" by (cases "map_of (columns S p) c") (auto simp: map_of_eq_None_iff)
      then have "map_of (columns S p) c = Some TNum" using c by (auto simp: map_add_Some_iff map_of_eq_None_iff split: option.splits)
      moreover have "get r c = get l c" using join_rows_member [OF l(2)] keys True by (auto simp: get_append simp del: set_map)
      ultimately show ?thesis using IH(1) l(1) by (simp add: numeric_rows_def)
    next
      case False
      then have "map_of (columns S p) c = None" by (simp add: map_of_eq_None_iff)
      then have "map_of (columns S q) c = Some TNum" using c by (auto simp: map_of_filter_key map_add_def split: if_splits)
      then have "\<forall>m \<in> set (sem E S q df). num_or_null (get m c)" using IH(2) by (simp add: numeric_rows_def)
      then show ?thesis using join_rows_member [OF l(2)] keys False by (auto simp: get_append get_select simp del: set_map)
    qed
  qed
next
  case (FillNa v p)
  then have IH: "numeric_rows (columns S p) (sem E S p df)" by simp
  show ?case unfolding numeric_rows_def
  proof (intro ballI allI impI)
    fix r c assume r: "r \<in> set (sem E S (FillNa v p) df)" and c: "map_of (columns S (FillNa v p)) c = Some TNum"
    obtain x where x: "x \<in> set (sem E S p df)" "r = fill_row (\<lambda>c. map_of (columns S p) c = Some TNum) v x" using r by auto
    have "c \<in> set (map fst x)" using conforms_keys [OF assms(1) x(1)] map_of_keys [of "columns S p"] c by simp
    then show "num_or_null (get r c)" using IH x c by (simp add: get_fill numeric_rows_def)
  qed
next
  case (FillNaIn d v p)
  then have IH: "numeric_rows (columns S p) (sem E S p df)" by simp
  show ?case unfolding numeric_rows_def
  proof (intro ballI allI impI)
    fix r c assume r: "r \<in> set (sem E S (FillNaIn d v p) df)" and c: "map_of (columns S (FillNaIn d v p)) c = Some TNum"
    obtain x where x: "x \<in> set (sem E S p df)" "r = fill_row (\<lambda>k. k = d \<and> map_of (columns S p) d = Some TNum) v x" using r by auto
    have "c \<in> set (map fst x)" using conforms_keys [OF assms(1) x(1)] map_of_keys [of "columns S p"] c by simp
    then show "num_or_null (get r c)" using IH x c by (simp add: get_fill numeric_rows_def)
  qed
qed (auto simp: numeric_rows_def)

lemma decode_numeric: "numeric_rows S (map (decode_event S) js)"
proof -
  have d: "num_or_null (decode_cell TNum j)" for j by (cases j) auto
  have "num_or_null (get (decode_event S j) c)" if "map_of S c = Some TNum" for j c
    using that d by (induction S) (auto simp: decode_event_def split: option.splits if_splits)
  then show ?thesis by (auto simp: numeric_rows_def)
qed

lemma features_well_typed:
  "well_typed_plan S p \<Longrightarrow> well_typed_plan S (compute_all_features p)"
  "well_typed_plan S p \<Longrightarrow> well_typed_plan S (compute_anomaly_score p)"
  "well_typed_plan S p \<Longrightarrow> well_typed_plan S (full_features p)"
proof -
  assume p: "well_typed_plan S p"
  have parts: "well_typed_plan S (compute_txn_count_5m p)" "well_typed_plan S (compute_avg_spend_1h p)"
    "well_typed_plan S (compute_session_activity_rate p)" "well_typed_plan S (compute_cart_abandon_ratio p)"
    "well_typed_plan S (compute_product_interaction_freq p)"
    using p by (simp_all add: compute_txn_count_5m_def compute_avg_spend_1h_def compute_session_activity_rate_def
        compute_cart_abandon_ratio_def compute_product_interaction_freq_def)
  then have "well_typed_plan S (join_features p)" by (simp add: join_features_def)
  then show all: "well_typed_plan S (compute_all_features p)"
    by (simp add: compute_all_features_def window_type_def)
  show anomaly: "well_typed_plan S (compute_anomaly_score p)"
    using p by (simp add: compute_anomaly_score_def Let_def)
  show "well_typed_plan S (full_features p)" using all anomaly by (simp add: full_features_def)
qed

text \<open>The result of \<open>fillna\<close> on a numeric column is a number.\<close>

lemma filled_number:
  assumes "conforms S df" and "numeric_rows S df" and "well_typed_plan S p" and "x \<in> set (sem E S p df)"
    and "map_of (columns S p) c = Some TNum" and "which c"
  shows "\<exists>y. get (fill_row which v x) c = CNum y"
proof -
  have "c \<in> set (map fst x)" using conforms_keys [OF assms(1,4)] map_of_keys [OF assms(5)] by simp
  moreover have "num_or_null (get x c)" using sem_numeric [OF assms(1-3)] assms(4,5) by (simp add: numeric_rows_def)
  ultimately show ?thesis using assms(6) by (auto simp: get_fill num_or_null_def)
qed

lemma all_features_numbers:
  assumes "conforms S df" and "numeric_rows S df" and "well_typed_plan S p"
    and "r \<in> set (sem E S (compute_all_features p) df)"
    and "c \<in> set [''computed_at'', ''txn_count_5m'', ''avg_spend_1h'', ''session_activity_rate'',
      ''cart_abandon_ratio'', ''product_interaction_freq'']"
  shows "\<exists>y. get r c = CNum y"
proof -
  let ?q = "WithColumn ''computed_at'' (CastDouble (UnixTimestamp CurrentTimestamp))
        (WithColumn ''window_end'' (Field (Col ''window'') ''end'')
         (WithColumn ''window_start'' (Field (Col ''window'') ''start'') (join_features p)))"
  have wt: "well_typed_plan S ?q"
    using features_well_typed(1) [OF assms(3)] by (simp add: compute_all_features_def)
  obtain g where g: "g \<in> set (sem E S (FillNa (Fin 0) ?q) df)" "\<And>c. c \<in> set FEATURE_COLUMNS \<Longrightarrow> get r c = get g c"
    using select_row [OF assms(4) [unfolded compute_all_features_def]] by blast
  obtain x where x: "x \<in> set (sem E S ?q df)" "g = fill_row (\<lambda>c. map_of (columns S ?q) c = Some TNum) (Fin 0) x"
    using g(1) by (auto simp del: columns.simps)
  have "map_of (columns S ?q) c = Some TNum" using assms(5) by (auto simp: window_type_def)
  then have "\<exists>y. get g c = CNum y" unfolding x(2) by (intro filled_number [OF assms(1,2) wt x(1)])
  moreover have "c \<in> set FEATURE_COLUMNS" using assms(5) by (auto simp: FEATURE_COLUMNS_def)
  ultimately show ?thesis using g(2) by metis
qed

text \<open>
  C23. No feature row has a null: every row of the streaming job's result, for any batch of Kafka messages, carries
  a number in each of the six feature columns and in \<open>computed_at\<close>.
\<close>

theorem features_never_null:
  assumes "spark_engine run_plan" and "r \<in> set (run_plan E EVENT_SCHEMA stream_plan (map (decode_event EVENT_SCHEMA) msgs))"
  shows "list_all (\<lambda>c. \<exists>y. get r c = CNum y) (''computed_at'' # feature_names_all)"
proof -
  let ?df = "map (decode_event EVENT_SCHEMA) msgs" and ?S = EVENT_SCHEMA
  note df = decode_conforms [of ?S msgs] decode_numeric [of ?S msgs]
  let ?q = "LeftJoin (compute_all_features stream_events) (Select [''user_id'', ''anomaly_score''] (compute_anomaly_score stream_events))"
  have wt_ev: "well_typed_plan ?S stream_events" by (simp add: stream_events_def)
  have wt: "well_typed_plan ?S ?q" using features_well_typed(3) [OF wt_ev] by (simp add: full_features_def)
  have "r \<in> set (sem E ?S (FillNaIn ''anomaly_score'' (Fin 0) ?q) ?df)"
    using assms spark_engine.run_set unfolding stream_plan_def full_features_def by blast
  then obtain x where x: "x \<in> set (sem E ?S ?q ?df)"
    "r = fill_row (\<lambda>k. k = ''anomaly_score'' \<and> map_of (columns ?S ?q) ''anomaly_score'' = Some TNum) (Fin 0) x"
    by (auto simp del: columns.simps sem.simps(7) simp: sem.simps(9))
  have keys: "map fst x = map fst (columns ?S ?q)" by (rule conforms_keys [OF df(1) x(1)])
  have anomaly: "\<exists>y. get r ''anomaly_score'' = CNum y"
    unfolding x(2) by (rule filled_number [OF df wt x(1)]) (simp_all add: joined_columns_def)
  obtain l where l: "l \<in> set (sem E ?S (compute_all_features stream_events) ?df)"
    "\<And>c. c \<in> set (map fst (columns ?S (compute_all_features stream_events))) \<Longrightarrow> get x c = get l c"
    using left_join_row [OF df(1) x(1)] by metis
  have "\<exists>y. get r c = CNum y" if c: "c \<in> set [''computed_at'', ''txn_count_5m'', ''avg_spend_1h'', ''session_activity_rate'',
      ''cart_abandon_ratio'', ''product_interaction_freq'']" for c
  proof -
    have "c \<in> set (map fst x)" "c \<noteq> ''anomaly_score''" using c by (auto simp: keys)
    then have "get r c = get x c" by (simp add: x(2) get_fill)
    also have "\<dots> = get l c" by (rule l(2)) (use c in auto)
    finally show ?thesis using all_features_numbers [OF df wt_ev l(1) c] by simp
  qed
  with anomaly show ?thesis by (simp add: feature_names_all_def)
qed

definition purchase_msg :: json where
  "purchase_msg = JObj [(''user_id'', JStr ''usr_00001''), (''event_type'', JStr ''purchase''), (''timestamp'', JTime (Fin 0))]"

lemma features_never_null_witness:
  "\<exists>r \<in> set (sem sample_env EVENT_SCHEMA stream_plan [decode_event EVENT_SCHEMA purchase_msg]).
     \<exists>y. get r ''anomaly_score'' = CNum y"
proof -
  let ?e = "decode_event EVENT_SCHEMA purchase_msg"
  let ?rows = "sem sample_env EVENT_SCHEMA stream_plan (map (decode_event EVENT_SCHEMA) [purchase_msg])"
  have p: "is_purchase_of ''usr_00001'' ?e"
    by (simp add: is_purchase_of_def decode_event_def purchase_msg_def EVENT_SCHEMA_def has_type_def timed_def)
  have c: "conforms EVENT_SCHEMA [?e]" using decode_conforms [of EVENT_SCHEMA "[purchase_msg]"] by simp
  have "length ?rows = 3456" using single_full [OF p c, of sample_env] by (simp del: sem.simps)
  then have "?rows \<noteq> []" by (simp flip: length_greater_0_conv del: sem.simps)
  then have "hd ?rows \<in> set ?rows" by simp
  with features_never_null [OF sem_engine this] show ?thesis
    by (auto simp: feature_names_all_def intro!: bexI [of _ "hd ?rows"])
qed

end
