(* ===== verification/Job_Parity.thy ===== *)
theory Job_Parity
  imports Features
begin

text \<open>
  Training-serving parity: the streaming job (\<open>streaming/feature_processor.py\<close>) and the backfill
  (\<open>offline_store/backfill.py\<close>) compute the same features from the same events. The two jobs decode messages with
  different schemas and filter them differently; both feed the shared definitions, which read only \<open>COMMON\<close>.
\<close>

subsection \<open>Rows that agree on some columns\<close>

definition same_on :: "string list \<Rightarrow> row \<Rightarrow> row \<Rightarrow> bool" where
  "same_on C x y \<longleftrightarrow> (\<forall>c \<in> set C. get x c = get y c)"

definition agree :: "string list \<Rightarrow> row list \<Rightarrow> row list \<Rightarrow> bool" where
  "agree C xs ys \<longleftrightarrow> list_all2 (same_on C) xs ys"

text \<open>An expression that depends on these columns only.\<close>

definition reads :: "string list \<Rightarrow> expr \<Rightarrow> bool" where
  "reads C e \<longleftrightarrow> (\<forall>E x y. same_on C x y \<longrightarrow> eval E x e = eval E y e)"

fun agg_reads :: "string list \<Rightarrow> agg \<Rightarrow> bool" where
  "agg_reads C CountAll \<longleftrightarrow> True"
| "agg_reads C (CountDistinct c) \<longleftrightarrow> c \<in> set C"
| "agg_reads C (AvgOf c) \<longleftrightarrow> c \<in> set C"
| "agg_reads C (SumOf e) \<longleftrightarrow> reads C e"
| "agg_reads C (StddevOf c) \<longleftrightarrow> c \<in> set C"

lemma agree_map:
  assumes "agree C xs ys" and "\<And>x y. same_on C x y \<Longrightarrow> f x = g y"
  shows "map f xs = map g ys"
  using assms(1) unfolding agree_def by (induction rule: list_all2_induct) (auto simp: assms(2))

lemma agree_filter:
  assumes "agree C xs ys" and "\<And>x y. same_on C x y \<Longrightarrow> P x = Q y"
  shows "agree C (filter P xs) (filter Q ys)"
  using assms(1) unfolding agree_def by (induction rule: list_all2_induct) (auto simp: assms(2))

lemma agree_length: "agree C xs ys \<Longrightarrow> length xs = length ys"
  by (simp add: agree_def list_all2_lengthD)

lemma agree_column: "agree C xs ys \<Longrightarrow> c \<in> set C \<Longrightarrow> map (\<lambda>r. get r c) xs = map (\<lambda>r. get r c) ys"
  by (rule agree_map) (auto simp: same_on_def)

lemma agree_aggregate:
  assumes "agree C xs ys" and "agg_reads C g"
  shows "aggregate E xs g = aggregate E ys g"
proof (cases g)
  case (SumOf e)
  then have "map (\<lambda>r. eval E r e) xs = map (\<lambda>r. eval E r e) ys"
    using assms by (intro agree_map [OF assms(1)]) (auto simp: reads_def)
  then show ?thesis using SumOf by simp
qed (use assms agree_length agree_column [OF assms(1)] in auto)

lemma agree_group_window:
  assumes "agree C xs ys" and "''user_id'' \<in> set C" and "''timestamp'' \<in> set C" and "list_all (agg_reads C \<circ> snd) as"
  shows "group_window E d s as xs = group_window E d s as ys"
proof -
  have windows: "row_windows d s x = row_windows d s y" "get x ''user_id'' = get y ''user_id''" if "same_on C x y" for x y
    using that assms(2,3) by (auto simp: same_on_def row_windows_def)
  have "map (\<lambda>r. map (\<lambda>a. (get r ''user_id'', a)) (row_windows d s r)) xs
      = map (\<lambda>r. map (\<lambda>a. (get r ''user_id'', a)) (row_windows d s r)) ys"
    using windows by (intro agree_map [OF assms(1)]) simp
  then have "window_keys d s xs = window_keys d s ys" by (simp add: window_keys_def)
  moreover have "agree C (in_window d s u a xs) (in_window d s u a ys)" for u a
    unfolding in_window_def using windows by (intro agree_filter [OF assms(1)]) simp
  then have "map (\<lambda>(c, g). (c, aggregate E (in_window d s u a xs) g)) as
      = map (\<lambda>(c, g). (c, aggregate E (in_window d s u a ys) g)) as" for u a
    using assms(4) agree_aggregate by (fastforce simp: list_all_iff)
  ultimately show ?thesis by (auto simp: group_window_def split: prod.splits)
qed

subsection \<open>The shared definitions read the common columns\<close>

definition COMMON :: "string list" where
  "COMMON = [''user_id'', ''session_id'', ''event_type'', ''timestamp'', ''transaction_amount'']"

lemma COMMON_set [simp]: "c \<in> set COMMON \<longleftrightarrow>
    c = ''user_id'' \<or> c = ''session_id'' \<or> c = ''event_type'' \<or> c = ''timestamp'' \<or> c = ''transaction_amount''"
  by (auto simp: COMMON_def)

lemma reads_simps [simp]:
  "reads COMMON (event_is t)" "reads COMMON (one_if t)" "reads COMMON (IsIn (Col ''event_type'') ts)"
  by (auto simp: reads_def same_on_def event_is_def one_if_def)

lemma agree_events:
  assumes "agree COMMON (sem E S p df) (sem E S' p' df')" and "reads COMMON e"
  shows "agree COMMON (sem E S (Filter e p) df) (sem E S' (Filter e p') df')"
  using assms(2) agree_filter [OF assms(1)] by (auto simp: reads_def)

lemma agree_grouped:
  assumes "agree COMMON (sem E S p df) (sem E S' p' df')" and "list_all (agg_reads COMMON \<circ> snd) as"
  shows "sem E S (GroupWindow d s as p) df = sem E S' (GroupWindow d s as p') df'"
  using agree_group_window [OF assms(1) _ _ assms(2)] by simp

lemma parity_features:
  assumes "agree COMMON (sem E S p df) (sem E S' p' df')"
  shows "sem E S (compute_txn_count_5m p) df = sem E S' (compute_txn_count_5m p') df'"
    and "sem E S (compute_avg_spend_1h p) df = sem E S' (compute_avg_spend_1h p') df'"
    and "sem E S (compute_session_activity_rate p) df = sem E S' (compute_session_activity_rate p') df'"
    and "sem E S (compute_cart_abandon_ratio p) df = sem E S' (compute_cart_abandon_ratio p') df'"
    and "sem E S (compute_product_interaction_freq p) df = sem E S' (compute_product_interaction_freq p') df'"
    and "sem E S (compute_anomaly_score p) df = sem E S' (compute_anomaly_score p') df'"
proof -
  note ev = agree_events [OF assms] and gr = agree_grouped
  have purchases: "agree COMMON (sem E S (Filter (event_is ''purchase'') p) df) (sem E S' (Filter (event_is ''purchase'') p') df')"
    and views: "agree COMMON (sem E S (Filter (event_is ''page_view'') p) df) (sem E S' (Filter (event_is ''page_view'') p') df')"
    and carts: "agree COMMON (sem E S (Filter (IsIn (Col ''event_type'') [''add_to_cart'', ''purchase'']) p) df)
      (sem E S' (Filter (IsIn (Col ''event_type'') [''add_to_cart'', ''purchase'']) p') df')"
    by (rule ev, simp)+
  show "sem E S (compute_txn_count_5m p) df = sem E S' (compute_txn_count_5m p') df'"
    by (simp add: compute_txn_count_5m_def gr [OF purchases] del: sem.simps(3) sem.simps(2))
  show "sem E S (compute_avg_spend_1h p) df = sem E S' (compute_avg_spend_1h p') df'"
    by (simp add: compute_avg_spend_1h_def gr [OF purchases] del: sem.simps(3) sem.simps(2))
  show "sem E S (compute_session_activity_rate p) df = sem E S' (compute_session_activity_rate p') df'"
    by (simp add: compute_session_activity_rate_def gr [OF assms] del: sem.simps(3) sem.simps(2))
  show "sem E S (compute_cart_abandon_ratio p) df = sem E S' (compute_cart_abandon_ratio p') df'"
    by (simp add: compute_cart_abandon_ratio_def gr [OF carts] del: sem.simps(3) sem.simps(2))
  show "sem E S (compute_product_interaction_freq p) df = sem E S' (compute_product_interaction_freq p') df'"
    by (simp add: compute_product_interaction_freq_def gr [OF views] del: sem.simps(3) sem.simps(2))
  show "sem E S (compute_anomaly_score p) df = sem E S' (compute_anomaly_score p') df'"
    by (simp add: compute_anomaly_score_def Let_def joined_columns_def gr [OF purchases] del: sem.simps(3) sem.simps(2))
qed

lemma parity_join:
  assumes "agree COMMON (sem E S p df) (sem E S' p' df')"
  shows "sem E S (join_features p) df = sem E S' (join_features p') df'"
  by (simp add: join_features_def joined_columns_def parity_features [OF assms])

lemma parity_all:
  assumes "agree COMMON (sem E S p df) (sem E S' p' df')"
  shows "sem E S (compute_all_features p) df = sem E S' (compute_all_features p') df'"
  by (simp add: compute_all_features_def parity_join [OF assms])

lemma parity_full:
  assumes "agree COMMON (sem E S p df) (sem E S' p' df')"
  shows "sem E S (full_features p) df = sem E S' (full_features p') df'"
  by (simp add: full_features_def joined_columns_def parity_all [OF assms] parity_features(6) [OF assms])

subsection \<open>The two decodings\<close>

lemma get_decode:
  "get (decode_event S j) c = (case map_of S c of None \<Rightarrow> CNull
    | Some t \<Rightarrow> (case obj_field c j of None \<Rightarrow> CNull | Some x \<Rightarrow> decode_cell t x))"
proof (induction S)
  case Nil
  then show ?case by (simp add: decode_event_def)
next
  case (Cons p S)
  obtain k t where "p = (k, t)" by (cases p)
  with Cons show ?case by (cases "k = c") (simp_all add: decode_event_def)
qed

lemma decode_same: "same_on COMMON (decode_event EVENT_SCHEMA j) (decode_event BACKFILL_SCHEMA j)"
  by (simp add: same_on_def get_decode EVENT_SCHEMA_def BACKFILL_SCHEMA_def COMMON_def)

text \<open>The messages whose event time lies in the range of a backfill.\<close>

definition in_range :: "int \<Rightarrow> int \<Rightarrow> json \<Rightarrow> bool" where
  "in_range a b j \<longleftrightarrow> (case get (decode_event EVENT_SCHEMA j) ''timestamp'' of CTime t \<Rightarrow> a \<le> t \<and> t \<le> b | _ \<Rightarrow> False)"

lemma range_events:
  "agree COMMON (sem E EVENT_SCHEMA stream_events (map (decode_event EVENT_SCHEMA) (filter (in_range a b) msgs)))
     (sem E BACKFILL_SCHEMA (backfill_events a b) (map (decode_event BACKFILL_SCHEMA) msgs))"
proof (induction msgs)
  case Nil
  then show ?case by (simp add: agree_def stream_events_def backfill_events_def)
next
  case (Cons j msgs)
  have "get (decode_event EVENT_SCHEMA j) c = get (decode_event BACKFILL_SCHEMA j) c" if "c \<in> set COMMON" for c
    using decode_same [of j] that by (simp add: same_on_def)
  then have "get (decode_event BACKFILL_SCHEMA j) ''user_id'' = get (decode_event EVENT_SCHEMA j) ''user_id''"
    and "get (decode_event BACKFILL_SCHEMA j) ''timestamp'' = get (decode_event EVENT_SCHEMA j) ''timestamp''"
    by simp_all
  then show ?case using Cons decode_same [of j]
    by (auto simp: agree_def stream_events_def backfill_events_def in_range_def split: cell.splits)
qed

text \<open>What the backfill puts into \<open>computed_at\<close>: the start of the row's window.\<close>

definition restamped :: "spark_env \<Rightarrow> row \<Rightarrow> row" where
  "restamped E r = AList.update ''computed_at'' (eval E r (CastDouble (UnixTimestamp (Col ''window_start'')))) r"

lemma backfill_rows:
  "sem E BACKFILL_SCHEMA (backfill_plan a b) (map (decode_event BACKFILL_SCHEMA) msgs)
   = map (restamped E) (sem E EVENT_SCHEMA stream_plan (map (decode_event EVENT_SCHEMA) (filter (in_range a b) msgs)))"
  by (simp add: backfill_plan_def stream_plan_def restamped_def parity_full [OF range_events])

lemma purchase_in_range: "filter (in_range 0 10) [purchase_msg] = [purchase_msg]"
  by (simp add: in_range_def decode_event_def purchase_msg_def EVENT_SCHEMA_def)

lemma purchase_stream_length:
  "length (sem E EVENT_SCHEMA stream_plan (map (decode_event EVENT_SCHEMA) [purchase_msg])) = 3456"
proof -
  let ?e = "decode_event EVENT_SCHEMA purchase_msg"
  have p: "is_purchase_of ''usr_00001'' ?e"
    by (simp add: is_purchase_of_def decode_event_def purchase_msg_def EVENT_SCHEMA_def has_type_def timed_def)
  have c: "conforms EVENT_SCHEMA [?e]" using decode_conforms [of EVENT_SCHEMA "[purchase_msg]"] by simp
  show ?thesis using single_full [OF p c, of E] by (simp del: sem.simps)
qed

lemma purchase_backfill_length:
  "length (sem E BACKFILL_SCHEMA (backfill_plan 0 10) (map (decode_event BACKFILL_SCHEMA) [purchase_msg])) = 3456"
  unfolding backfill_rows purchase_in_range using purchase_stream_length [of E] by (simp del: sem.simps)

text \<open>
  C13. Training-serving parity: for any messages, the backfill of a range yields exactly the rows the streaming query
  yields on the messages of that range, with every value the same but \<open>computed_at\<close>, which is the window's start instead
  of the time of the run.
\<close>

theorem stream_backfill_parity:
  assumes "spark_engine run_plan"
  shows "mset (run_plan E BACKFILL_SCHEMA (backfill_plan a b) (map (decode_event BACKFILL_SCHEMA) msgs))
    = image_mset (restamped E)
        (mset (run_plan E EVENT_SCHEMA stream_plan (map (decode_event EVENT_SCHEMA) (filter (in_range a b) msgs))))"
  using spark_engine.run_sem [OF assms] by (simp add: backfill_rows)

lemma stream_backfill_parity_witness:
  "length (sem sample_env BACKFILL_SCHEMA (backfill_plan 0 10) (map (decode_event BACKFILL_SCHEMA) [purchase_msg])) = 3456"
proof -
  have "size (mset (sem sample_env BACKFILL_SCHEMA (backfill_plan 0 10) (map (decode_event BACKFILL_SCHEMA) [purchase_msg])))
      = size (mset (sem sample_env EVENT_SCHEMA stream_plan (map (decode_event EVENT_SCHEMA) [purchase_msg])))"
    unfolding stream_backfill_parity [OF sem_engine] purchase_in_range by simp
  then show ?thesis using purchase_stream_length [of sample_env] by (simp del: sem.simps)
qed

end
