(* ===== verification/Delta.thy ===== *)
theory Delta
  imports Spark "HOL-Library.Multiset"
begin

text \<open>
  The interface to Delta Lake. The library is not part of the repository: what the code calls is the record
  \<open>delta\<close>, and the locale \<open>delta_lake\<close> states what the code relies on, in terms of the commits of each table, oldest
  first, the rows appended to each parquet directory, and the clock. A write commits as a whole or not at all; a merge
  with whenMatchedUpdateAll and whenNotMatchedInsertAll replaces every target row by its source row, inserts the source
  rows without a target, and raises when a target row has two source rows; a read returns the snapshot asked for.
  \<open>ref_delta\<close> satisfies the contract and computes.
\<close>

subsection \<open>Merging\<close>

definition same_key :: "string list \<Rightarrow> row \<Rightarrow> row \<Rightarrow> bool" where
  "same_key ks t s \<longleftrightarrow> list_all (\<lambda>k. sp_equal (get t k) (get s k) = CBool True) ks"

definition ambiguous :: "string list \<Rightarrow> row list \<Rightarrow> row list \<Rightarrow> bool" where
  "ambiguous ks old src \<longleftrightarrow> list_ex (\<lambda>t. 2 \<le> length (filter (same_key ks t) src)) old"

definition merged_row :: "string list \<Rightarrow> row list \<Rightarrow> row \<Rightarrow> row" where
  "merged_row ks src t = (case filter (same_key ks t) src of [] \<Rightarrow> t | s # ss \<Rightarrow> s)"

definition merged :: "string list \<Rightarrow> row list \<Rightarrow> row list \<Rightarrow> row list" where
  "merged ks old src =
     map (merged_row ks src) old @ filter (\<lambda>s. \<not> list_ex (\<lambda>t. same_key ks t s) old) src"

lemma sp_equal_True: "sp_equal x y = CBool True \<longleftrightarrow> x = y \<and> x \<noteq> CNull"
  by (cases x; cases y) auto

lemma same_key_iff: "same_key ks t s \<longleftrightarrow> (\<forall>k \<in> set ks. get t k = get s k \<and> get t k \<noteq> CNull)"
  by (auto simp: same_key_def list_all_iff sp_equal_True)

lemma short_filter:
  assumes "\<not> 2 \<le> length (filter P xs)" and "x \<in> set xs" and "P x"
  shows "filter P xs = [x]"
proof -
  have "x \<in> set (filter P xs)" using assms(2,3) by simp
  then obtain y ys where f: "filter P xs = y # ys" by (cases "filter P xs") auto
  with assms(1) have "ys = []" by (cases ys) auto
  with f \<open>x \<in> set (filter P xs)\<close> show ?thesis by simp
qed

lemma merged_contains:
  assumes "\<not> ambiguous ks old src" and "s \<in> set src"
  shows "s \<in> set (merged ks old src)"
proof (cases "list_ex (\<lambda>t. same_key ks t s) old")
  case True
  then obtain t where t: "t \<in> set old" "same_key ks t s" by (auto simp: list_ex_iff)
  have "filter (same_key ks t) src = [s]"
    using assms t by (intro short_filter) (auto simp: ambiguous_def list_ex_iff)
  then have "merged_row ks src t = s" by (simp add: merged_row_def)
  then show ?thesis using t(1) by (force simp: merged_def)
next
  case False
  then show ?thesis using assms(2) by (simp add: merged_def)
qed

text \<open>After a merge, a row with the key of a source row is that source row.\<close>

lemma merged_key:
  assumes "\<not> ambiguous ks old src" and "r \<in> set (merged ks old src)" and "s \<in> set src" and "same_key ks r s"
    and "\<forall>t \<in> set src. same_key ks t s \<longrightarrow> t = s"
  shows "r = s"
proof -
  consider t where "t \<in> set old" "r = merged_row ks src t" | "r \<in> set src"
    using assms(2) by (auto simp: merged_def)
  then show ?thesis
  proof cases
    case 1
    show ?thesis
    proof (cases "filter (same_key ks t) src")
      case Nil
      then have "r = t" using 1 by (simp add: merged_row_def)
      then have "s \<in> set (filter (same_key ks t) src)" using assms(3,4) by simp
      then show ?thesis using Nil by simp
    next
      case (Cons s' ss)
      then have "r = s'" and "s' \<in> set src" using 1 by (auto simp: merged_row_def filter_eq_Cons_iff)
      then show ?thesis using assms(4,5) by simp
    qed
  next
    case 2
    then show ?thesis using assms(4,5) by simp
  qed
qed

subsection \<open>Snapshots\<close>

datatype snapshot = Latest | VersionAsOf nat | TimestampAsOf int

type_synonym history = "(int \<times> row list) list"

fun snapshot_of :: "snapshot \<Rightarrow> history \<Rightarrow> row list option" where
  "snapshot_of Latest cs = (if cs = [] then None else Some (snd (last cs)))"
| "snapshot_of (VersionAsOf n) cs = (if n < length cs then Some (snd (cs ! n)) else None)"
| "snapshot_of (TimestampAsOf t) cs =
     (let es = filter (\<lambda>(c, rows). c \<le> t) cs in if es = [] then None else Some (snd (last es)))"

definition contents :: "history \<Rightarrow> row list" where
  "contents cs = (if cs = [] then [] else snd (last cs))"

lemma contents_snoc [simp]: "contents (cs @ [(t, rows)]) = rows"
  by (simp add: contents_def)

lemma snapshot_later: "t < c \<Longrightarrow> snapshot_of (TimestampAsOf t) (cs @ [(c, rows)]) = snapshot_of (TimestampAsOf t) cs"
  by (simp add: Let_def)

lemma version_later: "n < length cs \<Longrightarrow> snapshot_of (VersionAsOf n) (cs @ es) = snapshot_of (VersionAsOf n) cs"
  by (simp add: nth_append)

subsection \<open>The operations and their contract\<close>

record 'd delta =
  dl_is_table :: "string \<Rightarrow> 'd \<Rightarrow> exn + bool"
  dl_merge :: "string list \<Rightarrow> string \<Rightarrow> row list \<Rightarrow> 'd \<Rightarrow> (exn + unit) \<times> 'd"
  dl_save :: "string \<Rightarrow> string list \<Rightarrow> string \<Rightarrow> row list \<Rightarrow> 'd \<Rightarrow> (exn + unit) \<times> 'd"
  dl_parquet :: "string list \<Rightarrow> string \<Rightarrow> row list \<Rightarrow> 'd \<Rightarrow> (exn + unit) \<times> 'd"
  dl_load :: "snapshot \<Rightarrow> string \<Rightarrow> 'd \<Rightarrow> exn + row list"

locale delta_lake =
  fixes D :: "'d delta" and commits :: "'d \<Rightarrow> string \<Rightarrow> history"
    and fallback :: "'d \<Rightarrow> string \<Rightarrow> row list" and clock :: "'d \<Rightarrow> int"
  assumes is_table: "dl_is_table D p d = Inr b \<Longrightarrow> b \<longleftrightarrow> commits d p \<noteq> []"
    and merge_ok: "dl_merge D ks p src d = (Inr (), d') \<Longrightarrow> \<not> ambiguous ks (contents (commits d p)) src
      \<and> (\<exists>t rows. clock d \<le> t \<and> mset rows = mset (merged ks (contents (commits d p)) src)
           \<and> commits d' = (commits d)(p := commits d p @ [(t, rows)])) \<and> fallback d' = fallback d"
    and merge_raised: "dl_merge D ks p src d = (Inl e, d') \<Longrightarrow> commits d' = commits d \<and> fallback d' = fallback d"
    and append_ok: "dl_save D ''append'' parts p new d = (Inr (), d') \<Longrightarrow>
      (\<exists>t rows. clock d \<le> t \<and> mset rows = mset (contents (commits d p) @ new)
         \<and> commits d' = (commits d)(p := commits d p @ [(t, rows)])) \<and> fallback d' = fallback d"
    and overwrite_ok: "dl_save D ''overwrite'' parts p new d = (Inr (), d') \<Longrightarrow>
      (\<exists>t rows. clock d \<le> t \<and> mset rows = mset new
         \<and> commits d' = (commits d)(p := commits d p @ [(t, rows)])) \<and> fallback d' = fallback d"
    and save_raised: "dl_save D mode parts p new d = (Inl e, d') \<Longrightarrow> commits d' = commits d \<and> fallback d' = fallback d"
    and parquet_ok: "dl_parquet D parts p new d = (Inr (), d') \<Longrightarrow> commits d' = commits d
      \<and> mset (fallback d' p) = mset (fallback d p @ new) \<and> (\<forall>q. q \<noteq> p \<longrightarrow> fallback d' q = fallback d q)"
    and parquet_raised: "dl_parquet D parts p new d = (Inl e, d') \<Longrightarrow> commits d' = commits d"
    and load_snapshot: "dl_load D sn p d = Inr rows \<Longrightarrow>
      \<exists>x. snapshot_of sn (commits d p) = Some x \<and> mset rows = mset x"
begin

text \<open>A write, whatever its outcome, leaves the snapshots of every earlier instant as they were.\<close>

lemma save_past:
  assumes "dl_save D ''append'' parts p new d = (r, d')" and "t < clock d"
  shows "snapshot_of (TimestampAsOf t) (commits d' q) = snapshot_of (TimestampAsOf t) (commits d q)"
proof (cases r)
  case (Inl e)
  then show ?thesis using assms(1) save_raised by fastforce
next
  case (Inr u)
  then obtain c rows where "clock d \<le> c" "commits d' = (commits d)(p := commits d p @ [(c, rows)])"
    using assms(1) append_ok [of parts p new d d'] by auto
  then show ?thesis using assms(2) snapshot_later [of t c] by (auto simp del: snapshot_of.simps)
qed

text \<open>A merge whose keys are ambiguous raises.\<close>

lemma ambiguous_raises:
  assumes "ambiguous ks (contents (commits d p)) src"
  obtains e d' where "dl_merge D ks p src d = (Inl e, d')" "commits d' = commits d" "fallback d' = fallback d"
proof -
  obtain r d' where m: "dl_merge D ks p src d = (r, d')" by fastforce
  then obtain e where "r = Inl e" using assms merge_ok [of ks p src d d'] by (cases r) auto
  then show ?thesis using that m merge_raised [of ks p src d e d'] by blast
qed

end

subsection \<open>A lake that satisfies the contract\<close>

text \<open>While \<open>lk_down\<close> is positive a save or merge fails, and uses one of these failures up.\<close>

record ref_lake =
  lk_commits :: "string \<Rightarrow> history"
  lk_fallback :: "string \<Rightarrow> row list"
  lk_clock :: int
  lk_down :: nat

definition lake_commit :: "string \<Rightarrow> row list \<Rightarrow> ref_lake \<Rightarrow> (exn + unit) \<times> ref_lake" where
  "lake_commit p rows d =
     (if 0 < lk_down d then (Inl DeltaError, d\<lparr>lk_down := lk_down d - 1\<rparr>)
      else (Inr (), d\<lparr>lk_commits := (lk_commits d)(p := lk_commits d p @ [(lk_clock d, rows)]),
        lk_clock := lk_clock d + 1\<rparr>))"

definition ref_delta :: "ref_lake delta" where
  "ref_delta = \<lparr>
     dl_is_table = (\<lambda>p d. Inr (lk_commits d p \<noteq> [])),
     dl_merge = (\<lambda>ks p src d. if ambiguous ks (contents (lk_commits d p)) src then (Inl DeltaError, d)
       else lake_commit p (merged ks (contents (lk_commits d p)) src) d),
     dl_save = (\<lambda>mode parts p new d.
       if mode = ''append'' then lake_commit p (contents (lk_commits d p) @ new) d
       else if mode = ''overwrite'' then lake_commit p new d else (Inl DeltaError, d)),
     dl_parquet = (\<lambda>parts p new d. (Inr (), d\<lparr>lk_fallback := (lk_fallback d)(p := lk_fallback d p @ new)\<rparr>)),
     dl_load = (\<lambda>sn p d. case snapshot_of sn (lk_commits d p) of None \<Rightarrow> Inl DeltaError | Some x \<Rightarrow> Inr x)\<rparr>"

definition empty_lake :: ref_lake where
  "empty_lake = \<lparr>lk_commits = (\<lambda>p. []), lk_fallback = (\<lambda>p. []), lk_clock = 100, lk_down = 0\<rparr>"

lemma lake_commit_ok:
  assumes "lake_commit p rows d = (Inr (), d')"
  shows "(\<exists>t rs. lk_clock d \<le> t \<and> mset rs = mset rows
      \<and> lk_commits d' = (lk_commits d)(p := lk_commits d p @ [(t, rs)])) \<and> lk_fallback d' = lk_fallback d"
proof
  show "lk_fallback d' = lk_fallback d" using assms by (auto simp: lake_commit_def split: if_splits)
  have "lk_commits d' = (lk_commits d)(p := lk_commits d p @ [(lk_clock d, rows)])"
    using assms by (auto simp: lake_commit_def split: if_splits)
  then show "\<exists>t rs. lk_clock d \<le> t \<and> mset rs = mset rows
      \<and> lk_commits d' = (lk_commits d)(p := lk_commits d p @ [(t, rs)])"
    by (intro exI [of _ "lk_clock d"] exI [of _ rows]) simp
qed

lemma ref_delta_lake: "delta_lake ref_delta lk_commits lk_fallback lk_clock"
proof (unfold_locales, goal_cases)
  case (1 p d b)
  then show ?case by (simp add: ref_delta_def)
next
  case (2 ks p src d d')
  then have "\<not> ambiguous ks (contents (lk_commits d p)) src"
    and "lake_commit p (merged ks (contents (lk_commits d p)) src) d = (Inr (), d')"
    by (auto simp: ref_delta_def split: if_splits)
  then show ?case using lake_commit_ok by blast
next
  case (3 ks p src d e d')
  then show ?case by (auto simp: ref_delta_def lake_commit_def split: if_splits)
next
  case (4 parts p new d d')
  then have "lake_commit p (contents (lk_commits d p) @ new) d = (Inr (), d')" by (simp add: ref_delta_def)
  then show ?case by (rule lake_commit_ok)
next
  case (5 parts p new d d')
  then have "lake_commit p new d = (Inr (), d')" by (simp add: ref_delta_def)
  then show ?case by (rule lake_commit_ok)
next
  case (6 mode parts p new d e d')
  then show ?case by (auto simp: ref_delta_def lake_commit_def split: if_splits)
next
  case (7 parts p new d d')
  then show ?case by (auto simp: ref_delta_def)
next
  case (8 parts p new d e d')
  then show ?case by (auto simp: ref_delta_def)
next
  case (9 sn p d rows)
  then show ?case by (auto simp: ref_delta_def simp del: snapshot_of.simps split: option.splits)
qed

interpretation ref_lake: delta_lake ref_delta lk_commits lk_fallback lk_clock
  by (rule ref_delta_lake)

end
