(* ===== verification/Offline_Store.thy ===== *)
theory Offline_Store
  imports Job_Parity Delta
begin

text \<open>
  The offline store, \<open>offline_store/\<close>: its configuration, the partition columns (\<open>partitioning.py\<close>), the writer
  (\<open>delta_writer.py\<close>), the point-in-time reader (\<open>delta_reader.py\<close>) and the backfill job (\<open>backfill.py\<close>), over
  Spark (\<open>run_plan\<close>) and Delta Lake (\<open>D\<close>) as parameters with their contracts.
\<close>

subsection \<open>Configuration and partitions\<close>

record offline_config =
  of_delta_table_path :: string
  of_spark_master_url :: string
  of_spark_checkpoint_dir :: string
  of_kafka_bootstrap_servers :: string

definition offline_config_default :: offline_config where
  "offline_config_default = \<lparr>
     of_delta_table_path = ''/data/feature_store'',
     of_spark_master_url = ''local[*]'',
     of_spark_checkpoint_dir = ''/tmp/spark-checkpoints'',
     of_kafka_bootstrap_servers = ''localhost:9092''\<rparr>"

definition table_path :: "offline_config \<Rightarrow> string" where
  "table_path cfg = of_delta_table_path cfg @ ''/user_features''"

definition add_partition_columns :: "plan \<Rightarrow> plan" where
  "add_partition_columns df =
     WithColumn ''user_prefix'' (Substring (Col ''user_id'') 1 3)
       (WithColumn ''event_date'' (ToDate (FromUnixtime (Col ''computed_at''))) df)"

definition quoted :: "string \<Rightarrow> string" where
  "quoted s = [CHR 0x27] @ s @ [CHR 0x27]"

definition partition_predicate :: "string \<Rightarrow> string option \<Rightarrow> string" where
  "partition_predicate date_str user_prefix =
     (let predicate = ''event_date = '' @ quoted date_str
      in case user_prefix of
           None \<Rightarrow> predicate
         | Some u \<Rightarrow> if u = [] then predicate else predicate @ '' AND user_prefix = '' @ quoted u)"

subsection \<open>Writing\<close>

text \<open>\<open>write_features\<close> of the writer: \<open>p\<close> is the DataFrame to write, a query over \<open>df\<close>.\<close>

definition delta_write_features ::
  "'d delta \<Rightarrow> (spark_env \<Rightarrow> schema \<Rightarrow> plan \<Rightarrow> row list \<Rightarrow> row list) \<Rightarrow> spark_env \<Rightarrow> offline_config \<Rightarrow> string
   \<Rightarrow> schema \<Rightarrow> plan \<Rightarrow> row list \<Rightarrow> 'd \<Rightarrow> (exn + unit) \<times> 'd" where
  "delta_write_features D run_plan E cfg mode S p df d =
     dl_save D mode [''event_date'', ''user_prefix''] (table_path cfg) (run_plan E S (add_partition_columns p) df) d"

definition optimize_sql :: "offline_config \<Rightarrow> string" where
  "optimize_sql cfg = CHR 0x0A # ''        OPTIMIZE delta.`'' @ table_path cfg @ ''`''
     @ CHR 0x0A # ''        ZORDER BY (user_id, computed_at)'' @ CHR 0x0A # ''    ''"

text \<open>
  The backfill: \<open>kafka\<close> reads the topic from the given offsets to its end, each message as the JSON document its
  value spells.
\<close>

definition run_backfill ::
  "'d delta \<Rightarrow> (spark_env \<Rightarrow> schema \<Rightarrow> plan \<Rightarrow> row list \<Rightarrow> row list) \<Rightarrow> spark_env \<Rightarrow> (string \<Rightarrow> exn + json list)
   \<Rightarrow> offline_config \<Rightarrow> int \<Rightarrow> int \<Rightarrow> string \<Rightarrow> 'd \<Rightarrow> (exn + unit) \<times> 'd" where
  "run_backfill D run_plan E kafka cfg start_date end_date starting_offsets d =
     (case kafka starting_offsets of
        Inl e \<Rightarrow> (Inl e, d)
      | Inr raw \<Rightarrow>
          delta_write_features D run_plan E cfg ''append'' BACKFILL_SCHEMA (backfill_plan start_date end_date)
            (map (decode_event BACKFILL_SCHEMA) raw) d)"

subsection \<open>Reading\<close>

definition read_features_at :: "'d delta \<Rightarrow> offline_config \<Rightarrow> int option \<Rightarrow> nat option \<Rightarrow> 'd \<Rightarrow> exn + row list" where
  "read_features_at D cfg as_of version d =
     (let reader = (case version of
           Some v \<Rightarrow> VersionAsOf v
         | None \<Rightarrow> (case as_of of Some t \<Rightarrow> TimestampAsOf t | None \<Rightarrow> Latest))
      in dl_load D reader (table_path cfg) d)"

definition TRAINING_COLUMNS :: "string list" where
  "TRAINING_COLUMNS = [''user_id'', ''txn_count_5m'', ''avg_spend_1h'', ''session_activity_rate'', ''cart_abandon_ratio'',
     ''product_interaction_freq'', ''anomaly_score'', ''computed_at'', ''event_date'']"

definition OFFLINE_SCHEMA :: schema where
  "OFFLINE_SCHEMA = columns BACKFILL_SCHEMA (add_partition_columns (backfill_plan 0 0))"

definition training_plan :: "string list option \<Rightarrow> plan" where
  "training_plan user_ids =
     (let df = (case user_ids of
           None \<Rightarrow> Events
         | Some us \<Rightarrow> if us = [] then Events else Filter (IsIn (Col ''user_id'') us) Events)
      in Select TRAINING_COLUMNS df)"

definition read_features_for_training ::
  "'d delta \<Rightarrow> (spark_env \<Rightarrow> schema \<Rightarrow> plan \<Rightarrow> row list \<Rightarrow> row list) \<Rightarrow> spark_env \<Rightarrow> offline_config \<Rightarrow> int
   \<Rightarrow> string list option \<Rightarrow> 'd \<Rightarrow> exn + row list" where
  "read_features_for_training D run_plan E cfg as_of user_ids d =
     ebind (read_features_at D cfg (Some as_of) None d) (\<lambda>df.
       Inr (run_plan E OFFLINE_SCHEMA (training_plan user_ids) df))"

definition history_sql :: "offline_config \<Rightarrow> nat \<Rightarrow> string" where
  "history_sql cfg limit = ''DESCRIBE HISTORY delta.`'' @ table_path cfg @ ''` LIMIT '' @ decimal limit"

subsection \<open>What a training read returns\<close>

definition in_cohort :: "string list option \<Rightarrow> row \<Rightarrow> bool" where
  "in_cohort user_ids r \<longleftrightarrow> (case user_ids of None \<Rightarrow> True | Some us \<Rightarrow> us = [] \<or> get r ''user_id'' \<in> CStr ` set us)"

definition training_row :: "row \<Rightarrow> row" where
  "training_row r = map (\<lambda>c. (c, get r c)) TRAINING_COLUMNS"

lemma is_in_iff: "eval E r (IsIn (Col c) us) = CBool True \<longleftrightarrow> get r c \<in> CStr ` set us"
  by (cases "get r c") auto

lemma sem_training: "sem E S (training_plan us) df = map training_row (filter (in_cohort us) df)"
proof -
  have "filter (in_cohort us) df = df" if "us = None \<or> us = Some []"
    using that by (auto simp: in_cohort_def filter_id_conv)
  moreover have "filter (in_cohort (Some vs)) df = filter (\<lambda>r. eval E r (IsIn (Col ''user_id'') vs) = CBool True) df"
    if "vs \<noteq> []" for vs
    by (rule filter_cong [OF refl]) (use that in \<open>simp add: is_in_iff in_cohort_def del: eval.simps\<close>)
  ultimately show ?thesis
    by (cases us) (simp_all add: training_plan_def training_row_def Let_def del: eval.simps)
qed

definition training_rows :: "string list option \<Rightarrow> row list \<Rightarrow> row multiset" where
  "training_rows us snap = image_mset training_row (filter_mset (in_cohort us) (mset snap))"

lemma training_rows_cases:
  "training_rows us snap = (if us = None \<or> us = Some [] then image_mset training_row (mset snap)
     else image_mset training_row {#x \<in># mset snap. get x ''user_id'' \<in> CStr ` set (the us)#})"
proof -
  have "in_cohort None = (\<lambda>x. True)" "in_cohort (Some []) = (\<lambda>x. True)"
    "v \<noteq> [] \<Longrightarrow> in_cohort (Some v) = (\<lambda>x. get x ''user_id'' \<in> CStr ` set v)" for v
    by (auto simp: in_cohort_def fun_eq_iff)
  then show ?thesis by (cases us; cases "us = Some []") (simp_all add: training_rows_def)
qed

lemma training_read:
  assumes "delta_lake D commits fallback clock" and "spark_engine run_plan"
    and "read_features_for_training D run_plan E cfg t us d = Inr xs"
  shows "\<exists>snap. snapshot_of (TimestampAsOf t) (commits d (table_path cfg)) = Some snap
    \<and> mset xs = training_rows us snap"
proof -
  obtain df where df: "dl_load D (TimestampAsOf t) (table_path cfg) d = Inr df"
    and xs: "xs = run_plan E OFFLINE_SCHEMA (training_plan us) df"
    using assms(3) by (auto simp: read_features_for_training_def read_features_at_def ebind_Inr_iff)
  obtain snap where snap: "snapshot_of (TimestampAsOf t) (commits d (table_path cfg)) = Some snap" "mset df = mset snap"
    using delta_lake.load_snapshot [OF assms(1) df] by blast
  have "mset xs = mset (map training_row (filter (in_cohort us) df))"
    using spark_engine.run_sem [OF assms(2)] by (simp add: xs sem_training del: mset_map)
  then show ?thesis using snap by (auto simp: training_rows_def)
qed

subsection \<open>Properties\<close>

text \<open>
  Reads for training are point-in-time correct: a read as of an instant before the clock returns exactly the
  cohort's rows of the snapshot of that instant, whatever a backfill writes afterwards and whether or not it succeeds;
  an empty cohort selects every user.
\<close>

theorem training_read_point_in_time:
  assumes "delta_lake D commits fallback clock" and "spark_engine run_plan" and "t < clock d"
    and "run_backfill D run_plan E kafka cfg a b offsets d = (r, d')"
    and "read_features_for_training D run_plan E cfg t us d = Inr xs"
    and "read_features_for_training D run_plan E' cfg t us d' = Inr ys"
  shows "mset ys = mset xs
    \<and> (\<exists>snap. snapshot_of (TimestampAsOf t) (commits d (table_path cfg)) = Some snap
         \<and> mset xs = (if us = None \<or> us = Some [] then image_mset training_row (mset snap)
                      else image_mset training_row {#x \<in># mset snap. get x ''user_id'' \<in> CStr ` set (the us)#}))"
proof -
  have past: "snapshot_of (TimestampAsOf t) (commits d' p) = snapshot_of (TimestampAsOf t) (commits d p)" for p
    using assms(4) delta_lake.save_past [OF assms(1) _ assms(3)]
    by (auto simp: run_backfill_def delta_write_features_def simp del: snapshot_of.simps split: sum.splits)
  obtain snap where snap: "snapshot_of (TimestampAsOf t) (commits d (table_path cfg)) = Some snap"
    and xs: "mset xs = training_rows us snap"
    using training_read [OF assms(1,2,5)] by blast
  have ys: "mset ys = training_rows us snap" using training_read [OF assms(1,2,6)] past snap by auto
  then show ?thesis using snap xs ys by (simp add: training_rows_cases)
qed

definition sample_lake :: ref_lake where
  "sample_lake = empty_lake\<lparr>lk_commits := (lk_commits empty_lake)
     (''/data/feature_store/user_features'' := [(5, [[(''user_id'', CStr ''usr_00001'')], [(''user_id'', CStr ''usr_00002'')]])])\<rparr>"

lemma training_read_point_in_time_witness:
  "\<exists>ys d'. run_backfill ref_delta sem sample_env (\<lambda>x. Inr [purchase_msg]) offline_config_default 0 10 ''earliest'' sample_lake = (Inr (), d')
     \<and> read_features_for_training ref_delta sem sample_env offline_config_default 50 (Some [''usr_00002'']) d' = Inr ys
     \<and> length ys = 1"
proof -
  let ?cfg = offline_config_default and ?us = "Some [''usr_00002'']"
  let ?new = "sem sample_env BACKFILL_SCHEMA (add_partition_columns (backfill_plan 0 10)) [decode_event BACKFILL_SCHEMA purchase_msg]"
  let ?p = "''/data/feature_store/user_features''"
  have path: "table_path ?cfg = ?p" by (simp add: table_path_def offline_config_default_def)
  have com: "lk_commits sample_lake ?p = [(5, [[(''user_id'', CStr ''usr_00001'')], [(''user_id'', CStr ''usr_00002'')]])]"
    "lk_clock sample_lake = 100"
    by (simp_all add: sample_lake_def empty_lake_def)
  obtain d' where run: "run_backfill ref_delta sem sample_env (\<lambda>x. Inr [purchase_msg]) ?cfg 0 10 ''earliest'' sample_lake = (Inr (), d')"
    and d': "lk_commits d' ?p = lk_commits sample_lake ?p @ [(100, contents (lk_commits sample_lake ?p) @ ?new)]"
    by (simp add: run_backfill_def delta_write_features_def path ref_delta_def lake_commit_def sample_lake_def empty_lake_def
        del: sem.simps)
  have snap': "snapshot_of (TimestampAsOf 50) (lk_commits d' ?p) = snapshot_of (TimestampAsOf 50) (lk_commits sample_lake ?p)"
    unfolding d' by (rule snapshot_later) simp
  have snap0: "snapshot_of (TimestampAsOf 50) (lk_commits sample_lake ?p)
      = Some [[(''user_id'', CStr ''usr_00001'')], [(''user_id'', CStr ''usr_00002'')]]"
    by (simp add: com)
  obtain xs ys where xs: "read_features_for_training ref_delta sem sample_env ?cfg 50 ?us sample_lake = Inr xs"
    and ys: "read_features_for_training ref_delta sem sample_env ?cfg 50 ?us d' = Inr ys"
    by (simp add: read_features_for_training_def read_features_at_def path ref_delta_def snap' snap0 del: sem.simps snapshot_of.simps)
  have "mset ys = mset xs" "\<exists>snap. snapshot_of (TimestampAsOf 50) (lk_commits sample_lake ?p) = Some snap
      \<and> mset xs = image_mset training_row {#x \<in># mset snap. get x ''user_id'' \<in> CStr ` set [''usr_00002'']#}"
    using training_read_point_in_time [OF ref_delta_lake sem_engine _ run xs ys] by (simp_all add: com path)
  then have "size (mset ys) = 1" by (auto simp: com)
  then show ?thesis using run ys by auto
qed

text \<open>
  A backfill appends exactly the rows of its query, and is not idempotent: run again, as after a retry, it appends
  every row a second time.
\<close>

theorem backfill_rerun_duplicates:
  assumes "delta_lake D commits fallback clock" and "spark_engine run_plan" and "kafka offsets = Inr msgs"
    and "run_backfill D run_plan E kafka cfg a b offsets d = (Inr (), d')"
    and "run_backfill D run_plan E kafka cfg a b offsets d' = (Inr (), d'')"
  shows "mset (contents (commits d'' (table_path cfg))) = mset (contents (commits d (table_path cfg)))
    + repeat_mset 2 (mset (sem E BACKFILL_SCHEMA (add_partition_columns (backfill_plan a b)) (map (decode_event BACKFILL_SCHEMA) msgs)))"
proof -
  let ?new = "sem E BACKFILL_SCHEMA (add_partition_columns (backfill_plan a b)) (map (decode_event BACKFILL_SCHEMA) msgs)"
  have step: "mset (contents (commits y (table_path cfg))) = mset (contents (commits x (table_path cfg))) + mset ?new"
    if "run_backfill D run_plan E kafka cfg a b offsets x = (Inr (), y)" for x y
  proof -
    have "dl_save D ''append'' [''event_date'', ''user_prefix''] (table_path cfg)
        (run_plan E BACKFILL_SCHEMA (add_partition_columns (backfill_plan a b)) (map (decode_event BACKFILL_SCHEMA) msgs)) x = (Inr (), y)"
      using that assms(3) by (simp add: run_backfill_def delta_write_features_def)
    from delta_lake.append_ok [OF assms(1) this] spark_engine.run_sem [OF assms(2)] show ?thesis by auto
  qed
  show ?thesis using step [OF assms(4)] step [OF assms(5)] by (simp add: numeral_2_eq_2)
qed

lemma backfill_rerun_duplicates_witness:
  "\<exists>d' d''. run_backfill ref_delta sem sample_env (\<lambda>x. Inr [purchase_msg]) offline_config_default 0 10 ''earliest'' empty_lake = (Inr (), d')
     \<and> run_backfill ref_delta sem sample_env (\<lambda>x. Inr [purchase_msg]) offline_config_default 0 10 ''earliest'' d' = (Inr (), d'')
     \<and> length (contents (lk_commits d'' (table_path offline_config_default))) = 6912"
proof -
  let ?run = "run_backfill ref_delta sem sample_env (\<lambda>x. Inr [purchase_msg]) offline_config_default 0 10 ''earliest''"
  have step: "\<exists>d'. ?run d = (Inr (), d') \<and> lk_down d' = 0" if "lk_down d = 0" for d
    using that by (simp add: run_backfill_def delta_write_features_def ref_delta_def lake_commit_def del: sem.simps)
  obtain d' where d': "?run empty_lake = (Inr (), d')" "lk_down d' = 0"
    using step [of empty_lake] by (auto simp: empty_lake_def)
  obtain d'' where d'': "?run d' = (Inr (), d'')" using step [OF d'(2)] by blast
  let ?new = "sem sample_env BACKFILL_SCHEMA (add_partition_columns (backfill_plan 0 10)) (map (decode_event BACKFILL_SCHEMA) [purchase_msg])"
  have "mset (contents (lk_commits d'' (table_path offline_config_default)))
      = mset (contents (lk_commits empty_lake (table_path offline_config_default))) + repeat_mset 2 (mset ?new)"
    by (rule backfill_rerun_duplicates [OF ref_delta_lake sem_engine _ d'(1) d'']) simp
  then have "size (mset (contents (lk_commits d'' (table_path offline_config_default)))) = 2 * length ?new"
    by (simp add: empty_lake_def contents_def del: sem.simps)
  moreover have "length ?new = 3456"
    using purchase_backfill_length [of sample_env] by (simp add: add_partition_columns_def del: sem.simps(1,2,3,5,6,7,8,9))
  ultimately show ?thesis using d' d'' by auto
qed

end
