(* ===== verification/Sinks.thy ===== *)
theory Sinks
  imports Online_Store Offline_Store
begin

text \<open>
  The two foreachBatch sinks of the streaming job, \<open>streaming/redis_sink.py\<close> and \<open>streaming/delta_sink.py\<close>, and
  the job's configuration. A row collected from Spark is seen through the record \<open>sink_row\<close>: \<open>row["user_id"]\<close> and
  \<open>row.get(field)\<close>. The locale \<open>mapping_row\<close> is the interface the code was written against, rows that behave like
  dictionaries; the locale \<open>pyspark_row\<close> is the documented behaviour of the class that \<open>collect\<close> returns, a tuple
  without a method \<open>get\<close>.
\<close>

subsection \<open>Configuration\<close>

record streaming_config =
  st_kafka_bootstrap_servers :: string
  st_kafka_topic_events :: string
  st_kafka_consumer_group :: string
  st_redis_host :: string
  st_redis_port :: nat
  st_feature_ttl_seconds :: int
  st_delta_table_path :: string
  st_spark_master_url :: string
  st_spark_checkpoint_dir :: string
  st_processing_time :: string
  st_watermark_duration :: string

definition streaming_config_default :: streaming_config where
  "streaming_config_default = \<lparr>
     st_kafka_bootstrap_servers = ''localhost:9092'',
     st_kafka_topic_events = ''ecommerce.events.raw'',
     st_kafka_consumer_group = ''feature-processor-cg'',
     st_redis_host = ''localhost'',
     st_redis_port = 6379,
     st_feature_ttl_seconds = 300,
     st_delta_table_path = ''/data/feature_store'',
     st_spark_master_url = ''local[*]'',
     st_spark_checkpoint_dir = ''/tmp/spark-checkpoints'',
     st_processing_time = ''30 seconds'',
     st_watermark_duration = ''10 minutes''\<rparr>"

subsection \<open>The Redis sink\<close>

record 'r sink_row =
  sr_user_id :: "'r \<Rightarrow> exn + string"
  sr_get :: "'r \<Rightarrow> string \<Rightarrow> exn + pyfloat option"

definition SINK_FIELDS :: "string list" where
  "SINK_FIELDS = [''txn_count_5m'', ''avg_spend_1h'', ''session_activity_rate'', ''cart_abandon_ratio'',
     ''product_interaction_freq'', ''anomaly_score'']"

text \<open>\<open>str(row.get(f, 0.0) or 0.0)\<close>.\<close>

definition or_zero :: "pyfloat option \<Rightarrow> pyfloat" where
  "or_zero v = (case v of None \<Rightarrow> Fin 0 | Some x \<Rightarrow> f_or x (Fin 0))"

definition sink_field :: "'r sink_row \<Rightarrow> 'r \<Rightarrow> string \<Rightarrow> exn + string \<times> rval" where
  "sink_field A row f = ebind (sr_get A row f) (\<lambda>v. Inr (f, py_str (or_zero v)))"

definition sink_payload :: "'r sink_row \<Rightarrow> pyfloat \<Rightarrow> 'r \<Rightarrow> exn + rval dict" where
  "sink_payload A now row =
     ebind (emap (sink_field A row) SINK_FIELDS) (\<lambda>fields.
     ebind (sr_get A row ''computed_at'') (\<lambda>t.
       Inr (fields @ [(''computed_at'', py_str (stamp t now))])))"

definition sink_cmds :: "'r sink_row \<Rightarrow> int \<Rightarrow> pyfloat \<Rightarrow> 'r \<Rightarrow> exn + redis_cmd list" where
  "sink_cmds A ttl now row =
     ebind (sr_user_id A row) (\<lambda>user_id.
     ebind (sink_payload A now row) (\<lambda>payload.
       Inr (feature_cmds ttl user_id payload)))"

definition write_features_to_redis ::
  "'s redis \<Rightarrow> 'r sink_row \<Rightarrow> int \<Rightarrow> 'r list \<Rightarrow> 's \<Rightarrow> (exn + unit) \<times> 's" where
  "write_features_to_redis R A ttl rows s =
     (if rows = [] then (Inr (), s)
      else case emap (sink_cmds A ttl (r_clock R s)) rows of
        Inl e \<Rightarrow> (Inl e, s)
      | Inr cmds \<Rightarrow> r_exec R (concat cmds) s)"

subsection \<open>The Delta sink\<close>

definition merge_keys :: "string list" where
  "merge_keys = [''user_id'', ''event_date'']"

text \<open>The table part of the sink, before an exception diverts the batch.\<close>

definition table_write :: "'d delta \<Rightarrow> string \<Rightarrow> row list \<Rightarrow> 'd \<Rightarrow> (exn + unit) \<times> 'd" where
  "table_write D p src d =
     (case dl_is_table D p d of
        Inl e \<Rightarrow> (Inl e, d)
      | Inr True \<Rightarrow> dl_merge D merge_keys p src d
      | Inr False \<Rightarrow> dl_save D ''overwrite'' [''event_date'', ''user_prefix''] p src d)"

definition write_features_to_delta ::
  "'d delta \<Rightarrow> (spark_env \<Rightarrow> schema \<Rightarrow> plan \<Rightarrow> row list \<Rightarrow> row list) \<Rightarrow> spark_env \<Rightarrow> schema \<Rightarrow> string
   \<Rightarrow> row list \<Rightarrow> 'd \<Rightarrow> (exn + unit) \<times> 'd" where
  "write_features_to_delta D run_plan E S delta_path batch_df d =
     (if batch_df = [] then (Inr (), d)
      else
        let enriched = run_plan E S (add_partition_columns Events) batch_df;
            path = delta_path @ ''/user_features''
        in case table_write D path enriched d of
             (Inr u, d') \<Rightarrow> (Inr u, d')
           | (Inl e, d') \<Rightarrow> dl_parquet D [''event_date''] (delta_path @ ''/fallback_parquet'') enriched d')"

subsection \<open>Many writes in one pipeline\<close>

definition writes :: "int \<Rightarrow> (string \<times> rval dict) list \<Rightarrow> redis_cmd list" where
  "writes n ps = concat (map (\<lambda>(u, p). feature_cmds n u p) ps)"

definition of_user :: "string \<Rightarrow> (string \<times> rval dict) list \<Rightarrow> rval dict list" where
  "of_user u ps = map snd (filter (\<lambda>(w, p). w = u) ps)"

lemma of_user_snoc [simp]: "of_user u (ps @ [(w, p)]) = (if w = u then of_user u ps @ [p] else of_user u ps)"
  by (simp add: of_user_def)

lemma writes_snoc: "apply_cmds (writes n (ps @ [(w, p)])) v = apply_cmds (feature_cmds n w p) (apply_cmds (writes n ps) v)"
  by (simp add: writes_def apply_cmds_append)

lemma map_add_absorb: "dom q \<subseteq> dom p \<Longrightarrow> (h ++ q) ++ p = h ++ p"
  by (rule ext) (auto simp: map_add_def dom_def subset_iff split: option.splits)

text \<open>For payloads with the same fields, the last one of each user is what remains.\<close>

lemma writes_view:
  assumes "0 < n" and "K \<noteq> {}" and "list_all (\<lambda>(u, p). dom (map_of p) = K) ps"
  shows "v_hash (apply_cmds (writes n ps) v) (feature_key u)
      = (if of_user u ps = [] then v_hash v (feature_key u) else v_hash v (feature_key u) ++ map_of (last (of_user u ps)))
    \<and> v_ttl (apply_cmds (writes n ps) v) (feature_key u)
      = (if of_user u ps = [] then v_ttl v (feature_key u) else Some (nat n))
    \<and> v_set (apply_cmds (writes n ps) v) USER_INDEX_KEY = fst ` set ps \<union> v_set v USER_INDEX_KEY"
  using assms(3)
proof (induction ps rule: rev_induct)
  case Nil
  then show ?case by (simp add: writes_def of_user_def)
next
  case (snoc wp ps)
  obtain w p where wp: "wp = (w, p)" by (cases wp)
  have p: "dom (map_of p) = K" "p \<noteq> []" using snoc.prems assms(2) by (auto simp: wp)
  have last: "dom (map_of (last (of_user u ps))) = K" if "of_user u ps \<noteq> []"
  proof -
    have "last (of_user u ps) \<in> set (of_user u ps)" using that by simp
    then have mem: "(u, last (of_user u ps)) \<in> set ps" by (auto simp: of_user_def)
    have all: "\<forall>(w, q) \<in> set ps. dom (map_of q) = K" using snoc.prems by (simp add: list_all_iff)
    show ?thesis using bspec [OF all mem] by simp
  qed
  note IH = snoc.IH [OF snoc.prems [THEN list_all_append [THEN iffD1], THEN conjunct1]]
  show ?case
    unfolding wp writes_snoc feature_cmds_view [OF assms(1) p(2)]
    using IH last p(1) map_add_absorb [of "map_of (last (of_user u ps))" "map_of p"]
    by (auto simp: map_add_absorb)
qed

subsection \<open>Rows\<close>

text \<open>Rows that behave like dictionaries: the user id, and a number or nothing for each field.\<close>

locale mapping_row =
  fixes A :: "'r sink_row" and cells :: "'r \<Rightarrow> row"
  assumes item: "get (cells r) ''user_id'' = CStr u \<Longrightarrow> sr_user_id A r = Inr u"
    and lookup: "sr_get A r f = Inr (case get (cells r) f of CNum x \<Rightarrow> Some x | _ \<Rightarrow> None)"

locale pyspark_row =
  fixes A :: "'r sink_row"
  assumes no_get: "sr_get A r f = Inl AttributeError"

definition num_cell :: "cell \<Rightarrow> pyfloat option" where
  "num_cell x = (case x of CNum y \<Rightarrow> Some y | _ \<Rightarrow> None)"

text \<open>What the sink stores for a row.\<close>

definition sink_values :: "pyfloat \<Rightarrow> row \<Rightarrow> rval dict" where
  "sink_values now r = map (\<lambda>f. (f, py_str (or_zero (num_cell (get r f))))) SINK_FIELDS
     @ [(''computed_at'', py_str (stamp (num_cell (get r ''computed_at'')) now))]"

definition row_user :: "row \<Rightarrow> string" where
  "row_user r = (case get r ''user_id'' of CStr u \<Rightarrow> u | _ \<Rightarrow> [])"

definition has_user :: "row \<Rightarrow> bool" where
  "has_user r \<longleftrightarrow> (case get r ''user_id'' of CStr u \<Rightarrow> True | _ \<Rightarrow> False)"

lemma sink_values_dom: "dom (map_of (sink_values now r)) = set (''computed_at'' # SINK_FIELDS)"
  by (auto simp: sink_values_def dom_map_of_conv_image_fst image_iff SINK_FIELDS_def)

lemma emap_const: "(\<And>x. f x = Inr (g x)) \<Longrightarrow> emap f xs = Inr (map g xs)"
  by (induction xs) auto

lemma emap_all: "list_all P xs \<Longrightarrow> (\<And>x. P x \<Longrightarrow> f x = Inr (g x)) \<Longrightarrow> emap f xs = Inr (map g xs)"
  by (induction xs) auto

definition sink_writes :: "('r \<Rightarrow> row) \<Rightarrow> pyfloat \<Rightarrow> 'r list \<Rightarrow> (string \<times> rval dict) list" where
  "sink_writes cells now rows = map (\<lambda>r. (row_user (cells r), sink_values now (cells r))) rows"

lemma sink_writes_of_user:
  "of_user u (sink_writes cells now rows)
   = map (\<lambda>r. sink_values now (cells r)) (filter (\<lambda>r. row_user (cells r) = u) rows)"
  by (induction rows) (auto simp: sink_writes_def of_user_def)

context mapping_row
begin

lemma sink_cmds_row:
  assumes "has_user (cells r)"
  shows "sink_cmds A n now r = Inr (feature_cmds n (row_user (cells r)) (sink_values now (cells r)))"
proof -
  have "sr_user_id A r = Inr (row_user (cells r))"
    using assms item by (auto simp: has_user_def row_user_def split: cell.splits)
  moreover have "emap (sink_field A r) SINK_FIELDS
      = Inr (map (\<lambda>f. (f, py_str (or_zero (num_cell (get (cells r) f))))) SINK_FIELDS)"
    by (rule emap_const) (simp add: sink_field_def lookup num_cell_def)
  ultimately show ?thesis
    by (simp add: sink_cmds_def sink_payload_def lookup num_cell_def sink_values_def)
qed

lemma sink_run:
  assumes "list_all (has_user \<circ> cells) rows" and "rows \<noteq> []"
  shows "write_features_to_redis R A n rows s = r_exec R (writes n (sink_writes cells (r_clock R s) rows)) s"
proof -
  have "emap (sink_cmds A n (r_clock R s)) rows
      = Inr (map (\<lambda>r. feature_cmds n (row_user (cells r)) (sink_values (r_clock R s) (cells r))) rows)"
    by (rule emap_all [OF assms(1)]) (simp add: sink_cmds_row)
  then show ?thesis using assms(2)
    by (simp add: write_features_to_redis_def writes_def sink_writes_def comp_def case_prod_beta)
qed

end

definition dict_row :: "row sink_row" where
  "dict_row = \<lparr>sr_user_id = (\<lambda>r. case map_of r ''user_id'' of Some (CStr u) \<Rightarrow> Inr u | _ \<Rightarrow> Inl KeyError),
     sr_get = (\<lambda>r f. Inr (case map_of r f of Some (CNum x) \<Rightarrow> Some x | _ \<Rightarrow> None))\<rparr>"

definition tuple_row :: "row sink_row" where
  "tuple_row = \<lparr>sr_user_id = (\<lambda>r. case map_of r ''user_id'' of Some (CStr u) \<Rightarrow> Inr u | _ \<Rightarrow> Inl KeyError),
     sr_get = (\<lambda>r f. Inl AttributeError)\<rparr>"

lemma dict_row_mapping: "mapping_row dict_row id"
  by unfold_locales (auto simp: dict_row_def get_def split: option.splits cell.splits)

lemma tuple_row_pyspark: "pyspark_row tuple_row"
  by unfold_locales (simp add: tuple_row_def)

interpretation dict_rows: mapping_row dict_row id
  by (rule dict_row_mapping)

interpretation tuple_rows: pyspark_row tuple_row
  by (rule tuple_row_pyspark)

subsection \<open>Properties of the Redis sink\<close>

text \<open>
  The Redis sink, given rows that behave like dictionaries: when it returns, each user of the batch has the values
  of the user's last row, whatever was stored before, a fresh time to live and a place in the index; the other users are
  as they were.
\<close>

lemma redis_sink_last_row:
  assumes "redis_server R view" and "mapping_row A cells" and "0 < n" and "list_all (has_user \<circ> cells) rows"
    and "write_features_to_redis R A n rows s = (Inr (), s')"
  shows "let mine = filter (\<lambda>r. row_user (cells r) = u) rows in
    if mine = [] then v_hash (view s') (feature_key u) = v_hash (view s) (feature_key u)
      \<and> v_ttl (view s') (feature_key u) = v_ttl (view s) (feature_key u)
    else v_hash (view s') (feature_key u)
        = v_hash (view s) (feature_key u) ++ map_of (sink_values (r_clock R s) (cells (last mine)))
      \<and> v_ttl (view s') (feature_key u) = Some (nat n) \<and> u \<in> v_set (view s') USER_INDEX_KEY"
proof (cases "rows = []")
  case True
  then show ?thesis using assms(5) by (simp add: write_features_to_redis_def)
next
  case False
  let ?ps = "sink_writes cells (r_clock R s) rows" and ?K = "set (''computed_at'' # SINK_FIELDS)"
  have "r_exec R (writes n ?ps) s = (Inr (), s')"
    using assms(5) mapping_row.sink_run [OF assms(2,4) False] by metis
  then have view: "view s' = apply_cmds (writes n ?ps) (view s)" by (rule redis_server.exec_ok [OF assms(1)])
  have dom: "list_all (\<lambda>(w, p). dom (map_of p) = ?K) ?ps"
    by (auto simp: sink_writes_def list_all_iff sink_values_dom)
  have index: "fst ` set ?ps = (\<lambda>r. row_user (cells r)) ` set rows" by (force simp: sink_writes_def)
  have "u \<in> fst ` set ?ps" if "filter (\<lambda>r. row_user (cells r) = u) rows \<noteq> []"
    using that by (auto simp: index filter_empty_conv)
  then show ?thesis using writes_view [OF assms(3) _ dom, of "view s" u]
    by (auto simp: Let_def view sink_writes_of_user last_map)
qed

definition batch_row :: "string \<Rightarrow> real \<Rightarrow> row" where
  "batch_row u x = [(''user_id'', CStr u), (''txn_count_5m'', CNum (Fin x)), (''computed_at'', CNum (Fin 900))]"

text \<open>
  C26. On the rows that Spark's \<open>collect\<close> returns the Redis sink never writes: the first row's \<open>get\<close> raises
  \<open>AttributeError\<close>, whatever the batch, and the store stays as it was.
\<close>

theorem redis_sink_row_get:
  assumes "pyspark_row A" and "rows \<noteq> []" and "sr_user_id A (hd rows) = Inr u"
  shows "write_features_to_redis R A n rows s = (Inl AttributeError, s)"
proof -
  obtain r rest where rows: "rows = r # rest" using assms(2) by (cases rows) auto
  have "sink_cmds A n (r_clock R s) r = Inl AttributeError"
    using assms(3) pyspark_row.no_get [OF assms(1)]
    by (simp add: sink_cmds_def rows sink_payload_def SINK_FIELDS_def sink_field_def)
  then show ?thesis by (simp add: write_features_to_redis_def rows)
qed

lemma redis_sink_row_get_witness:
  "write_features_to_redis ref_redis tuple_row 300 [batch_row ''u'' 1] empty_db = (Inl AttributeError, empty_db)"
  by (rule redis_sink_row_get [OF tuple_row_pyspark, of _ "''u''"]) (simp_all add: tuple_row_def batch_row_def)

subsection \<open>Properties of the Delta sink\<close>

lemma table_write_raised:
  assumes "delta_lake D commits fallback clock" and "table_write D p src d = (Inl e, d')"
  shows "commits d' = commits d \<and> fallback d' = fallback d"
  using assms(2) delta_lake.merge_raised [OF assms(1)] delta_lake.save_raised [OF assms(1)]
  by (auto simp: table_write_def split: sum.splits bool.splits)

lemma table_write_ok:
  assumes "delta_lake D commits fallback clock" and "table_write D p src d = (Inr (), d')"
  obtains (merge) rows t where "commits d p \<noteq> []" "\<not> ambiguous merge_keys (contents (commits d p)) src"
      "mset rows = mset (merged merge_keys (contents (commits d p)) src)"
      "commits d' = (commits d)(p := commits d p @ [(t, rows)])" "clock d \<le> t"
    | (overwrite) rows t where "commits d p = []" "mset rows = mset src" "commits d' = (commits d)(p := [(t, rows)])" "clock d \<le> t"
proof (cases "dl_is_table D p d")
  case (Inl e)
  then show thesis using assms(2) by (simp add: table_write_def)
next
  case (Inr b)
  note table = delta_lake.is_table [OF assms(1) Inr]
  show thesis
  proof (cases b)
    case True
    then have "dl_merge D merge_keys p src d = (Inr (), d')" using assms(2) Inr by (simp add: table_write_def)
    from delta_lake.merge_ok [OF assms(1) this] table True show thesis using merge by blast
  next
    case False
    then have "dl_save D ''overwrite'' [''event_date'', ''user_prefix''] p src d = (Inr (), d')"
      using assms(2) Inr by (simp add: table_write_def)
    from delta_lake.overwrite_ok [OF assms(1) this] table False show thesis using overwrite by auto
  qed
qed

text \<open>What a run of the sink did: it merged or overwrote the table, or appended everything to the fallback directory.\<close>

lemma delta_sink_cases:
  assumes "delta_lake D commits fallback clock" and "batch \<noteq> []"
    and "write_features_to_delta D run_plan E S path batch d = (Inr (), d')"
  defines "src \<equiv> run_plan E S (add_partition_columns Events) batch" and "p \<equiv> path @ ''/user_features''"
  obtains (merge) rows t where "commits d p \<noteq> []" "\<not> ambiguous merge_keys (contents (commits d p)) src"
      "mset rows = mset (merged merge_keys (contents (commits d p)) src)"
      "commits d' = (commits d)(p := commits d p @ [(t, rows)])"
    | (overwrite) rows t where "commits d p = []" "mset rows = mset src" "commits d' = (commits d)(p := [(t, rows)])"
    | (diverted) "commits d' = commits d"
        "mset (fallback d' (path @ ''/fallback_parquet'')) = mset (fallback d (path @ ''/fallback_parquet'')) + mset src"
proof -
  obtain r d1 where step: "table_write D p src d = (r, d1)" by fastforce
  have run: "(case table_write D p src d of (Inr u, d2) \<Rightarrow> (Inr u, d2)
      | (Inl e, d2) \<Rightarrow> dl_parquet D [''event_date''] (path @ ''/fallback_parquet'') src d2) = (Inr (), d')"
    using assms(2,3) unfolding write_features_to_delta_def Let_def src_def p_def by simp
  show thesis
  proof (cases r)
    case (Inl e)
    then have "dl_parquet D [''event_date''] (path @ ''/fallback_parquet'') src d1 = (Inr (), d')"
      using run step by simp
    then show ?thesis
      using diverted delta_lake.parquet_ok [OF assms(1)] table_write_raised [OF assms(1)] step Inl by fastforce
  next
    case (Inr u)
    then have "table_write D p src d = (Inr (), d')" using run step by simp
    from table_write_ok [OF assms(1) this] merge overwrite show ?thesis by metis
  qed
qed

definition enriched_rows :: "spark_env \<Rightarrow> schema \<Rightarrow> row list \<Rightarrow> row list" where
  "enriched_rows E S batch = sem E S (add_partition_columns Events) batch"

lemma enriched_Nil [simp]: "enriched_rows E S [] = []"
  by (simp add: enriched_rows_def add_partition_columns_def)

lemma enriched_run:
  assumes "spark_engine run_plan"
  shows "mset (run_plan E S (add_partition_columns Events) batch) = mset (enriched_rows E S batch)"
  by (simp add: enriched_rows_def spark_engine.run_sem [OF assms])

lemma same_key_sym: "same_key ks t s \<Longrightarrow> same_key ks s t"
  by (auto simp: same_key_iff)

lemma same_key_trans: "same_key ks t s \<Longrightarrow> same_key ks s r \<Longrightarrow> same_key ks t r"
  by (auto simp: same_key_iff)

text \<open>
  C24. The Delta sink loses nothing: when it returns, every row of the batch, with its partition columns, is in the
  current version of the table or in the fallback directory. Where the table had rows of a batch row's user and day and a
  new version was committed, that row has replaced all of them.
\<close>

theorem delta_sink_no_loss:
  assumes "delta_lake D commits fallback clock" and "spark_engine run_plan"
    and "write_features_to_delta D run_plan E S path batch d = (Inr (), d')"
  shows "list_all (\<lambda>s. s \<in> set (contents (commits d' (path @ ''/user_features'')))
        \<or> s \<in> set (fallback d' (path @ ''/fallback_parquet''))) (enriched_rows E S batch)
    \<and> (commits d' \<noteq> commits d \<longrightarrow>
       (\<forall>t \<in> set (contents (commits d (path @ ''/user_features''))). \<forall>s \<in> set (enriched_rows E S batch).
          same_key merge_keys t s \<longrightarrow>
          (\<forall>r \<in> set (contents (commits d' (path @ ''/user_features''))). same_key merge_keys r s \<longrightarrow> r = s)))"
proof (cases "batch = []")
  case True
  then show ?thesis using assms(3) by (simp add: write_features_to_delta_def)
next
  case False
  let ?src = "run_plan E S (add_partition_columns Events) batch" and ?p = "path @ ''/user_features''"
  have set: "set ?src = set (enriched_rows E S batch)" by (rule mset_eq_setD [OF enriched_run [OF assms(2)]])
  from assms(1) False assms(3) show ?thesis
  proof (cases rule: delta_sink_cases)
    case (merge rows t)
    have now: "contents (commits d' ?p) = rows" using merge(4) by simp
    have rows: "set rows = set (merged merge_keys (contents (commits d ?p)) ?src)" by (rule mset_eq_setD [OF merge(3)])
    have "r = s" if t: "t \<in> set (contents (commits d ?p))" "same_key merge_keys t s" and s: "s \<in> set ?src"
      and r: "r \<in> set rows" "same_key merge_keys r s" for t s r
    proof -
      have "\<not> 2 \<le> length (filter (same_key merge_keys t) ?src)"
        using merge(2) t(1) by (auto simp: ambiguous_def list_ex_iff)
      from short_filter [OF this s t(2)] have "filter (same_key merge_keys t) ?src = [s]" .
      then have single: "{x \<in> set ?src. same_key merge_keys t x} = {s}" by (metis empty_set list.simps(15) set_filter)
      have "x = s" if "x \<in> set ?src" "same_key merge_keys x s" for x
        using that same_key_trans [OF t(2) same_key_sym [OF that(2)]] single by blast
      then show ?thesis using merged_key [OF merge(2) _ s r(2)] r(1) rows by blast
    qed
    then show ?thesis using merged_contains [OF merge(2)] by (auto simp: now rows set list_all_iff)
  next
    case (overwrite rows t)
    then have "contents (commits d' ?p) = rows" "contents (commits d ?p) = []" by (simp_all add: contents_def)
    moreover have "set rows = set ?src" by (rule mset_eq_setD [OF overwrite(2)])
    ultimately show ?thesis by (simp add: set list_all_iff)
  next
    case diverted
    have "mset (fallback d' (path @ ''/fallback_parquet'')) = mset (fallback d (path @ ''/fallback_parquet'') @ ?src)"
      using diverted(2) by simp
    then have "set (fallback d' (path @ ''/fallback_parquet'')) = set (fallback d (path @ ''/fallback_parquet'') @ ?src)"
      by (rule mset_eq_setD)
    then show ?thesis using diverted(1) by (simp add: set list_all_iff)
  qed
qed

text \<open>A batch with two rows of a user and day that the table already has cannot be merged.\<close>

lemma delta_sink_diverted:
  assumes "delta_lake D commits fallback clock" and "spark_engine run_plan"
    and "write_features_to_delta D run_plan E S path batch d = (Inr (), d')"
    and "t \<in> set (contents (commits d (path @ ''/user_features'')))"
    and "2 \<le> length (filter (same_key merge_keys t) (enriched_rows E S batch))"
  shows "commits d' = commits d \<and> mset (fallback d' (path @ ''/fallback_parquet''))
    = mset (fallback d (path @ ''/fallback_parquet'')) + mset (enriched_rows E S batch)"
proof -
  let ?src = "run_plan E S (add_partition_columns Events) batch"
  have batch: "batch \<noteq> []" using assms(5) by auto
  have "mset (filter (same_key merge_keys t) ?src) = mset (filter (same_key merge_keys t) (enriched_rows E S batch))"
    using enriched_run [OF assms(2)] by (simp only: mset_filter)
  then have "length (filter (same_key merge_keys t) ?src) = length (filter (same_key merge_keys t) (enriched_rows E S batch))"
    by (rule mset_eq_length)
  then have amb: "ambiguous merge_keys (contents (commits d (path @ ''/user_features''))) ?src"
    using assms(4,5) by (auto simp: ambiguous_def list_ex_iff intro!: bexI [of _ t])
  from assms(1) batch assms(3) show ?thesis
  proof (cases rule: delta_sink_cases)
    case diverted
    then show ?thesis using enriched_run [OF assms(2)] by simp
  qed (use amb assms(4) in \<open>auto simp: contents_def\<close>)
qed

lemma all_features_stamp:
  assumes "conforms S df" and "r \<in> set (sem E S (compute_all_features p) df)"
  shows "get r ''computed_at'' = CNum (Fin (of_int (se_now E div 10 ^ 6)))"
proof -
  let ?q = "WithColumn ''computed_at'' (CastDouble (UnixTimestamp CurrentTimestamp))
        (WithColumn ''window_end'' (Field (Col ''window'') ''end'')
         (WithColumn ''window_start'' (Field (Col ''window'') ''start'') (join_features p)))"
  obtain g where g: "g \<in> set (sem E S (FillNa (Fin 0) ?q) df)" "\<And>c. c \<in> set FEATURE_COLUMNS \<Longrightarrow> get r c = get g c"
    using select_row [OF assms(2) [unfolded compute_all_features_def]] by blast
  obtain x where x: "x \<in> set (sem E S ?q df)" "g = fill_row (\<lambda>c. map_of (columns S ?q) c = Some TNum) (Fin 0) x"
    using g(1) by (auto simp del: columns.simps)
  have keys: "map fst x = map fst (columns S ?q)" by (rule conforms_keys [OF assms(1) x(1)])
  have x_at: "get x ''computed_at'' = CNum (Fin (of_int (se_now E div 10 ^ 6)))" using x(1) by auto
  have "''computed_at'' \<in> set (map fst x)" unfolding keys by (simp add: window_type_def)
  then have "get g ''computed_at'' = CNum (Fin (of_int (se_now E div 10 ^ 6)))"
    unfolding x(2) using x_at by (simp add: get_fill)
  moreover have "''computed_at'' \<in> set FEATURE_COLUMNS" by (simp add: FEATURE_COLUMNS_def)
  ultimately show ?thesis using g(2) by simp
qed

text \<open>What every streamed row of a single purchase carries: the user, and the time of the run.\<close>

lemma single_stream_row:
  assumes "is_purchase_of u e" and "conforms S [e]" and "r \<in> set (sem E S stream_plan [e])"
  shows "get r ''user_id'' = CStr u \<and> get r ''computed_at'' = CNum (Fin (of_int (se_now E div 10 ^ 6)))"
proof -
  have ev: "sem E S stream_events [e] = [e]" using assms(1) by (simp add: stream_events_def is_purchase_of_def)
  let ?q = "LeftJoin (compute_all_features stream_events) (Select [''user_id'', ''anomaly_score''] (compute_anomaly_score stream_events))"
  obtain x where x: "x \<in> set (sem E S ?q [e])"
    "r = fill_row (\<lambda>k. k = ''anomaly_score'' \<and> map_of (columns S ?q) ''anomaly_score'' = Some TNum) (Fin 0) x"
    using assms(3) unfolding stream_plan_def full_features_def
    by (auto simp del: columns.simps sem.simps(7) simp: sem.simps(9))
  have keys: "map fst x = map fst (columns S ?q)" by (rule conforms_keys [OF assms(2) x(1)])
  obtain l where l: "l \<in> set (sem E S (compute_all_features stream_events) [e])"
    "\<And>c. c \<in> set (map fst (columns S (compute_all_features stream_events))) \<Longrightarrow> get x c = get l c"
    using left_join_row [OF assms(2) x(1)] by metis
  have "get r c = get l c" if "c = ''user_id'' \<or> c = ''computed_at''" for c
  proof -
    have "c \<in> set (map fst x)" "c \<noteq> ''anomaly_score''" using that by (auto simp: keys)
    then have "get r c = get x c" by (simp add: x(2) get_fill)
    then show ?thesis using l(2) [of c] that by auto
  qed
  moreover have "get l ''user_id'' = CStr u"
    using single_join(2) [OF assms(1) ev assms(2)] l(1) by (simp add: all_of_user_def list_all_iff)
  ultimately show ?thesis using all_features_stamp [OF assms(2) l(1)] by simp
qed

definition day_of :: "spark_env \<Rightarrow> int" where
  "day_of E = (se_now E div 10 ^ 6 + se_tz E) div 86400"

lemma enriched_member:
  assumes "s \<in> set (enriched_rows E S batch)"
  obtains r where "r \<in> set batch" "get s ''user_id'' = get r ''user_id''"
    "get s ''event_date'' = eval E r (ToDate (FromUnixtime (Col ''computed_at'')))"
  using assms by (auto simp: enriched_rows_def add_partition_columns_def)

lemma length_enriched: "length (enriched_rows E S batch) = length batch"
  by (simp add: enriched_rows_def add_partition_columns_def)

text \<open>
  C25. Once the offline table has a row of a user for the day, the streamed features of the user's next purchase that day
  never reach it: the joins make 3456 rows of the purchase, the merge on user and day is ambiguous, and the whole
  micro-batch goes to the fallback directory.
\<close>

theorem second_batch_diverted:
  assumes "delta_lake D commits fallback clock" and "spark_engine run_plan"
    and "is_purchase_of u e" and "conforms EVENT_SCHEMA [e]"
    and "t \<in> set (contents (commits d (path @ ''/user_features'')))"
    and "get t ''user_id'' = CStr u" and "get t ''event_date'' = CDate (day_of E)"
    and "write_features_to_delta D run_plan E S path (run_plan E EVENT_SCHEMA stream_plan [e]) d = (Inr (), d')"
  shows "commits d' = commits d
    \<and> length (fallback d' (path @ ''/fallback_parquet'')) = length (fallback d (path @ ''/fallback_parquet'')) + 3456"
proof -
  let ?batch = "run_plan E EVENT_SCHEMA stream_plan [e]"
  have batch: "length ?batch = 3456" "set ?batch = set (sem E EVENT_SCHEMA stream_plan [e])"
    using single_full [OF assms(3,4)] spark_engine.run_length [OF assms(2)] spark_engine.run_set [OF assms(2)] by simp_all
  have "same_key merge_keys t s" if s: "s \<in> set (enriched_rows E S ?batch)" for s
  proof -
    obtain r where r: "r \<in> set ?batch" "get s ''user_id'' = get r ''user_id''"
      "get s ''event_date'' = eval E r (ToDate (FromUnixtime (Col ''computed_at'')))"
      using enriched_member [OF s] by blast
    then have "get s ''user_id'' = CStr u" "get s ''event_date'' = CDate (day_of E)"
      using single_stream_row [OF assms(3,4), of r] by (simp_all add: batch(2) day_of_def)
    then show ?thesis using assms(6,7) by (simp add: same_key_iff merge_keys_def)
  qed
  then have "filter (same_key merge_keys t) (enriched_rows E S ?batch) = enriched_rows E S ?batch"
    by (simp add: filter_id_conv)
  then have "2 \<le> length (filter (same_key merge_keys t) (enriched_rows E S ?batch))"
    by (simp add: length_enriched batch(1))
  from delta_sink_diverted [OF assms(1,2,8), OF assms(5) this] have "commits d' = commits d"
    and m: "mset (fallback d' (path @ ''/fallback_parquet''))
      = mset (fallback d (path @ ''/fallback_parquet'') @ enriched_rows E S ?batch)" by simp_all
  moreover from m have "length (fallback d' (path @ ''/fallback_parquet''))
      = length (fallback d (path @ ''/fallback_parquet'') @ enriched_rows E S ?batch)" by (rule mset_eq_length)
  ultimately show ?thesis by (simp add: length_enriched batch(1))
qed

definition stored_row :: row where
  "stored_row = [(''user_id'', CStr ''usr_00001''), (''event_date'', CDate (day_of sample_env))]"

definition stored_lake :: ref_lake where
  "stored_lake = empty_lake\<lparr>lk_commits := (lk_commits empty_lake)(''/d/user_features'' := [(5, [stored_row])])\<rparr>"

lemma stored_contents: "contents (lk_commits stored_lake (''/d'' @ ''/user_features'')) = [stored_row]"
  by (simp add: stored_lake_def contents_def)

lemma ref_sink_returns: "\<exists>d'. write_features_to_delta ref_delta run_plan E S path batch d = (Inr (), d')"
proof -
  have "\<exists>d'. dl_parquet ref_delta parts p rows x = (Inr (), d')" for parts p rows x by (simp add: ref_delta_def)
  then show ?thesis
    unfolding write_features_to_delta_def Let_def by (cases "batch = []") (simp_all split: prod.split sum.split unit.split)
qed

lemma second_batch_diverted_witness:
  "\<exists>d'. write_features_to_delta ref_delta sem sample_env EVENT_SCHEMA ''/d'' (sem sample_env EVENT_SCHEMA stream_plan [sample_purchase]) stored_lake
       = (Inr (), d')
     \<and> length (lk_fallback d' (''/d'' @ ''/fallback_parquet'')) = 3456"
proof -
  let ?batch = "sem sample_env EVENT_SCHEMA stream_plan [sample_purchase]"
  have p: "is_purchase_of ''usr_00001'' sample_purchase"
    by (simp add: is_purchase_of_def sample_purchase_def EVENT_SCHEMA_def has_type_def timed_def)
  have c: "conforms EVENT_SCHEMA [sample_purchase]"
    by (simp add: conforms_def sample_purchase_def EVENT_SCHEMA_def)
  obtain d' where run: "write_features_to_delta ref_delta sem sample_env EVENT_SCHEMA ''/d'' ?batch stored_lake = (Inr (), d')"
    using ref_sink_returns by blast
  have t: "stored_row \<in> set (contents (lk_commits stored_lake (''/d'' @ ''/user_features'')))"
    unfolding stored_contents by simp
  have "length (lk_fallback d' (''/d'' @ ''/fallback_parquet''))
      = length (lk_fallback stored_lake (''/d'' @ ''/fallback_parquet'')) + 3456"
    by (rule second_batch_diverted [OF ref_delta_lake sem_engine p c t _ _ run, THEN conjunct2]) (simp_all add: stored_row_def)
  moreover have "lk_fallback stored_lake (''/d'' @ ''/fallback_parquet'') = []"
    by (simp add: stored_lake_def empty_lake_def)
  ultimately show ?thesis using run by (intro exI [of _ d']) simp
qed

lemma delta_sink_no_loss_witness:
  "\<exists>d' s. write_features_to_delta ref_delta sem sample_env [] ''/d'' [batch_row ''usr_00001'' 1] stored_lake = (Inr (), d')
     \<and> (s \<in> set (contents (lk_commits d' (''/d'' @ ''/user_features''))) \<or> s \<in> set (lk_fallback d' (''/d'' @ ''/fallback_parquet'')))
     \<and> get s ''txn_count_5m'' = CNum (Fin 1)"
proof -
  let ?batch = "[batch_row ''usr_00001'' 1]"
  obtain s where rows: "enriched_rows sample_env [] ?batch = [s]" "get s ''txn_count_5m'' = CNum (Fin 1)"
    by (simp add: enriched_rows_def add_partition_columns_def batch_row_def)
  obtain d' where run: "write_features_to_delta ref_delta sem sample_env [] ''/d'' ?batch stored_lake = (Inr (), d')"
    using ref_sink_returns by blast
  from delta_sink_no_loss [OF ref_delta_lake sem_engine run, THEN conjunct1]
  have "s \<in> set (contents (lk_commits d' (''/d'' @ ''/user_features'')))
      \<or> s \<in> set (lk_fallback d' (''/d'' @ ''/fallback_parquet''))" by (simp only: rows(1) list.pred_inject simp_thms)
  with run rows(2) show ?thesis by blast
qed

end
