(* ===== verification/Streaming_Job.thy ===== *)
theory Streaming_Job
  imports Sinks
begin

text \<open>
  The streaming job as a whole, \<open>streaming/feature_processor.py\<close> from the session to the two started queries, and
  the session of \<open>streaming/spark_session.py\<close>. A query is the plan it runs, its options and the function Spark calls with
  each micro-batch; starting one is Spark's, a parameter with the contract \<open>structured_streaming\<close>. The world a batch
  function works on is the Redis client's and Delta Lake's, side by side.
\<close>

subsection \<open>Session and source\<close>

definition create_spark_session :: "streaming_config \<Rightarrow> string \<Rightarrow> string dict" where
  "create_spark_session cfg app_name =
     [(''spark.app.name'', app_name),
      (''spark.master'', st_spark_master_url cfg),
      (''spark.sql.extensions'', ''io.delta.sql.DeltaSparkSessionExtension''),
      (''spark.sql.catalog.spark_catalog'', ''org.apache.spark.sql.delta.catalog.DeltaCatalog''),
      (''spark.sql.streaming.checkpointLocation'', st_spark_checkpoint_dir cfg),
      (''spark.sql.shuffle.partitions'', ''4''),
      (''spark.sql.streaming.forceDeleteTempCheckpointLocation'', ''true''),
      (''spark.serializer'', ''org.apache.spark.serializer.KryoSerializer''),
      (''spark.network.timeout'', ''120s''),
      (''spark.executor.heartbeatInterval'', ''60s'')]"

definition stream_source_options :: "streaming_config \<Rightarrow> string dict" where
  "stream_source_options cfg =
     [(''kafka.bootstrap.servers'', st_kafka_bootstrap_servers cfg),
      (''subscribe'', st_kafka_topic_events cfg),
      (''startingOffsets'', ''latest''),
      (''kafka.group.id'', st_kafka_consumer_group cfg),
      (''failOnDataLoss'', ''false''),
      (''maxOffsetsPerTrigger'', ''10000'')]"

subsection \<open>The two queries\<close>

record 'w streaming_query =
  sq_name :: string
  sq_plan :: plan
  sq_output_mode :: string
  sq_checkpoint :: string
  sq_trigger :: string
  sq_batch_writer :: "row list \<Rightarrow> 'w \<Rightarrow> (exn + unit) \<times> 'w"

text \<open>\<open>collect\<close> is Spark's: the rows of a batch as objects of the class the sink reads.\<close>

definition redis_batch_writer ::
  "'s redis \<Rightarrow> 'r sink_row \<Rightarrow> (row list \<Rightarrow> 'r list) \<Rightarrow> streaming_config \<Rightarrow> row list \<Rightarrow> 's \<times> 'd \<Rightarrow> (exn + unit) \<times> 's \<times> 'd" where
  "redis_batch_writer R A collect cfg batch_df w =
     (case write_features_to_redis R A (st_feature_ttl_seconds cfg) (collect batch_df) (fst w) of
        (r, s') \<Rightarrow> (r, s', snd w))"

definition delta_batch_writer ::
  "'d delta \<Rightarrow> (spark_env \<Rightarrow> schema \<Rightarrow> plan \<Rightarrow> row list \<Rightarrow> row list) \<Rightarrow> spark_env \<Rightarrow> schema \<Rightarrow> streaming_config
   \<Rightarrow> row list \<Rightarrow> 's \<times> 'd \<Rightarrow> (exn + unit) \<times> 's \<times> 'd" where
  "delta_batch_writer D run_plan E S cfg batch_df w =
     (case write_features_to_delta D run_plan E S (st_delta_table_path cfg) batch_df (snd w) of
        (r, d') \<Rightarrow> (r, fst w, d'))"

definition redis_query ::
  "'s redis \<Rightarrow> 'r sink_row \<Rightarrow> (row list \<Rightarrow> 'r list) \<Rightarrow> streaming_config \<Rightarrow> ('s \<times> 'd) streaming_query" where
  "redis_query R A collect cfg = \<lparr>
     sq_name = ''redis_sink'', sq_plan = stream_plan, sq_output_mode = ''update'',
     sq_checkpoint = st_spark_checkpoint_dir cfg @ ''/redis'', sq_trigger = st_processing_time cfg,
     sq_batch_writer = redis_batch_writer R A collect cfg\<rparr>"

definition delta_query ::
  "'d delta \<Rightarrow> (spark_env \<Rightarrow> schema \<Rightarrow> plan \<Rightarrow> row list \<Rightarrow> row list) \<Rightarrow> spark_env \<Rightarrow> schema \<Rightarrow> streaming_config
   \<Rightarrow> ('s \<times> 'd) streaming_query" where
  "delta_query D run_plan E S cfg = \<lparr>
     sq_name = ''delta_sink'', sq_plan = stream_plan, sq_output_mode = ''update'',
     sq_checkpoint = st_spark_checkpoint_dir cfg @ ''/delta'', sq_trigger = st_processing_time cfg,
     sq_batch_writer = delta_batch_writer D run_plan E S cfg\<rparr>"

text \<open>What \<open>run\<close> does before it waits for a query to end: start one query, then the other.\<close>

fun start_queries ::
  "('w streaming_query \<Rightarrow> 'w \<Rightarrow> (exn + unit) \<times> 'w) \<Rightarrow> 'w streaming_query list \<Rightarrow> 'w \<Rightarrow> (exn + unit) \<times> 'w" where
  "start_queries start [] w = (Inr (), w)"
| "start_queries start (q # qs) w =
     (case start q w of
        (Inl e, w') \<Rightarrow> (Inl e, w')
      | (Inr u, w') \<Rightarrow> start_queries start qs w')"

definition streaming_run ::
  "'s redis \<Rightarrow> 'r sink_row \<Rightarrow> (row list \<Rightarrow> 'r list) \<Rightarrow> 'd delta
   \<Rightarrow> (spark_env \<Rightarrow> schema \<Rightarrow> plan \<Rightarrow> row list \<Rightarrow> row list) \<Rightarrow> spark_env \<Rightarrow> schema \<Rightarrow> streaming_config
   \<Rightarrow> (('s \<times> 'd) streaming_query \<Rightarrow> 's \<times> 'd \<Rightarrow> (exn + unit) \<times> 's \<times> 'd) \<Rightarrow> 's \<times> 'd \<Rightarrow> (exn + unit) \<times> 's \<times> 'd" where
  "streaming_run R A collect D run_plan E S cfg start w =
     start_queries start [redis_query R A collect cfg, delta_query D run_plan E S cfg] w"

subsection \<open>What Structured Streaming rejects\<close>

text \<open>
  Spark's documentation lists distinct aggregations among the unsupported operations of streaming DataFrames: the
  analyser rejects such a query when it is started.
\<close>

fun distinct_agg :: "agg \<Rightarrow> bool" where
  "distinct_agg (CountDistinct c) = True"
| "distinct_agg a = False"

fun has_distinct :: "plan \<Rightarrow> bool" where
  "has_distinct Events = False"
| "has_distinct (Filter e p) = has_distinct p"
| "has_distinct (GroupWindow d s as p) = (list_ex (distinct_agg \<circ> snd) as \<or> has_distinct p)"
| "has_distinct (WithColumn c e p) = has_distinct p"
| "has_distinct (Select cs p) = has_distinct p"
| "has_distinct (DropColumn c p) = has_distinct p"
| "has_distinct (LeftJoin p q) = (has_distinct p \<or> has_distinct q)"
| "has_distinct (FillNa v p) = has_distinct p"
| "has_distinct (FillNaIn c v p) = has_distinct p"

locale structured_streaming =
  fixes start :: "'w streaming_query \<Rightarrow> 'w \<Rightarrow> (exn + unit) \<times> 'w"
  assumes rejects: "has_distinct (sq_plan q) \<Longrightarrow> start q w = (Inl AnalysisException, w)"
begin

lemma first_rejected: "has_distinct (sq_plan q) \<Longrightarrow> start_queries start (q # qs) w = (Inl AnalysisException, w)"
  by (simp add: rejects)

end

definition ref_start :: "'w streaming_query \<Rightarrow> 'w \<Rightarrow> (exn + unit) \<times> 'w" where
  "ref_start q w = (if has_distinct (sq_plan q) then (Inl AnalysisException, w) else (Inr (), w))"

interpretation ref_streaming: structured_streaming ref_start
  by unfold_locales (simp add: ref_start_def)

lemma stream_plan_distinct: "has_distinct stream_plan"
  by (simp add: stream_plan_def full_features_def compute_all_features_def join_features_def
      compute_session_activity_rate_def)

text \<open>
  C39. The streaming job does not start: the session rate counts distinct sessions, which a streaming query may not, so the
  first query is rejected, the second is never started, and nothing is written.
\<close>

theorem streaming_job_rejected:
  assumes "structured_streaming start"
  shows "streaming_run R A collect D run_plan E S cfg start w = (Inl AnalysisException, w)"
  unfolding streaming_run_def
  by (rule structured_streaming.first_rejected [OF assms]) (simp add: redis_query_def stream_plan_distinct)

lemma streaming_job_rejected_witness:
  "streaming_run ref_redis dict_row id ref_delta sem sample_env EVENT_SCHEMA streaming_config_default ref_start (empty_db, empty_lake)
   = (Inl AnalysisException, (empty_db, empty_lake))"
  by (rule streaming_job_rejected [OF ref_streaming.structured_streaming_axioms])

text \<open>The two batch functions work on different halves of the world, so their order does not matter.\<close>

lemma batch_writers_commute:
  "snd (delta_batch_writer D run_plan E S cfg b (snd (redis_batch_writer R A collect cfg a w)))
   = snd (redis_batch_writer R A collect cfg a (snd (delta_batch_writer D run_plan E S cfg b w)))"
  by (simp add: redis_batch_writer_def delta_batch_writer_def split: prod.split)

end
