(* ===== verification/Api.thy ===== *)
theory Api
  imports Sinks Diagnostics Registry
begin

text \<open>
  The serving layer, \<open>api/\<close>: its configuration and start-up, the request middleware, and the four routers. A route is a
  function from the parsed request and the state of what it calls to a response or the exception that FastAPI turns into
  an error response; \<open>HTTPException 404\<close> is the only one the code raises itself. FastAPI and pydantic are not part of
  the repository: a response model's fields have the declared types, and building one from other values raises
  \<open>ValueError\<close> (pydantic's \<open>ValidationError\<close> is one).
\<close>

subsection \<open>Configuration and start-up\<close>

record api_config =
  ac_log_level :: string
  ac_environment :: string
  ac_redis_host :: string
  ac_redis_port :: int
  ac_redis_max_connections :: int
  ac_anthropic_api_key :: string
  ac_anthropic_model :: string

definition api_config_default :: api_config where
  "api_config_default = \<lparr>
     ac_log_level = ''INFO'',
     ac_environment = ''development'',
     ac_redis_host = ''localhost'',
     ac_redis_port = 6379,
     ac_redis_max_connections = 20,
     ac_anthropic_api_key = [],
     ac_anthropic_model = ''claude-sonnet-4-5''\<rparr>"

definition int_text :: "int \<Rightarrow> string" where
  "int_text i = (if i < 0 then CHR ''-'' # decimal (nat (- i)) else decimal (nat i))"

definition redis_pool_url :: "online_config \<Rightarrow> string" where
  "redis_pool_url c = ''redis://'' @ oc_redis_host c @ '':'' @ int_text (oc_redis_port c) @ ''/'' @ int_text (oc_redis_db c)"

text \<open>\<open>get_db\<close>, the session of a request.\<close>

definition get_db :: "'d sessions \<Rightarrow> ('d \<Rightarrow> 'a \<times> 'd) \<Rightarrow> 'd \<Rightarrow> 'a \<times> 'd" where
  "get_db SN handler = AsyncSessionLocal SN handler"

text \<open>What runs before the application serves: the tables are created, then seeded; an exception stops the start-up.\<close>

definition lifespan ::
  "('d \<Rightarrow> (exn + unit) \<times> 'd) \<Rightarrow> 'd sessions \<Rightarrow> 'd database \<Rightarrow> pyfloat \<Rightarrow> feature_seed list \<Rightarrow> 'd
   \<Rightarrow> (exn + unit) \<times> feature_seed list \<times> 'd" where
  "lifespan create_all SN DB now seeds d =
     (case create_tables SN DB create_all d of
        (Inl e, d') \<Rightarrow> (Inl e, seeds, d')
      | (Inr u, d') \<Rightarrow>
          (case AsyncSessionLocal SN (\<lambda>db. case seed_features DB now seeds db of (r, seeds', db') \<Rightarrow> ((r, seeds'), db')) d' of
             ((r, seeds'), d'') \<Rightarrow> (r, seeds', d'')))"

subsection \<open>Middleware\<close>

record 'b http_response =
  hr_status :: nat
  hr_headers :: "string dict"
  hr_body :: 'b

definition dispatch ::
  "string \<Rightarrow> pyfloat \<Rightarrow> pyfloat \<Rightarrow> ('q \<Rightarrow> string \<Rightarrow> exn + 'b http_response) \<Rightarrow> 'q \<Rightarrow> exn + 'b http_response" where
  "dispatch uuid4 start finish call_next request =
     (let request_id = take 8 uuid4 in
      ebind (call_next request request_id) (\<lambda>response.
        let latency_ms = (finish - start) * Fin 1000 in
        Inr (response\<lparr>hr_headers := AList.update ''X-Latency-Ms'' (fixed 2 latency_ms)
          (AList.update ''X-Request-ID'' request_id (hr_headers response))\<rparr>)))"

subsection \<open>Serving features\<close>

record feature_vector =
  fv_txn_count_5m :: pyfloat
  fv_avg_spend_1h :: pyfloat
  fv_session_activity_rate :: pyfloat
  fv_cart_abandon_ratio :: pyfloat
  fv_product_interaction_freq :: pyfloat
  fv_anomaly_score :: pyfloat

record feature_metadata =
  fm_computed_at :: "rval option"
  fm_freshness_seconds :: "pyfloat option"
  fm_source :: string
  fm_schema_version :: string

record vector_response =
  vr_user_id :: string
  vr_features :: feature_vector
  vr_metadata :: feature_metadata

definition VECTOR_FIELDS :: "string list" where
  "VECTOR_FIELDS = [''txn_count_5m'', ''avg_spend_1h'', ''session_activity_rate'', ''cart_abandon_ratio'',
     ''product_interaction_freq'', ''anomaly_score'']"

text \<open>\<open>FeatureVector(**d)\<close>, with the declared defaults, and \<open>model_dump\<close>.\<close>

definition vector_of :: "pyfloat dict \<Rightarrow> feature_vector" where
  "vector_of d = \<lparr>fv_txn_count_5m = dict_get d ''txn_count_5m'' (Fin 0), fv_avg_spend_1h = dict_get d ''avg_spend_1h'' (Fin 0),
     fv_session_activity_rate = dict_get d ''session_activity_rate'' (Fin 0),
     fv_cart_abandon_ratio = dict_get d ''cart_abandon_ratio'' (Fin 0),
     fv_product_interaction_freq = dict_get d ''product_interaction_freq'' (Fin 0),
     fv_anomaly_score = dict_get d ''anomaly_score'' (Fin 0)\<rparr>"

definition vector_dict :: "feature_vector \<Rightarrow> pyfloat dict" where
  "vector_dict v = [(''txn_count_5m'', fv_txn_count_5m v), (''avg_spend_1h'', fv_avg_spend_1h v),
     (''session_activity_rate'', fv_session_activity_rate v), (''cart_abandon_ratio'', fv_cart_abandon_ratio v),
     (''product_interaction_freq'', fv_product_interaction_freq v), (''anomaly_score'', fv_anomaly_score v)]"

definition metadata_default :: feature_metadata where
  "metadata_default = \<lparr>fm_computed_at = None, fm_freshness_seconds = None, fm_source = ''online_store'',
     fm_schema_version = ''1.0''\<rparr>"

definition raw_float :: "rval dict \<Rightarrow> string \<Rightarrow> exn + pyfloat" where
  "raw_float raw key = (case map_of raw key of None \<Rightarrow> Inr (Fin 0) | Some v \<Rightarrow> py_float v)"

definition read_vector :: "rval dict \<Rightarrow> exn + feature_vector" where
  "read_vector raw =
     ebind (emap (\<lambda>k. ebind (raw_float raw k) (\<lambda>x. Inr (k, x))) VECTOR_FIELDS) (\<lambda>kvs. Inr (vector_of kvs))"

fun split_commas :: "string \<Rightarrow> string list" where
  "split_commas [] = [[]]"
| "split_commas (c # cs) =
     (if c = CHR '','' then [] # split_commas cs
      else case split_commas cs of [] \<Rightarrow> [[c]] | w # ws \<Rightarrow> (c # w) # ws)"

definition select_features :: "string option \<Rightarrow> feature_vector \<Rightarrow> feature_vector" where
  "select_features features vector =
     (case features of
        None \<Rightarrow> vector
      | Some f \<Rightarrow>
          if f = [] then vector
          else
            let requested = set (split_commas f);
                filtered = filter (\<lambda>(k, v). k \<in> requested) (vector_dict vector)
            in vector_of (filtered @ map (\<lambda>k. (k, Fin 0)) VECTOR_FIELDS))"

definition freshness :: "rval option \<Rightarrow> pyfloat \<Rightarrow> pyfloat option" where
  "freshness computed_at now =
     (case computed_at of
        None \<Rightarrow> None
      | Some t \<Rightarrow>
          if rval_truthy t then (case py_float t of Inl e \<Rightarrow> None | Inr x \<Rightarrow> Some (py_round 1 (now - x)))
          else None)"

definition get_features ::
  "'s redis \<Rightarrow> string \<Rightarrow> string option \<Rightarrow> bool \<Rightarrow> 's \<Rightarrow> exn + vector_response" where
  "get_features R user_id features include_metadata s =
     ebind (r_hgetall R (feature_key user_id) s) (\<lambda>raw.
       if raw = [] then Inl (HTTPException 404)
       else
         ebind (read_vector raw) (\<lambda>vector.
           let computed_at = map_of raw ''computed_at'';
               metadata = (if include_metadata
                 then metadata_default\<lparr>fm_computed_at := computed_at,
                   fm_freshness_seconds := freshness computed_at (r_clock R s)\<rparr>
                 else metadata_default)
           in Inr \<lparr>vr_user_id = user_id, vr_features = select_features features vector, vr_metadata = metadata\<rparr>))"

subsection \<open>Administration\<close>

record refresh_response =
  rf_status :: string
  rf_user_id :: string
  rf_queued_features :: "string list"

definition do_refresh :: "'s redis \<Rightarrow> string \<Rightarrow> 's \<Rightarrow> (exn + unit) \<times> 's" where
  "do_refresh R user_id s = r_exec R [EXPIRE (feature_key user_id) 300] s"

text \<open>The response, and the background task that runs after it is sent.\<close>

definition refresh_feature ::
  "'s redis \<Rightarrow> string \<Rightarrow> string list option \<Rightarrow> 's \<Rightarrow> refresh_response \<times> (exn + unit) \<times> 's" where
  "refresh_feature R user_id requested s =
     (let queued = (case requested of None \<Rightarrow> butlast FEATURE_FIELDS
          | Some fs \<Rightarrow> if fs = [] then butlast FEATURE_FIELDS else fs)
      in (\<lparr>rf_status = ''refresh_queued'', rf_user_id = user_id, rf_queued_features = queued\<rparr>, do_refresh R user_id s))"

record rca_body =
  rb_feature_name :: string
  rb_psi_score :: pyfloat
  rb_ks_statistic :: pyfloat
  rb_z_score :: pyfloat
  rb_severity :: string

record rca_response =
  ra_feature_name :: string
  ra_probable_cause :: string
  ra_cause_category :: string
  ra_confidence :: pyfloat
  ra_affected_features :: "string list"
  ra_remediation_steps :: "string list"
  ra_urgency :: string
  ra_estimated_impact :: string
  ra_model_used :: string

fun str_list :: "json \<Rightarrow> exn + string list" where
  "str_list (JArr js) = emap of_JStr js"
| "str_list j = Inl ValueError"

definition rca_response_of :: "rca_diagnosis \<Rightarrow> exn + rca_response" where
  "rca_response_of d =
     ebind (of_JStr (rd_probable_cause d)) (\<lambda>probable_cause.
     ebind (of_JStr (rd_cause_category d)) (\<lambda>cause_category.
     ebind (str_list (rd_affected_features d)) (\<lambda>affected_features.
     ebind (str_list (rd_remediation_steps d)) (\<lambda>remediation_steps.
     ebind (of_JStr (rd_urgency d)) (\<lambda>urgency.
     ebind (of_JStr (rd_estimated_impact d)) (\<lambda>estimated_impact.
       Inr \<lparr>ra_feature_name = rd_feature_name d, ra_probable_cause = probable_cause, ra_cause_category = cause_category,
            ra_confidence = rd_confidence d, ra_affected_features = affected_features,
            ra_remediation_steps = remediation_steps, ra_urgency = urgency, ra_estimated_impact = estimated_impact,
            ra_model_used = rd_model_used d\<rparr>))))))"

definition rca_endpoint_report :: "rca_body \<Rightarrow> pyfloat \<Rightarrow> rca_report" where
  "rca_endpoint_report body now = \<lparr>
     rr_feature_name = rb_feature_name body, rr_psi_score = rb_psi_score body, rr_ks_statistic = rb_ks_statistic body,
     rr_ks_p_value = Fin 0, rr_z_score = rb_z_score body, rr_severity = rb_severity body,
     rr_baseline_period = ''last_7d'', rr_current_period = ''last_1h'', rr_sample_size = 1000,
     rr_kl_divergence = Fin 0, rr_computed_at = now\<rparr>"

definition run_rca ::
  "'s rca_retry \<Rightarrow> (request \<Rightarrow> 's \<Rightarrow> (exn + response) \<times> 's) \<Rightarrow> (string \<Rightarrow> pyfloat option) \<Rightarrow> diagnostics_config
   \<Rightarrow> pyfloat \<Rightarrow> rca_body \<Rightarrow> 's engine \<Rightarrow> (exn + rca_response) \<times> 's engine" where
  "run_rca retry create parse cfg now body st =
     (case analyze retry create parse cfg now (rca_endpoint_report body now) None st of
        (diagnosis, st') \<Rightarrow> (rca_response_of diagnosis, st'))"

subsection \<open>Health and metadata\<close>

record health_response =
  he_status :: string
  he_redis :: string
  he_db :: string
  he_timestamp :: pyfloat

definition health :: "'s redis \<Rightarrow> ('d \<Rightarrow> exn + unit) \<Rightarrow> pyfloat \<Rightarrow> 's \<Rightarrow> 'd \<Rightarrow> health_response" where
  "health R select_1 now s d =
     (let redis_status = (case r_ping R s of Inl e \<Rightarrow> ''error'' | Inr u \<Rightarrow> ''ok'');
          db_status = (case select_1 d of Inl e \<Rightarrow> ''error'' | Inr u \<Rightarrow> ''ok'');
          overall = (if redis_status = ''ok'' \<and> db_status = ''ok'' then ''healthy'' else ''degraded'')
      in \<lparr>he_status = overall, he_redis = redis_status, he_db = db_status, he_timestamp = now\<rparr>)"

definition ready :: "'s redis \<Rightarrow> 's \<Rightarrow> bool http_response" where
  "ready R s =
     (case r_ping R s of
        Inr u \<Rightarrow> \<lparr>hr_status = 200, hr_headers = [], hr_body = True\<rparr>
      | Inl e \<Rightarrow> \<lparr>hr_status = 503, hr_headers = [], hr_body = False\<rparr>)"

definition list_feature_metadata :: "'d database \<Rightarrow> 'd \<Rightarrow> exn + Registry.feature_response list" where
  "list_feature_metadata DB d = ebind (get_all_features DB d) (\<lambda>fs. Inr (map response_of fs))"

definition get_feature_metadata :: "'d database \<Rightarrow> string \<Rightarrow> 'd \<Rightarrow> exn + Registry.feature_response" where
  "get_feature_metadata DB feature_name d =
     ebind (get_feature DB d feature_name) (\<lambda>feature.
       case feature of None \<Rightarrow> Inl (HTTPException 404) | Some f \<Rightarrow> Inr (response_of f))"

subsection \<open>Reading a vector\<close>

lemma raw_float_error: "raw_float raw k = Inl e \<Longrightarrow> e = ValueError"
  by (auto simp: raw_float_def split: option.splits elim: py_float.elims)

lemma emap_error: "emap f xs = Inl e \<Longrightarrow> \<exists>x \<in> set xs. f x = Inl e"
  by (induction xs) (auto simp: ebind_Inl_iff)

lemma emap_ok: "emap f xs = Inr ys \<Longrightarrow> list_all2 (\<lambda>x y. f x = Inr y) xs ys"
  by (induction xs arbitrary: ys) (auto simp: ebind_Inr_iff)

lemma vector_dict_of: "vector_dict (vector_of d) = map (\<lambda>k. (k, dict_get d k (Fin 0))) VECTOR_FIELDS"
  by (simp add: vector_dict_def vector_of_def VECTOR_FIELDS_def)

lemma vector_of_dict [simp]: "vector_of (vector_dict v) = v"
  by (simp add: vector_dict_def vector_of_def dict_get_def)

lemma read_vector_map:
  assumes "list_all (\<lambda>k. raw_float raw k = Inr (g k)) VECTOR_FIELDS"
  shows "read_vector raw = Inr (vector_of (map (\<lambda>k. (k, g k)) VECTOR_FIELDS))"
proof -
  have "emap (\<lambda>k. ebind (raw_float raw k) (\<lambda>x. Inr (k, x))) VECTOR_FIELDS = Inr (map (\<lambda>k. (k, g k)) VECTOR_FIELDS)"
    by (rule emap_all [OF assms]) simp
  then show ?thesis by (simp add: read_vector_def)
qed

lemma dict_get_keyed: "k \<in> set ks \<Longrightarrow> dict_get (map (\<lambda>k. (k, g k)) ks) k v = g k"
  by (simp add: dict_get_def map_of_map_keyed)

lemma vector_dict_map: "vector_dict (vector_of (map (\<lambda>k. (k, g k)) VECTOR_FIELDS)) = map (\<lambda>k. (k, g k)) VECTOR_FIELDS"
  unfolding vector_dict_of by (rule map_cong [OF refl]) (simp add: dict_get_keyed)

text \<open>
  The answer to a request for a user whose stored fields are the numbers \<open>g\<close>, stamped with \<open>t\<close>.
\<close>

lemma get_features_numbers:
  assumes "r_hgetall R (feature_key u) s = Inr raw" and "raw \<noteq> []"
    and "list_all (\<lambda>k. raw_float raw k = Inr (g k)) VECTOR_FIELDS" and "map_of raw ''computed_at'' = Some (RNum t)"
  shows "\<exists>resp. get_features R u None True s = Inr resp \<and> vr_user_id resp = u
    \<and> vector_dict (vr_features resp) = map (\<lambda>k. (k, g k)) VECTOR_FIELDS
    \<and> fm_freshness_seconds (vr_metadata resp) = Some (py_round 1 (r_clock R s - t))"
  using assms read_vector_map [OF assms(3)]
  by (simp add: get_features_def Let_def select_features_def vector_dict_map freshness_def)

context redis_server
begin

lemma get_features_view:
  assumes "r_hgetall R (feature_key u) s = Inr raw"
    and "list_all (\<lambda>k. v_hash (view s) (feature_key u) k = Some (RNum (g k))) VECTOR_FIELDS"
    and "v_hash (view s) (feature_key u) ''computed_at'' = Some (RNum t)"
  shows "\<exists>resp. get_features R u None True s = Inr resp \<and> vr_user_id resp = u
    \<and> vector_dict (vr_features resp) = map (\<lambda>k. (k, g k)) VECTOR_FIELDS
    \<and> fm_freshness_seconds (vr_metadata resp) = Some (py_round 1 (r_clock R s - t))"
proof -
  have raw: "map_of raw = v_hash (view s) (feature_key u)" using hgetall_view [OF assms(1)] by simp
  then have "map_of raw ''computed_at'' \<noteq> None" using assms(3) by simp
  then have "raw \<noteq> []" by auto
  then show ?thesis
    using assms(2,3) by (intro get_features_numbers [OF assms(1)]) (simp_all add: list_all_iff raw_float_def raw)
qed

lemma write_features_stamped:
  assumes "stop_after n retry" and "0 < oc_feature_ttl_seconds cfg" and "t \<noteq> Fin 0"
    and "write_features R retry cfg u features (Some t) s = (Inr (), s')"
  shows "view s' = apply_cmds (feature_cmds (oc_feature_ttl_seconds cfg) u (write_payload features t)) (view s)"
proof -
  let ?cs = "\<lambda>i :: unit. feature_cmds (oc_feature_ttl_seconds cfg) u (write_payload features t)"
  have absorb: "apply_cmds (?cs j) (apply_cmds (?cs i) v) = apply_cmds (?cs j) v" for i j v
    using assms(2) by (intro feature_cmds_absorb) (auto simp: payload_nonempty)
  have "stamp (Some t) now = t" for now using assms(3) by (simp add: stamp_def f_or_def)
  then have "attempts n (\<lambda>s. r_exec R (?cs ()) s) s = (Inr (), s')"
    using assms(1,4) by (simp add: write_features_def stop_after_def)
  from retried_ok [where cs = ?cs and g = "\<lambda>t. ()", OF absorb this] show ?thesis by simp
qed

end

subsection \<open>Properties\<close>

text \<open>
  What the online store was given is what the API serves: after a write that returned, with a value for each of the
  six features and a timestamp, a request whose read of the store returns is answered with exactly those values, and the
  freshness is the time since that timestamp, rounded to a tenth of a second.
\<close>

theorem api_serves_written:
  assumes "redis_server R view" and "stop_after n retry" and "0 < oc_feature_ttl_seconds cfg"
    and "list_all (\<lambda>k. map_of features k = Some (g k)) VECTOR_FIELDS" and "t \<noteq> Fin 0"
    and "write_features R retry cfg u features (Some t) s = (Inr (), s')"
    and "r_hgetall R (feature_key u) s' = Inr raw"
  shows "\<exists>resp. get_features R u None True s' = Inr resp \<and> vr_user_id resp = u
    \<and> vector_dict (vr_features resp) = map (\<lambda>k. (k, g k)) VECTOR_FIELDS
    \<and> fm_freshness_seconds (vr_metadata resp) = Some (py_round 1 (r_clock R s' - t))"
proof -
  have "view s' = apply_cmds (feature_cmds (oc_feature_ttl_seconds cfg) u (write_payload features t)) (view s)"
    by (rule redis_server.write_features_stamped [OF assms(1,2,3,5,6)])
  then have h: "v_hash (view s') (feature_key u) = v_hash (view s) (feature_key u) ++ map_of (write_payload features t)"
    using assms(3) by (simp add: feature_cmds_view payload_nonempty)
  have "v_hash (view s') (feature_key u) k = Some (RNum (g k))" if "k \<in> set VECTOR_FIELDS" for k
    using that assms(4) by (auto simp: h map_of_write_payload py_str_def VECTOR_FIELDS_def)
  then show ?thesis
    by (intro redis_server.get_features_view [OF assms(1,7)]) (simp_all add: list_all_iff h map_of_write_payload py_str_def)
qed

definition six_features :: "pyfloat dict" where
  "six_features = map (\<lambda>k. (k, Fin (real (length k)))) VECTOR_FIELDS"

lemma api_serves_written_witness:
  "\<exists>resp. get_features ref_redis ''usr_00001'' None True
       (snd (write_features ref_redis (attempts 3) online_config_default ''usr_00001'' six_features (Some (Fin 990)) empty_db)) = Inr resp
     \<and> fv_txn_count_5m (vr_features resp) = Fin 12"
proof -
  let ?run = "write_features ref_redis (attempts 3) online_config_default ''usr_00001'' six_features (Some (Fin 990)) empty_db"
  have run: "?run = (Inr (), snd ?run)" by (simp add: write_features_def ref_redis_def numeral_3_eq_3)
  have ttl: "0 < oc_feature_ttl_seconds online_config_default" by (simp add: online_config_default_def)
  have six: "list_all (\<lambda>k. map_of six_features k = Some (Fin (real (length k)))) VECTOR_FIELDS"
    by (simp add: list_all_iff six_features_def map_of_map_keyed)
  obtain raw where raw: "r_hgetall ref_redis (feature_key ''usr_00001'') (snd ?run) = Inr raw"
    by (simp add: ref_redis_def)
  obtain resp where resp: "get_features ref_redis ''usr_00001'' None True (snd ?run) = Inr resp"
    "vector_dict (vr_features resp) = map (\<lambda>k. (k, Fin (real (length k)))) VECTOR_FIELDS"
    using api_serves_written [OF ref_redis_server stop_after_attempts ttl six _ run raw] by auto
  from resp(2) have "fv_txn_count_5m (vr_features resp) = Fin 12" by (simp add: vector_dict_def VECTOR_FIELDS_def)
  with resp(1) show ?thesis by blast
qed



text \<open>
  C35. The errors of the feature route, when its read of the store returns: 404 exactly for a user without a hash, and
  otherwise \<open>ValueError\<close> exactly when one of the six fields holds a text that is no number. A request never fails
  for any other reason, whatever its filter.
\<close>

theorem get_features_errors:
  assumes "redis_server R view" and "r_hgetall R (feature_key u) s = Inr raw"
  shows "get_features R u features include_metadata s =
    (if v_hash (view s) (feature_key u) = Map.empty then Inl (HTTPException 404)
     else if list_ex (\<lambda>k. \<exists>t. v_hash (view s) (feature_key u) k = Some (RTxt t)) VECTOR_FIELDS then Inl ValueError
     else Inr (projr (get_features R u features include_metadata s)))"
proof -
  have raw: "map_of raw = v_hash (view s) (feature_key u)" using redis_server.hgetall_view [OF assms] by simp
  then have empty: "raw = [] \<longleftrightarrow> v_hash (view s) (feature_key u) = Map.empty" using map_of_eq_empty_iff [of raw] by auto
  have raises: "(\<exists>e. read_vector raw = Inl e) \<longleftrightarrow> list_ex (\<lambda>k. \<exists>t. v_hash (view s) (feature_key u) k = Some (RTxt t)) VECTOR_FIELDS"
  proof
    assume "\<exists>e. read_vector raw = Inl e"
    then obtain k e where "k \<in> set VECTOR_FIELDS" "raw_float raw k = Inl e"
      by (auto simp: read_vector_def ebind_Inl_iff dest!: emap_error)
    then show "list_ex (\<lambda>k. \<exists>t. v_hash (view s) (feature_key u) k = Some (RTxt t)) VECTOR_FIELDS"
      unfolding list_ex_iff by (intro bexI [of _ k]) (auto simp: raw_float_def raw split: option.splits elim: py_float.elims)
  next
    assume "list_ex (\<lambda>k. \<exists>t. v_hash (view s) (feature_key u) k = Some (RTxt t)) VECTOR_FIELDS"
    then obtain k where k: "k \<in> set VECTOR_FIELDS" "raw_float raw k = Inl ValueError"
      by (auto simp: list_ex_iff raw_float_def raw)
    show "\<exists>e. read_vector raw = Inl e"
    proof (cases "read_vector raw")
      case (Inr v)
      then obtain ys where "emap (\<lambda>k. ebind (raw_float raw k) (\<lambda>x. Inr (k, x))) VECTOR_FIELDS = Inr ys"
        by (auto simp: read_vector_def ebind_Inr_iff)
      from emap_ok [OF this] k show ?thesis
        by (auto simp: list_all2_conv_all_nth in_set_conv_nth ebind_Inr_iff)
    qed auto
  qed
  have "e = ValueError" if "read_vector raw = Inl e" for e
    using that raw_float_error by (auto simp: read_vector_def ebind_Inl_iff dest!: emap_error)
  then show ?thesis
    using raises by (cases "read_vector raw") (auto simp: get_features_def assms(2) empty [symmetric] Let_def)
qed

lemma get_features_errors_witness: "get_features ref_redis ''nobody'' None True empty_db = Inl (HTTPException 404)"
  using get_features_errors [OF ref_redis_server, of "''nobody''" empty_db "[]" None True]
  by (simp add: ref_redis_def empty_db_def ref_view_def)

text \<open>The filter keeps the requested fields and answers 0 for the others.\<close>

lemma select_features_dict:
  assumes "f \<noteq> []"
  shows "vector_dict (select_features (Some f) v)
    = map (\<lambda>(k, x). (k, if k \<in> set (split_commas f) then x else Fin 0)) (vector_dict v)"
proof -
  let ?req = "\<lambda>(k, x). k \<in> set (split_commas f)" and ?zeros = "map (\<lambda>k. (k, Fin 0)) VECTOR_FIELDS"
  have zeros: "dict_get ?zeros k (Fin 0) = Fin 0" for k by (simp add: VECTOR_FIELDS_def dict_get_def)
  have get: "dict_get (filter ?req d @ e) k (Fin 0) = (if k \<in> set (split_commas f) \<and> k \<in> fst ` set d
      then dict_get d k (Fin 0) else dict_get e k (Fin 0))" for d :: "pyfloat dict" and e k
    by (induction d) (auto simp: dict_get_def)
  have keys: "fst ` set (vector_dict v) = set VECTOR_FIELDS" by (auto simp: vector_dict_def VECTOR_FIELDS_def)
  have dict: "vector_dict v = map (\<lambda>k. (k, dict_get (vector_dict v) k (Fin 0))) VECTOR_FIELDS"
    using vector_dict_of [of "vector_dict v"] by simp
  have "vector_dict (select_features (Some f) v)
      = map (\<lambda>k. (k, if k \<in> set (split_commas f) then dict_get (vector_dict v) k (Fin 0) else Fin 0)) VECTOR_FIELDS"
    using assms by (auto simp: select_features_def Let_def vector_dict_of get keys zeros)
  also have "\<dots> = map (\<lambda>(k, x). (k, if k \<in> set (split_commas f) then x else Fin 0)) (vector_dict v)"
    by (subst (2) dict) simp
  finally show ?thesis .
qed

text \<open>
  The endpoint for root causes fixes the p-value of its report at 0. So when the model is not available it never
  answers \<open>unknown\<close>, the category of a feature without a clear signal, whatever the request: it answers
  \<open>seasonal_pattern\<close> with confidence 0.45 instead, even for a request whose statistics are all 0.
\<close>

theorem rca_endpoint_never_unknown:
  assumes "analyze_with_llm retry create parse cfg now (rca_endpoint_report body now) None st = (Inl e, st')"
  shows "\<exists>resp. run_rca retry create parse cfg now body st = (Inr resp, st') \<and> ra_feature_name resp = rb_feature_name body
    \<and> ra_cause_category resp \<noteq> ''unknown''
    \<and> (if Fin (1 / 10) < rb_psi_score body then True
       else ra_cause_category resp = ''seasonal_pattern'' \<and> ra_confidence resp = Fin 0.45)"
proof -
  let ?d = "rule_based_fallback now (rca_endpoint_report body now)"
  have "analyze retry create parse cfg now (rca_endpoint_report body now) None st = (?d, st')"
    using assms by (simp add: analyze_def)
  moreover have "\<not> Fin (1 / 5) < x" if "\<not> Fin (1 / 10) < x" for x using that by (cases x) auto
  then have "\<exists>resp. rca_response_of ?d = Inr resp \<and> ra_feature_name resp = rb_feature_name body
      \<and> ra_cause_category resp \<noteq> ''unknown''
      \<and> (if Fin (1 / 10) < rb_psi_score body then True
         else ra_cause_category resp = ''seasonal_pattern'' \<and> ra_confidence resp = Fin 0.45)"
    by (auto simp: rule_based_fallback_def fallback_rule_def rca_endpoint_report_def rca_response_of_def Let_def)
  ultimately show ?thesis by (simp add: run_rca_def)
qed

definition quiet_body :: rca_body where
  "quiet_body = \<lparr>rb_feature_name = ''anomaly_score'', rb_psi_score = Fin 0, rb_ks_statistic = Fin 0, rb_z_score = Fin 0,
     rb_severity = ''ok''\<rparr>"

lemma rca_endpoint_never_unknown_witness:
  "\<exists>resp st'. run_rca (attempts_on is_connection_error 3) unreachable Map.empty diagnostics_config_default (Fin 0) quiet_body
       \<lparr>en_client = False, en_world = 0\<rparr> = (Inr resp, st') \<and> ra_cause_category resp = ''seasonal_pattern''"
proof -
  have "analyze_with_llm (attempts_on is_connection_error 3) unreachable Map.empty diagnostics_config_default (Fin 0)
      (rca_endpoint_report quiet_body (Fin 0)) None \<lparr>en_client = False, en_world = 0\<rparr>
    = (Inl ValueError, \<lparr>en_client = False, en_world = 0\<rparr>)"
    by (simp add: analyze_with_llm_def analyze_once_def get_client_def diagnostics_config_default_def numeral_3_eq_3
        is_connection_error_def)
  from rca_endpoint_never_unknown [OF this] show ?thesis by (auto simp: quiet_body_def)
qed

text \<open>
  A refresh request extends nothing it should not and computes nothing: when its background task returns, the stored
  values and the index are as they were, and an existing user's features expire in 300 seconds, whatever the configured
  time to live, so a longer configured one is cut short; for a user without features nothing happens, and the response
  says \<open>refresh_queued\<close> all the same.
\<close>

theorem refresh_fixed_ttl:
  assumes "redis_server R view" and "refresh_feature R u names s = (resp, Inr (), s')"
  shows "rf_status resp = ''refresh_queued'' \<and> v_hash (view s') = v_hash (view s) \<and> v_set (view s') = v_set (view s)
    \<and> v_ttl (view s') = (if v_exists (view s) (feature_key u) then (v_ttl (view s))(feature_key u \<mapsto> 300) else v_ttl (view s))"
proof -
  have "view s' = apply_cmds [EXPIRE (feature_key u) 300] (view s)"
    using assms(2) by (intro redis_server.exec_ok [OF assms(1)]) (simp add: refresh_feature_def do_refresh_def Let_def)
  then show ?thesis using assms(2) by (auto simp: refresh_feature_def Let_def)
qed

lemma refresh_fixed_ttl_witness:
  "v_ttl (ref_view (snd (snd (refresh_feature ref_redis ''u'' None (fold ref_cmd (feature_cmds 600 ''u'' [(''f'', RNum 0)]) empty_db)))))
     (feature_key ''u'') = Some 300"
proof -
  let ?s = "fold ref_cmd (feature_cmds 600 ''u'' [(''f'', RNum 0)]) empty_db"
  have run: "refresh_feature ref_redis ''u'' None ?s
      = (fst (refresh_feature ref_redis ''u'' None ?s), Inr (), snd (snd (refresh_feature ref_redis ''u'' None ?s)))"
    by (simp add: refresh_feature_def Let_def do_refresh_def ref_redis_def)
  have "v_exists (ref_view ?s) (feature_key ''u'')"
    unfolding ref_cmds_view by (subst feature_cmds_view) (auto intro: v_exists_hash [where x = "''f''"])
  then show ?thesis using refresh_fixed_ttl [OF ref_redis_server run] by simp
qed

end
