(* ===== verification/Airflow.thy ===== *)
theory Airflow
  imports Validation Drift Diagnostics Registry
begin

text \<open>
  The scheduled jobs, \<open>airflow/dags/\<close> and \<open>airflow/plugins/\<close>: each Python task is a function over the values its run
  has pushed (XCom), the Redis client, the numerical library and the database, in the order the DAG chains them. The
  operators and the schedules belong to Airflow, and so do the retries of failed tasks (theory Dags has that of the backfill
  command); a branch is the name of the task it chooses. What a task prints is left out.
\<close>

subsection \<open>Values passed between tasks\<close>

datatype xval =
    XNum pyfloat
  | XStr string
  | XBool bool
  | XNames "string list"
  | XData "pyfloat list dict"

type_synonym xcom = "xval dict"

abbreviation xcom_push :: "string \<Rightarrow> xval \<Rightarrow> xcom \<Rightarrow> xcom" where
  "xcom_push key value xs \<equiv> AList.update key value xs"

subsection \<open>Writing a metric\<close>

text \<open>
  \<open>_write_metric\<close>, which each of two DAGs has a copy of: it opens a connection of its own, inserts and commits; every exception
  is swallowed.
\<close>

definition write_metric ::
  "'d database \<Rightarrow> ('d \<Rightarrow> (exn + unit) \<times> 'd) \<Rightarrow> real \<Rightarrow> string \<Rightarrow> string \<Rightarrow> pyfloat \<Rightarrow> 'd \<Rightarrow> 'd" where
  "write_metric DB connect now feature_name metric_type value d =
     (case connect d of
        (Inl e, d1) \<Rightarrow> d1
      | (Inr u, d1) \<Rightarrow>
          (case i_metric DB \<lparr>mt_feature_name = feature_name, mt_metric_type = metric_type, mt_metric_value = value,
              mt_recorded_at = now\<rparr> d1 of
             (Inl e, d2) \<Rightarrow> d2
           | (Inr u, d2) \<Rightarrow> snd (d_commit DB d2)))"

definition drift_write_metric ::
  "'d database \<Rightarrow> ('d \<Rightarrow> (exn + unit) \<times> 'd) \<Rightarrow> real \<Rightarrow> string \<Rightarrow> string \<Rightarrow> pyfloat \<Rightarrow> 'd \<Rightarrow> 'd" where
  "drift_write_metric DB connect now feature_name metric_type value d =
     (case connect d of
        (Inl e, d1) \<Rightarrow> d1
      | (Inr u, d1) \<Rightarrow>
          (case i_metric DB \<lparr>mt_feature_name = feature_name, mt_metric_type = metric_type, mt_metric_value = value,
              mt_recorded_at = now\<rparr> d1 of
             (Inl e, d2) \<Rightarrow> d2
           | (Inr u, d2) \<Rightarrow> snd (d_commit DB d2)))"

lemma drift_write_metric_eq [simp]: "drift_write_metric = write_metric"
  by (intro ext) (simp add: drift_write_metric_def write_metric_def)

text \<open>The contract of a database whose sessions start from what is committed.\<close>

locale postgres = registry_db +
  fixes connect :: "'a \<Rightarrow> (exn + unit) \<times> 'a"
  assumes connects: "connect d = (r, d') \<Longrightarrow> committed d' = committed d \<and> seen d' = committed d"
begin

lemma write_metric_unregistered:
  assumes "feature_name \<notin> feature_names (committed d)"
  shows "committed (write_metric DB connect now feature_name metric_type x d) = committed d"
proof -
  let ?m = "\<lparr>mt_feature_name = feature_name, mt_metric_type = metric_type, mt_metric_value = x, mt_recorded_at = now\<rparr>"
  obtain r d1 where c: "connect d = (r, d1)" by fastforce
  obtain q d2 where i: "i_metric DB ?m d1 = (q, d2)" by fastforce
  have "q \<noteq> Inr ()" using metric_ok [of ?m d1 d2] assms connects [OF c] i by auto
  then obtain e where "q = Inl e" by (cases q) auto
  then show ?thesis using c i connects [OF c] metric_raised [of ?m d1 e d2]
    by (auto simp: write_metric_def split: sum.split)
qed

end

definition ref_connect :: "ref_tables \<Rightarrow> (exn + unit) \<times> ref_tables" where
  "ref_connect d = (Inr (), d\<lparr>rt_seen := rt_committed d\<rparr>)"

lemma ref_postgres: "postgres ref_database rt_seen rt_committed ref_connect"
  by (intro postgres.intro ref_database_contract postgres_axioms.intro) (auto simp: ref_connect_def)

interpretation ref_pg: postgres ref_database rt_seen rt_committed ref_connect
  by (rule ref_postgres)

subsection \<open>Consistency validation, every 15 minutes\<close>

definition online_vals :: "rval dict \<Rightarrow> exn + pyfloat dict" where
  "online_vals data = emap (\<lambda>(k, v). ebind (py_float v) (\<lambda>x. Inr (k, x))) (filter (\<lambda>(k, v). k \<noteq> ''computed_at'') data)"

fun fetch_online :: "'s redis \<Rightarrow> string list \<Rightarrow> pyfloat dict dict \<Rightarrow> 's \<Rightarrow> exn + pyfloat dict dict" where
  "fetch_online R [] online_features s = Inr online_features"
| "fetch_online R (uid # uids) online_features s =
     ebind (r_hgetall R (feature_key uid) s) (\<lambda>data.
       if data = [] then fetch_online R uids online_features s
       else ebind (online_vals data) (\<lambda>vals. fetch_online R uids (AList.update uid vals online_features) s))"

text \<open>The simulated offline values: \<open>noise\<close> gives the random draws.\<close>

definition perturb :: "(string \<Rightarrow> string \<Rightarrow> pyfloat) \<Rightarrow> pyfloat dict dict \<Rightarrow> pyfloat dict dict" where
  "perturb noise online_features =
     map (\<lambda>(uid, vals). (uid, map (\<lambda>(k, v). (k, v * (Fin 1 + noise uid k))) vals)) online_features"

definition sample_and_compare ::
  "'s redis \<Rightarrow> 'd database \<Rightarrow> ('d \<Rightarrow> (exn + unit) \<times> 'd) \<Rightarrow> validation_config \<Rightarrow> real \<Rightarrow> (string \<Rightarrow> string \<Rightarrow> pyfloat)
   \<Rightarrow> xcom \<Rightarrow> 's \<Rightarrow> 'd \<Rightarrow> (exn + unit) \<times> xcom \<times> 'd" where
  "sample_and_compare R DB connect cfg now noise xs s d =
     (case r_srandmember R ''index:active_users'' 200 s of
        Inl e \<Rightarrow> (Inl e, xs, d)
      | Inr user_ids \<Rightarrow>
          if user_ids = [] then
            (Inr (), xcom_push ''report_json'' (XStr ''{}'') (xcom_push ''inconsistency_rate'' (XNum (Fin 0)) xs), d)
          else
            (case fetch_online R user_ids [] s of
               Inl e \<Rightarrow> (Inl e, xs, d)
             | Inr online_features \<Rightarrow>
                 (case validate_consistency cfg (Fin now) (perturb noise online_features) online_features of
                    Inl e \<Rightarrow> (Inl e, xs, d)
                  | Inr report \<Rightarrow>
                      (Inr (),
                       xcom_push ''worst_feature''
                         (XStr (case cr_worst_feature report of None \<Rightarrow> ''none'' | Some w \<Rightarrow> if w = [] then ''none'' else w))
                         (xcom_push ''inconsistency_rate'' (XNum (cr_inconsistency_rate report)) xs),
                       write_metric DB connect now ''all_features'' ''consistency_rate''
                         (Fin 1 - cr_inconsistency_rate report) d))))"

definition branch_on_consistency :: "xcom \<Rightarrow> string" where
  "branch_on_consistency xs =
     (let rate = (case map_of xs ''inconsistency_rate'' of Some (XNum r) \<Rightarrow> r | _ \<Rightarrow> Fin 0)
      in if Fin 0.05 < rate then ''trigger_rca'' else ''consistency_ok'')"

subsection \<open>Drift monitoring, hourly\<close>

definition DAG_FEATURES :: "string list" where
  "DAG_FEATURES = [''txn_count_5m'', ''avg_spend_1h'', ''session_activity_rate'', ''cart_abandon_ratio'',
     ''product_interaction_freq'', ''anomaly_score'']"

text \<open>A value that is not a number is skipped.\<close>

definition add_values :: "rval dict \<Rightarrow> pyfloat list dict \<Rightarrow> pyfloat list dict" where
  "add_values data feature_data =
     map (\<lambda>(feature, vs). (feature, case map_of data feature of
         None \<Rightarrow> vs
       | Some v \<Rightarrow> (case py_float v of Inl e \<Rightarrow> vs | Inr x \<Rightarrow> vs @ [x]))) feature_data"

fun load_loop :: "'s redis \<Rightarrow> string list \<Rightarrow> pyfloat list dict \<Rightarrow> 's \<Rightarrow> exn + pyfloat list dict" where
  "load_loop R [] feature_data s = Inr feature_data"
| "load_loop R (uid # uids) feature_data s =
     ebind (r_hgetall R (feature_key uid) s) (\<lambda>data. load_loop R uids (add_values data feature_data) s)"

definition load_current_distributions :: "'s redis \<Rightarrow> xcom \<Rightarrow> 's \<Rightarrow> exn + xcom" where
  "load_current_distributions R xs s =
     ebind (r_srandmember R ''index:active_users'' 500 s) (\<lambda>user_ids.
     ebind (load_loop R user_ids (map (\<lambda>f. (f, [])) DAG_FEATURES) s) (\<lambda>feature_data.
       Inr (xcom_push ''feature_data''
         (XData (map (\<lambda>(k, v). (k, take 200 v)) (filter (\<lambda>(k, v). v \<noteq> []) feature_data))) xs)))"

fun write_results ::
  "'d database \<Rightarrow> ('d \<Rightarrow> (exn + unit) \<times> 'd) \<Rightarrow> real \<Rightarrow> feature_drift list \<Rightarrow> 'd \<Rightarrow> 'd" where
  "write_results DB connect now [] d = d"
| "write_results DB connect now (r # rs) d =
     write_results DB connect now rs
       (drift_write_metric DB connect now (fd_feature_name r) ''ks_statistic'' (fd_ks_statistic r)
         (drift_write_metric DB connect now (fd_feature_name r) ''psi_score'' (fd_psi_score r) d))"

definition run_drift_detection ::
  "'s redis \<Rightarrow> numpy \<Rightarrow> 'd database \<Rightarrow> ('d \<Rightarrow> (exn + unit) \<times> 'd) \<Rightarrow> drift_config \<Rightarrow> real \<Rightarrow> xcom \<Rightarrow> 's \<Rightarrow> 'd
   \<Rightarrow> (exn + unit) \<times> xcom \<times> 'd" where
  "run_drift_detection R NP DB connect cfg now xs s d =
     (let feature_data = (case map_of xs ''feature_data'' of Some (XData fd) \<Rightarrow> fd | _ \<Rightarrow> [])
      in if feature_data = [] then (Inr (), xcom_push ''has_drift'' (XBool False) xs, d)
         else
           (case detect_drift R NP cfg (Fin now) feature_data s of
              Inl e \<Rightarrow> (Inl e, xs, d)
            | Inr report \<Rightarrow>
                (Inr (),
                 xcom_push ''drifting_features'' (XNames (dr_drifting_features report))
                   (xcom_push ''has_drift'' (XBool (has_critical_drift report)) xs),
                 write_results DB connect now (dr_feature_results report) d)))"

definition branch_on_drift :: "xcom \<Rightarrow> string" where
  "branch_on_drift xs = (if map_of xs ''has_drift'' = Some (XBool True) then ''run_rca'' else ''drift_ok'')"

definition placeholder_report :: "string \<Rightarrow> pyfloat \<Rightarrow> rca_report" where
  "placeholder_report feature_name now = \<lparr>
     rr_feature_name = feature_name, rr_psi_score = Fin 0.25, rr_ks_statistic = Fin 0.15, rr_ks_p_value = Fin 0.02,
     rr_z_score = Fin 3.5, rr_severity = ''alert'', rr_baseline_period = ''last_7d'', rr_current_period = ''last_1h'',
     rr_sample_size = 500, rr_kl_divergence = Fin 0, rr_computed_at = now\<rparr>"

definition run_rca_analysis ::
  "'w rca_retry \<Rightarrow> (request \<Rightarrow> 'w \<Rightarrow> (exn + response) \<times> 'w) \<Rightarrow> (string \<Rightarrow> pyfloat option) \<Rightarrow> diagnostics_config
   \<Rightarrow> pyfloat \<Rightarrow> xcom \<Rightarrow> 'w engine \<Rightarrow> rca_diagnosis option \<times> 'w engine" where
  "run_rca_analysis retry create parse cfg now xs st =
     (case (case map_of xs ''drifting_features'' of Some (XNames fs) \<Rightarrow> fs | _ \<Rightarrow> []) of
        [] \<Rightarrow> (None, st)
      | feature_name # rest \<Rightarrow>
          (case analyze retry create parse cfg now (placeholder_report feature_name now) None st of
             (diagnosis, st') \<Rightarrow> (Some diagnosis, st')))"

subsection \<open>Feature refresh, every 5 minutes\<close>

text \<open>The users whose remaining time is positive and below the threshold, in the order of the sample.\<close>

fun scan_stale :: "'s redis \<Rightarrow> int \<Rightarrow> string list \<Rightarrow> 's \<Rightarrow> exn + string list" where
  "scan_stale R ttl_threshold [] s = Inr []"
| "scan_stale R ttl_threshold (uid # uids) s =
     ebind (r_ttl R (feature_key uid) s) (\<lambda>ttl.
       ebind (scan_stale R ttl_threshold uids s) (\<lambda>rest.
         Inr (if 0 < ttl \<and> ttl < ttl_threshold then uid # rest else rest)))"

definition find_and_refresh_stale :: "'s redis \<Rightarrow> xcom \<Rightarrow> 's \<Rightarrow> (exn + xcom) \<times> 's" where
  "find_and_refresh_stale R xs s =
     (case ebind (r_srandmember R ''index:active_users'' 1000 s) (\<lambda>user_ids. scan_stale R 60 user_ids s) of
        Inl e \<Rightarrow> (Inl e, s)
      | Inr stale \<Rightarrow>
          let done_xs = xcom_push ''refreshed_count'' (XNum (fnat (length stale))) xs in
          if stale = [] then (Inr done_xs, s)
          else
            (case r_exec R (map (\<lambda>uid. EXPIRE (feature_key uid) 300) stale) s of
               (Inl e, s') \<Rightarrow> (Inl e, s')
             | (Inr u, s') \<Rightarrow> (Inr done_xs, s')))"

subsection \<open>Backfill, on demand\<close>

text \<open>\<open>today\<close> is the date of the call; \<open>ds_next\<close> is what the template \<open>macros.ds_add(ds, 1)\<close> yields.\<close>

definition validate_date_range :: "string dict \<Rightarrow> string \<Rightarrow> xcom \<Rightarrow> xcom" where
  "validate_date_range conf today xs =
     (let start = dict_get conf ''start_date'' ''2026-01-01''; finish = dict_get conf ''end_date'' today
      in xcom_push ''end_date'' (XStr finish) (xcom_push ''start_date'' (XStr start) xs))"

definition backfill_command :: "string dict \<Rightarrow> string \<Rightarrow> string" where
  "backfill_command conf ds_next =
     ''docker exec fs-spark-master spark-submit '' @ ''--master spark://spark-master:7077 ''
     @ ''/opt/offline_store/backfill.py ''
     @ ''--start '' @ dict_get conf ''start_date'' ''2026-01-01'' @ '' ''
     @ ''--end '' @ dict_get conf ''end_date'' ds_next"

subsection \<open>Hooks\<close>

definition redis_hook_get_feature :: "'s redis \<Rightarrow> string \<Rightarrow> 's \<Rightarrow> exn + rval dict" where
  "redis_hook_get_feature R user_id s =
     ebind (r_hgetall R (feature_key user_id) s) (\<lambda>d. Inr (if d = [] then [] else d))"

definition hook_api_url :: "string option \<Rightarrow> string dict \<Rightarrow> string" where
  "hook_api_url api_url environ =
     (case api_url of
        Some u \<Rightarrow> if u = [] then dict_get environ ''FEATURE_STORE_API_URL'' ''http://api:8000'' else u
      | None \<Rightarrow> dict_get environ ''FEATURE_STORE_API_URL'' ''http://api:8000'')"

definition raise_for_status :: "nat \<times> json \<Rightarrow> exn + json" where
  "raise_for_status = (\<lambda>(status, body). if 400 \<le> status \<and> status < 600 then Inl (HTTPException status) else Inr body)"

definition hook_get_features :: "(string \<Rightarrow> 's \<Rightarrow> exn + nat \<times> json) \<Rightarrow> string \<Rightarrow> string \<Rightarrow> 's \<Rightarrow> exn + json" where
  "hook_get_features http_get api_url user_id s =
     ebind (http_get (api_url @ ''/features/'' @ user_id) s) raise_for_status"

definition hook_trigger_refresh ::
  "(string \<Rightarrow> json \<Rightarrow> 's \<Rightarrow> exn + nat \<times> json) \<Rightarrow> string \<Rightarrow> string \<Rightarrow> 's \<Rightarrow> exn + json" where
  "hook_trigger_refresh http_post api_url user_id s =
     ebind (http_post (api_url @ ''/refresh-feature'') (JObj [(''user_id'', JStr user_id)]) s) raise_for_status"

subsection \<open>The consistency check cannot fail\<close>

definition bounded_noise :: "(string \<Rightarrow> string \<Rightarrow> pyfloat) \<Rightarrow> bool" where
  "bounded_noise noise \<longleftrightarrow> (\<forall>u k. \<exists>x. noise u k = Fin x \<and> \<bar>x\<bar> \<le> 0.005)"

definition finite_vals :: "pyfloat dict \<Rightarrow> bool" where
  "finite_vals vals \<longleftrightarrow> list_all (\<lambda>(k, v). is_fin v) vals"

definition finite_hashes :: "redis_view \<Rightarrow> bool" where
  "finite_hashes v \<longleftrightarrow> (\<forall>u f x. v_hash v (feature_key u) f = Some (RNum x) \<longrightarrow> is_fin x)"

lemma small_deviation:
  assumes "\<bar>x\<bar> \<le> (0.005 :: real)"
  shows "\<not> Fin 0.01 < deviation (Fin v * (Fin 1 + Fin x)) (Fin v)"
proof -
  have eq: "v * (1 + x) - v = v * x" by (simp add: algebra_simps)
  have "\<bar>v * x\<bar> = \<bar>v\<bar> * \<bar>x\<bar>" by (rule abs_mult)
  also have "\<dots> \<le> \<bar>v\<bar> * 0.005" by (rule mult_left_mono [OF assms]) simp
  finally have num: "\<bar>v * x\<bar> \<le> 0.005 * \<bar>v\<bar>" by simp
  have "0.995 * \<bar>v\<bar> \<le> (1 + x) * \<bar>v\<bar>" using assms by (intro mult_right_mono) auto
  also have "\<dots> = \<bar>v * (1 + x)\<bar>" using assms by (simp add: abs_mult mult.commute)
  finally have den: "0.995 * \<bar>v\<bar> \<le> \<bar>v * (1 + x)\<bar>" .
  have "\<bar>v * x\<bar> \<le> 0.01 * (\<bar>v * (1 + x)\<bar> + 1 / 10 ^ 6)" using num den by simp
  then have "\<bar>v * x\<bar> / (\<bar>v * (1 + x)\<bar> + 1 / 10 ^ 6) \<le> 0.01" by (simp add: divide_le_eq add_pos_nonneg add_nonneg_pos)
  then show ?thesis by (simp add: deviation_fin eq)
qed

lemma deviation_zero: "\<not> Fin 0.01 < deviation (Fin 0) (Fin 0)"
  by (simp add: deviation_fin)

lemma online_vals_finite:
  assumes "online_vals data = Inr vals" and "list_all (\<lambda>(k, v). case v of RNum x \<Rightarrow> is_fin x | RTxt t \<Rightarrow> True) data"
  shows "finite_vals vals"
proof -
  have "finite_vals vals" if "emap (\<lambda>(k, v). ebind (py_float v) (\<lambda>x. Inr (k, x))) d = Inr vals"
    "list_all (\<lambda>(k, v). case v of RNum x \<Rightarrow> is_fin x | RTxt t \<Rightarrow> True) d" for d
    using that
  proof (induction d arbitrary: vals)
    case Nil
    then show ?case by (simp add: finite_vals_def)
  next
    case (Cons kv d)
    then show ?case by (auto simp: finite_vals_def ebind_Inr_iff split: rval.splits elim!: py_float.elims)
  qed
  then show ?thesis using assms by (auto simp: online_vals_def list_all_iff)
qed

context redis_server
begin

lemma fetch_online_finite:
  assumes "fetch_online R uids online s = Inr online'" and "finite_hashes (view s)"
    and "list_all (finite_vals \<circ> snd) online" and "distinct (map fst online)"
  shows "list_all (finite_vals \<circ> snd) online' \<and> distinct (map fst online')"
  using assms(1,3,4)
proof (induction uids arbitrary: online)
  case Nil
  then show ?case by simp
next
  case (Cons uid uids)
  obtain data where data: "r_hgetall R (feature_key uid) s = Inr data"
    and rest: "(if data = [] then fetch_online R uids online s
       else ebind (online_vals data) (\<lambda>vals. fetch_online R uids (AList.update uid vals online) s)) = Inr online'"
    using Cons.prems(1) by (auto simp: ebind_Inr_iff)
  show ?case
  proof (cases "data = []")
    case True
    then show ?thesis using rest Cons.IH Cons.prems(2,3) by simp
  next
    case False
    then obtain vals where vals: "online_vals data = Inr vals" "fetch_online R uids (AList.update uid vals online) s = Inr online'"
      using rest by (auto simp: ebind_Inr_iff)
    have "map_of data = v_hash (view s) (feature_key uid)" "distinct (map fst data)" using hgetall_view [OF data] by simp_all
    then have "list_all (\<lambda>(k, v). case v of RNum x \<Rightarrow> is_fin x | RTxt t \<Rightarrow> True) data"
      using assms(2) by (auto simp: list_all_iff finite_hashes_def split: rval.splits)
        (metis map_of_is_SomeI)
    then have fin: "finite_vals vals" using online_vals_finite [OF vals(1)] by simp
    have "set (AList.update uid vals online) \<subseteq> insert (uid, vals) (set online)"
      by (induction online) auto
    then have "list_all (finite_vals \<circ> snd) (AList.update uid vals online)"
      using fin Cons.prems(2) by (auto simp: list_all_iff)
    then show ?thesis using Cons.IH [OF vals(2)] distinct_keys_update [OF Cons.prems(3)] by blast
  qed
qed

end

lemma dict_get_perturbed:
  "dict_get (map (\<lambda>(k, v). (k, v * c k)) vals) f (Fin 0) = (if f \<in> fst ` set vals then dict_get vals f (Fin 0) * c f else Fin 0)"
  by (induction vals) (auto simp: dict_get_def)

lemma perturbed_good:
  assumes "bounded_noise noise" and "list_all (finite_vals \<circ> snd) online" and "distinct (map fst online)"
    and "row \<in> set (perturb noise online)"
  shows "\<not> user_bad (Fin 0.01) online row"
proof -
  obtain uid vals where uv: "(uid, vals) \<in> set online" "row = (uid, map (\<lambda>(k, v). (k, v * (Fin 1 + noise uid k))) vals)"
    using assms(4) by (auto simp: perturb_def)
  have get: "dict_get online uid [] = vals" using uv(1) assms(3) by (simp add: dict_get_def)
  have "\<not> Fin 0.01 < deviation_at online f row" for f
  proof (cases "f \<in> fst ` set vals")
    case True
    then obtain x where x: "map_of vals f = Some x" by (metis map_of_eq_None_iff not_Some_eq)
    then have "is_fin x" using assms(2) uv(1) by (fastforce simp: list_all_iff finite_vals_def dest: map_of_SomeD)
    moreover obtain y where "noise uid f = Fin y" "\<bar>y\<bar> \<le> 0.005" using assms(1) by (auto simp: bounded_noise_def)
    moreover have "dict_get vals f (Fin 0) = x" by (simp add: dict_get_def x)
    ultimately show ?thesis using small_deviation [of y] True
      by (cases x) (simp_all add: deviation_at_def uv(2) get dict_get_perturbed)
  next
    case False
    then have "map_of vals f = None" by (simp add: map_of_eq_None_iff)
    then have "dict_get vals f (Fin 0) = Fin 0" by (simp add: dict_get_def)
    then show ?thesis using False deviation_zero by (simp add: deviation_at_def uv(2) get dict_get_perturbed)
  qed
  then show ?thesis by (simp add: user_bad_def)
qed

text \<open>
  C36. The scheduled consistency check cannot fail: it compares the online values with themselves, perturbed by at most half
  a percent, so as long as the stored numbers are finite the rate it reports is 0 and the run takes the branch
  \<open>consistency_ok\<close>; \<open>trigger_rca\<close> is never reached, however skewed the offline store is.
\<close>

theorem consistency_dag_never_triggers:
  assumes "redis_server R view" and "bounded_noise noise" and "finite_hashes (view s)"
    and "sample_and_compare R DB connect validation_config_default now noise xs s d = (Inr (), xs', d')"
  shows "branch_on_consistency xs' = ''consistency_ok'' \<and> map_of xs' ''inconsistency_rate'' = Some (XNum (Fin 0))"
proof -
  obtain users where users: "r_srandmember R ''index:active_users'' 200 s = Inr users"
    using assms(4) by (auto simp: sample_and_compare_def split: sum.splits)
  have rate: "map_of xs' ''inconsistency_rate'' = Some (XNum (Fin 0))"
  proof (cases "users = []")
    case True
    then show ?thesis using assms(4) users by (auto simp: sample_and_compare_def)
  next
    case False
    then obtain online where online: "fetch_online R users [] s = Inr online"
      using assms(4) users by (auto simp: sample_and_compare_def split: sum.splits)
    have fin: "list_all (finite_vals \<circ> snd) online \<and> distinct (map fst online)"
      by (rule redis_server.fetch_online_finite [OF assms(1) online assms(3)]) simp_all
    have "filter (user_bad (Fin 0.01) online) (perturb noise online) = []"
      using perturbed_good [OF assms(2)] fin by (auto simp: filter_empty_conv)
    then have "map_of xs' ''inconsistency_rate'' = Some (XNum (Fin (round_real 6 0)))"
      using assms(4) users False online
      by (auto simp: sample_and_compare_def validate_consistency_eq validation_config_default_def)
    then show ?thesis by (simp add: round_real_def half_even_def)
  qed
  then show ?thesis by (simp add: branch_on_consistency_def)
qed

lemma sample_hashes_finite:
  "finite_hashes (ref_view (fold ref_cmd (feature_cmds 300 ''u'' [(''txn_count_5m'', RNum (Fin 3))]) empty_db))"
proof -
  have "v_hash (ref_view empty_db) k = Map.empty" for k by (simp add: ref_view_def empty_db_def)
  then show ?thesis
    unfolding ref_cmds_view by (subst feature_cmds_view) (auto simp: finite_hashes_def split: if_splits)
qed

lemma consistency_dag_never_triggers_witness:
  "\<exists>xs' d'. sample_and_compare ref_redis ref_database ref_connect validation_config_default 5 (\<lambda>u k. Fin 0.004) [] 
       (fold ref_cmd (feature_cmds 300 ''u'' [(''txn_count_5m'', RNum (Fin 3))]) empty_db) empty_tables = (Inr (), xs', d')
     \<and> branch_on_consistency xs' = ''consistency_ok''"
proof -
  let ?s = "fold ref_cmd (feature_cmds 300 ''u'' [(''txn_count_5m'', RNum (Fin 3))]) empty_db"
  have noise: "bounded_noise (\<lambda>u k. Fin 0.004)"
    unfolding bounded_noise_def by (intro allI exI [of _ "0.004"]) simp
  have fin: "finite_hashes (ref_view ?s)" by (rule sample_hashes_finite)
  have db: "db_set ?s ''index:active_users'' = [''u'']" "db_hash ?s (feature_key ''u'') = [(''txn_count_5m'', RNum (Fin 3))]"
    by (simp_all add: feature_cmds_def empty_db_def db_exists_def feature_key_def)
  have "fetch_online ref_redis [''u''] [] ?s = Inr [(''u'', [(''txn_count_5m'', Fin 3)])]"
    by (simp add: ref_redis_def online_vals_def db del: fold_simps)
  then obtain xs' d' where run: "sample_and_compare ref_redis ref_database ref_connect validation_config_default 5 (\<lambda>u k. Fin 0.004) []
      ?s empty_tables = (Inr (), xs', d')"
    by (simp add: sample_and_compare_def validate_consistency_eq db ref_redis_def del: fold_simps fetch_online.simps)
  show ?thesis using consistency_dag_never_triggers [OF ref_redis_server noise fin run] run by blast
qed

text \<open>
  The consistency rate is never recorded: it is filed under \<open>all_features\<close>, which is no registered feature, so the
  foreign key rejects the row and the exception is swallowed. The task succeeds all the same.
\<close>

theorem consistency_rate_lost:
  assumes "postgres DB seen committed connect" and "''all_features'' \<notin> feature_names (committed d)"
    and "sample_and_compare R DB connect cfg now noise xs s d = (r, xs', d')"
  shows "committed d' = committed d"
  using assms(3) postgres.write_metric_unregistered [OF assms(1,2)]
  by (auto simp: sample_and_compare_def split: sum.splits if_splits)

lemma consistency_rate_lost_witness:
  "rt_committed (snd (snd (sample_and_compare ref_redis ref_database ref_connect validation_config_default 5 (\<lambda>u k. Fin 0) []
     empty_db empty_tables))) = rt_committed empty_tables"
proof -
  let ?run = "sample_and_compare ref_redis ref_database ref_connect validation_config_default 5 (\<lambda>u k. Fin 0) [] empty_db empty_tables"
  have "?run = (fst ?run, fst (snd ?run), snd (snd ?run))" by simp
  then show ?thesis
    by (rule consistency_rate_lost [OF ref_postgres, rotated]) (simp add: empty_tables_def feature_names_def Let_def)
qed

subsection \<open>The drift check\<close>

definition finite_data :: "pyfloat list dict \<Rightarrow> bool" where
  "finite_data fd \<longleftrightarrow> list_all (\<lambda>(f, vs). list_all is_fin vs) fd"

lemma finite_data_iff: "finite_data fd \<longleftrightarrow> (\<forall>f vs. (f, vs) \<in> set fd \<longrightarrow> (\<forall>x \<in> set vs. is_fin x))"
  by (auto simp: finite_data_def list_all_iff)

lemma finite_data_get: "finite_data fd \<Longrightarrow> list_all is_fin (dict_get fd f [])"
  by (induction fd) (auto simp: finite_data_def dict_get_def)

context redis_server
begin

lemma load_loop_finite:
  assumes "finite_hashes (view s)" and "load_loop R uids fd s = Inr fd'" and "finite_data fd"
  shows "finite_data fd'"
  using assms(2,3)
proof (induction uids arbitrary: fd)
  case Nil
  then show ?case by simp
next
  case (Cons uid uids)
  obtain data where data: "r_hgetall R (feature_key uid) s = Inr data" and rest: "load_loop R uids (add_values data fd) s = Inr fd'"
    using Cons.prems(1) by (auto simp: ebind_Inr_iff)
  have "map_of data = v_hash (view s) (feature_key uid)" using hgetall_view [OF data] by simp
  then have "is_fin x" if "map_of data f = Some v" "py_float v = Inr x" for f v x
    using that assms(1) by (cases v) (auto simp: finite_hashes_def)
  then have "finite_data (add_values data fd)"
    using Cons.prems(2) unfolding finite_data_iff add_values_def by (fastforce split: option.splits sum.splits)
  then show ?case by (rule Cons.IH [OF rest])
qed

lemma loaded_finite:
  assumes "finite_hashes (view s)" and "load_current_distributions R xs s = Inr xs'"
  shows "\<exists>fd. map_of xs' ''feature_data'' = Some (XData fd) \<and> finite_data fd"
proof -
  obtain users fd where fd: "load_loop R users (map (\<lambda>f. (f, [])) DAG_FEATURES) s = Inr fd"
    and xs': "xs' = xcom_push ''feature_data'' (XData (map (\<lambda>(k, v). (k, take 200 v)) (filter (\<lambda>(k, v). v \<noteq> []) fd))) xs"
    using assms(2) by (auto simp: load_current_distributions_def ebind_Inr_iff)
  have "finite_data fd" by (rule load_loop_finite [OF assms(1) fd]) (simp add: finite_data_def list_all_iff)
  then have "finite_data (map (\<lambda>(k, v). (k, take 200 v)) (filter (\<lambda>(k, v). v \<noteq> []) fd))"
    unfolding finite_data_iff by (fastforce dest: in_set_takeD)
  then show ?thesis by (simp add: xs')
qed

end

text \<open>
  C40. Until something stores a baseline, the hourly drift check succeeds and takes the branch \<open>drift_ok\<close>, whatever the
  features are and however they move, as long as the stored numbers are finite: a missing baseline is replaced by the
  very values it is compared with. No task of the program stores one.
\<close>

theorem drift_dag_silent:
  assumes "numerics NP" and "redis_server R view" and "answers R s" and "finite_hashes (view s)"
    and "\<forall>f. v_str (view s) (baseline_key f) = None"
    and "load_current_distributions R xs s = Inr xs1"
    and "run_drift_detection R NP DB connect drift_config_default now xs1 s d = (r, xs2, d')"
  shows "r = Inr () \<and> branch_on_drift xs2 = ''drift_ok''"
proof -
  obtain fd where fd: "map_of xs1 ''feature_data'' = Some (XData fd)" "finite_data fd"
    using redis_server.loaded_finite [OF assms(2,4,6)] by blast
  show ?thesis
  proof (cases "fd = []")
    case True
    then show ?thesis using assms(7) fd by (auto simp: run_drift_detection_def branch_on_drift_def)
  next
    case False
    obtain rep where rep: "detect_drift R NP drift_config_default (Fin now) fd s = Inr rep" "\<not> has_critical_drift rep"
      using no_baseline_no_drift [OF assms(1,2,3), of fd "Fin now"] finite_data_get [OF fd(2)] assms(5) by auto
    show ?thesis using assms(7) False rep fd(1) by (auto simp: run_drift_detection_def branch_on_drift_def)
  qed
qed

lemma drift_dag_silent_witness:
  "\<exists>xs1 r xs2 d'. load_current_distributions ref_redis []
        (fold ref_cmd (feature_cmds 300 ''u'' [(''txn_count_5m'', RNum (Fin 3))]) empty_db) = Inr xs1
     \<and> run_drift_detection ref_redis ref_numpy ref_database ref_connect drift_config_default 5 xs1
        (fold ref_cmd (feature_cmds 300 ''u'' [(''txn_count_5m'', RNum (Fin 3))]) empty_db) empty_tables = (r, xs2, d')
     \<and> branch_on_drift xs2 = ''drift_ok''"
proof -
  let ?s = "fold ref_cmd (feature_cmds 300 ''u'' [(''txn_count_5m'', RNum (Fin 3))]) empty_db"
  have ok: "answers ref_redis ?s" by (simp add: answers_def ref_redis_def)
  have loop: "\<exists>fd'. load_loop ref_redis us fd ?s = Inr fd'" for us fd
    by (induction us arbitrary: fd) (simp_all add: ref_redis_def del: fold_simps)
  have "\<exists>us. r_srandmember ref_redis ''index:active_users'' 500 ?s = Inr us" by (simp add: ref_redis_def del: fold_simps)
  then obtain us fd where "r_srandmember ref_redis ''index:active_users'' 500 ?s = Inr us"
    "load_loop ref_redis us (map (\<lambda>f. (f, [])) DAG_FEATURES) ?s = Inr fd"
    using loop by blast
  then obtain xs1 where load: "load_current_distributions ref_redis [] ?s = Inr xs1"
    by (simp add: load_current_distributions_def)
  obtain r xs2 d' where run: "run_drift_detection ref_redis ref_numpy ref_database ref_connect drift_config_default 5 xs1 ?s
      empty_tables = (r, xs2, d')"
    by (cases "run_drift_detection ref_redis ref_numpy ref_database ref_connect drift_config_default 5 xs1 ?s empty_tables") auto
  have str: "\<forall>f. v_str (ref_view ?s) (baseline_key f) = None"
    unfolding ref_cmds_view by (subst feature_cmds_view) (auto simp: ref_view_def empty_db_def)
  show ?thesis
    using drift_dag_silent [OF ref_numpy_contract ref_redis_server ok sample_hashes_finite str load run] load run by blast
qed

text \<open>The loop reports drifting exactly the results that are not \<open>ok\<close>, so an alert leaves a feature to analyse.\<close>

lemma critical_drifting:
  assumes "detect_drift R NP cfg now data s = Inr rep" and "has_critical_drift rep"
  shows "dr_drifting_features rep \<noteq> []
    \<and> dr_drifting_features rep = map fd_feature_name (filter is_drifting (dr_feature_results rep))"
proof -
  obtain res dri where q: "detect_loop R NP cfg now data Drift.FEATURE_NAMES [] [] s = Inr (res, dri)"
    and rep: "dr_feature_results rep = res" "dr_drifting_features rep = dri"
    using assms(1) by (auto simp: detect_drift_def ebind_Inr_iff)
  have dri: "dri = map fd_feature_name (filter is_drifting res)" using detect_loop_report [OF q] by simp
  obtain x where "x \<in> set res" "fd_severity x = ''alert''" using assms(2) by (auto simp: has_critical_drift_def list_ex_iff rep)
  then have "filter is_drifting res \<noteq> []" by (auto simp: filter_empty_conv is_drifting_def)
  then show ?thesis by (simp add: rep dri)
qed

text \<open>
  C37. When the drift check branches to the analysis, some feature is in alert, and the analysis answers about the first
  drifting feature in the fixed order, not about the most severe one; it never looks at the measured statistics, so a
  diagnosis without the model is always \<open>data_pipeline_delay\<close> with urgency \<open>high\<close>.
\<close>

theorem drift_dag_analysis:
  assumes "retry_on is_connection_error 3 retry"
    and "run_drift_detection R NP DB connect cfg now xs1 s d = (Inr (), xs2, d')"
    and "branch_on_drift xs2 = ''run_rca''"
    and "run_rca_analysis retry create parse dcfg later xs2 st = (answer, st')"
  shows "\<exists>rep diagnosis. detect_drift R NP cfg (Fin now) (case map_of xs1 ''feature_data'' of Some (XData fd) \<Rightarrow> fd | _ \<Rightarrow> []) s = Inr rep
    \<and> has_critical_drift rep \<and> answer = Some diagnosis
    \<and> rd_feature_name diagnosis = fd_feature_name (hd (filter is_drifting (dr_feature_results rep)))
    \<and> (if rd_fallback_used diagnosis then rd_cause_category diagnosis = JStr ''data_pipeline_delay'' \<and> rd_urgency diagnosis = JStr ''high''
       else True)"
proof -
  let ?fd = "case map_of xs1 ''feature_data'' of Some (XData fd) \<Rightarrow> fd | _ \<Rightarrow> []"
  have drift: "map_of xs2 ''has_drift'' = Some (XBool True)"
    using assms(3) by (simp add: branch_on_drift_def split: if_splits)
  then have fd: "?fd \<noteq> []" using assms(2) by (auto simp: run_drift_detection_def Let_def)
  then obtain rep where rep: "detect_drift R NP cfg (Fin now) ?fd s = Inr rep"
    "xs2 = xcom_push ''drifting_features'' (XNames (dr_drifting_features rep)) (xcom_push ''has_drift'' (XBool (has_critical_drift rep)) xs1)"
    using assms(2) unfolding run_drift_detection_def Let_def by (auto split: sum.splits)
  then have crit: "has_critical_drift rep" using drift by simp
  from critical_drifting [OF rep(1) crit] obtain f fs where f: "dr_drifting_features rep = f # fs"
    and dri: "dr_drifting_features rep = map fd_feature_name (filter is_drifting (dr_feature_results rep))"
    by (cases "dr_drifting_features rep") auto
  have first: "f = fd_feature_name (hd (filter is_drifting (dr_feature_results rep)))"
    using f dri by (cases "filter is_drifting (dr_feature_results rep)") auto
  let ?report = "placeholder_report f later"
  have ans: "answer = Some (fst (analyze retry create parse dcfg later ?report None st))"
    using assms(4) by (simp add: run_rca_analysis_def rep(2) f split: prod.splits)
  obtain q t where q: "analyze_with_llm retry create parse dcfg later ?report None st = (q, t)" by fastforce
  have "\<exists>x. fst (analyze retry create parse dcfg later ?report None st) = x \<and> rd_feature_name x = f
      \<and> (if rd_fallback_used x then rd_cause_category x = JStr ''data_pipeline_delay'' \<and> rd_urgency x = JStr ''high'' else True)"
  proof (cases q)
    case (Inl e)
    then have "fst (analyze retry create parse dcfg later ?report None st) = rule_based_fallback later ?report"
      by (simp add: analyze_def q)
    then show ?thesis by (simp add: rule_based_fallback_def fallback_rule_def placeholder_report_def Let_def)
  next
    case (Inr x)
    then have "attempts_on is_connection_error 3 (analyze_once create parse dcfg later ?report None) st = (Inr x, t)"
      using assms(1) q by (simp add: analyze_with_llm_def retry_on_def)
    then have "rd_feature_name x = rr_feature_name ?report \<and> \<not> rd_fallback_used x"
      by (rule attempts_on_result) (rule analyze_once_fields)
    moreover have "fst (analyze retry create parse dcfg later ?report None st) = x" using Inr by (simp add: analyze_def q)
    ultimately show ?thesis by (simp add: placeholder_report_def)
  qed
  with rep(1) crit ans first show ?thesis by blast
qed

lemma drift_dag_analysis_witness:
  "\<exists>xs2 d' answer st'. run_drift_detection ref_redis ref_numpy ref_database ref_connect drift_config_default 0
        [(''feature_data'', XData [(''avg_spend_1h'', map Fin [500])])] sample_baseline empty_tables = (Inr (), xs2, d')
     \<and> run_rca_analysis (attempts_on is_connection_error 3) unreachable Map.empty sample_cfg (Fin 0) xs2
        \<lparr>en_client = False, en_world = 0\<rparr> = (answer, st') \<and> answer \<noteq> None"
proof -
  let ?xs = "[(''feature_data'', XData [(''avg_spend_1h'', map Fin [500])])]"
  obtain rep where rep: "detect_drift ref_redis ref_numpy drift_config_default (Fin 0) [(''avg_spend_1h'', map Fin [500])]
      sample_baseline = Inr rep"
    using sample_shift(5) by blast
  then obtain xs2 d' where run: "run_drift_detection ref_redis ref_numpy ref_database ref_connect drift_config_default 0 ?xs
      sample_baseline empty_tables = (Inr (), xs2, d')"
    and branch: "branch_on_drift xs2 = ''run_rca''"
    using sample_shift_critical [OF rep] by (simp add: run_drift_detection_def branch_on_drift_def)
  obtain answer st' where rca: "run_rca_analysis (attempts_on is_connection_error 3) unreachable Map.empty sample_cfg (Fin 0) xs2
      \<lparr>en_client = False, en_world = 0\<rparr> = (answer, st')"
    by fastforce
  show ?thesis using drift_dag_analysis [OF retry_on_attempts run branch rca] run rca by blast
qed

subsection \<open>What the refresh job can keep alive\<close>

definition stale_users :: "redis_view \<Rightarrow> string list \<Rightarrow> string list" where
  "stale_users v users = filter (\<lambda>u. 0 < ttl_reply v (feature_key u) \<and> ttl_reply v (feature_key u) < 60) users"

text \<open>Extending a batch of live keys changes only their times to live.\<close>

lemma expire_batch:
  assumes "list_all (\<lambda>u. v_exists v (feature_key u)) us" and "0 < n"
  shows "apply_cmds (map (\<lambda>u. EXPIRE (feature_key u) n) us) v
    = v\<lparr>v_ttl := (\<lambda>k. if k \<in> feature_key ` set us then Some (nat n) else v_ttl v k)\<rparr>"
  using assms(1)
proof (induction us arbitrary: v)
  case Nil
  then show ?case by simp
next
  case (Cons u us)
  then show ?case using assms(2) by (simp add: v_exists_def fun_upd_def) (auto intro!: arg_cong [where f = "\<lambda>f. v\<lparr>v_ttl := f\<rparr>"])
qed

lemma ttl_reply_pos: "0 < ttl_reply v k \<Longrightarrow> v_exists v k \<and> v_ttl v k = Some (nat (ttl_reply v k))"
  by (auto simp: ttl_reply_def split: if_splits option.splits)

context redis_server
begin

lemma scan_stale_view: "scan_stale R 60 us s = Inr stale \<Longrightarrow> stale = stale_users (view s) us"
  using ttl_view by (induction us arbitrary: stale) (auto simp: stale_users_def ebind_Inr_iff split: if_splits)

text \<open>
  The proactive refresh and the refresh job look for stale users with thresholds of 59 and 60 seconds: on the same users
  they find the same ones but those with exactly 59 seconds left.
\<close>

lemma stale_scans_agree:
  assumes "REFRESH_THRESHOLD online_config_default = Inr threshold"
    and "stale_loop R threshold users s = Inr xs" and "scan_stale R 60 users s = Inr ys"
  shows "xs = filter (\<lambda>u. ttl_reply (view s) (feature_key u) \<noteq> 59) ys"
proof -
  have "threshold = 59" using assms(1) refresh_threshold_default by simp
  then show ?thesis
    using stale_loop_view [OF assms(2)] scan_stale_view [OF assms(3)]
    by (auto simp: stale_users_def intro!: filter_cong)
qed

lemma refresh_run:
  assumes "find_and_refresh_stale R xs s = (r, s')"
  shows "view s' = view s \<or> (\<exists>users. set users \<subseteq> v_set (view s) USER_INDEX_KEY \<and> length users \<le> 1000
    \<and> view s' = (view s)\<lparr>v_ttl := (\<lambda>k. if k \<in> feature_key ` set (stale_users (view s) users) then Some 300 else v_ttl (view s) k)\<rparr>)"
proof -
  have effect: "apply_cmds (map (\<lambda>u. EXPIRE (feature_key u) 300) (stale_users (view s) users)) (view s)
      = (view s)\<lparr>v_ttl := (\<lambda>k. if k \<in> feature_key ` set (stale_users (view s) users) then Some 300 else v_ttl (view s) k)\<rparr>" for users
    by (subst expire_batch) (auto simp: stale_users_def list_all_iff fun_eq_iff dest: ttl_reply_pos)
  show ?thesis
  proof (cases "ebind (r_srandmember R ''index:active_users'' 1000 s) (\<lambda>users. scan_stale R 60 users s)")
    case (Inl e)
    then show ?thesis using assms by (simp add: find_and_refresh_stale_def)
  next
    case (Inr stale)
    then obtain users where users: "r_srandmember R ''index:active_users'' 1000 s = Inr users" "scan_stale R 60 users s = Inr stale"
      by (auto simp: ebind_Inr_iff)
    have stale: "stale = stale_users (view s) users" by (rule scan_stale_view [OF users(2)])
    have idx: "set users \<subseteq> v_set (view s) USER_INDEX_KEY \<and> length users \<le> 1000"
      using srandmember_view [OF users(1)] by (simp add: USER_INDEX_KEY_def)
    show ?thesis
    proof (cases "stale = []")
      case True
      then show ?thesis using assms Inr by (simp add: find_and_refresh_stale_def Let_def)
    next
      case False
      obtain q t where q: "r_exec R (map (\<lambda>u. EXPIRE (feature_key u) 300) stale) s = (q, t)" by fastforce
      then have "t = s'" using assms Inr False by (auto simp: find_and_refresh_stale_def Let_def split: sum.splits)
      then show ?thesis using exec_atomic [OF q] effect idx stale by metis
    qed
  qed
qed

end

text \<open>
  A run of the refresh job only extends times to live: no feature, no index entry and no baseline changes, a key is
  either left alone or set to 300 seconds, the latter only for an indexed user with less than 60 seconds left.
\<close>

theorem refresh_dag_frame:
  assumes "redis_server R view" and "find_and_refresh_stale R xs s = (r, s')"
  shows "v_hash (view s') = v_hash (view s) \<and> v_set (view s') = v_set (view s) \<and> v_str (view s') = v_str (view s)
    \<and> (v_ttl (view s') k = v_ttl (view s) k
       \<or> v_ttl (view s') k = Some 300 \<and> (\<exists>u \<in> v_set (view s) USER_INDEX_KEY. k = feature_key u
           \<and> 0 < ttl_reply (view s) k \<and> ttl_reply (view s) k < 60))"
proof (cases "view s' = view s")
  case True
  then show ?thesis by simp
next
  case False
  then obtain users where users: "set users \<subseteq> v_set (view s) USER_INDEX_KEY"
    "view s' = (view s)\<lparr>v_ttl := (\<lambda>k. if k \<in> feature_key ` set (stale_users (view s) users) then Some 300 else v_ttl (view s) k)\<rparr>"
    using redis_server.refresh_run [OF assms] by blast
  have "\<exists>u \<in> v_set (view s) USER_INDEX_KEY. k = feature_key u \<and> 0 < ttl_reply (view s) k \<and> ttl_reply (view s) k < 60"
    if "k \<in> feature_key ` set (stale_users (view s) users)"
    using that users(1) unfolding stale_users_def by auto
  then show ?thesis by (simp add: users(2))
qed

text \<open>
  C38. A gap in the schedule: features with at least 60 seconds left when the job runs, and at most the 300 the writers give
  them, are not extended, and are gone when it runs again 300 seconds later. The job cannot keep a user's features
  alive that nothing else writes.
\<close>

theorem refresh_dag_gap:
  assumes "redis_server R view" and "find_and_refresh_stale R xs s = (r, s')"
    and "v_ttl (view s) (feature_key u) = Some n" and "60 \<le> n" and "n \<le> 300"
  shows "v_ttl (view s') (feature_key u) = Some n \<and> v_hash (elapse 300 (view s')) (feature_key u) = Map.empty"
proof -
  have "u \<notin> set (stale_users (view s) users)" for users
    using assms(3,4) by (auto simp: stale_users_def ttl_reply_def)
  then have "v_ttl (view s') (feature_key u) = Some n"
    using redis_server.refresh_run [OF assms(1,2)] assms(3) by auto
  then show ?thesis using assms(5) by (simp add: elapse_def expired_def)
qed

definition refresh_sample :: ref_db where
  "refresh_sample = fold ref_cmd (feature_cmds 300 ''u'' [(''txn_count_5m'', RNum (Fin 3))]) empty_db"

lemma refresh_dag_frame_witness:
  "v_hash (ref_view (snd (find_and_refresh_stale ref_redis [] refresh_sample))) = v_hash (ref_view refresh_sample)"
  using refresh_dag_frame [OF ref_redis_server, of "[]" refresh_sample "fst (find_and_refresh_stale ref_redis [] refresh_sample)"
      "snd (find_and_refresh_stale ref_redis [] refresh_sample)"] by simp

lemma refresh_dag_gap_witness:
  "v_hash (ref_view refresh_sample) (feature_key ''u'') ''txn_count_5m'' = Some (RNum (Fin 3))
   \<and> v_hash (elapse 300 (ref_view (snd (find_and_refresh_stale ref_redis [] refresh_sample)))) (feature_key ''u'') = Map.empty"
proof -
  have v: "ref_view refresh_sample = apply_cmds (feature_cmds 300 ''u'' [(''txn_count_5m'', RNum (Fin 3))]) (ref_view empty_db)"
    by (simp add: refresh_sample_def ref_cmds_view del: apply_cmds_simps)
  have ttl: "v_ttl (ref_view refresh_sample) (feature_key ''u'') = Some 300"
    and hash: "v_hash (ref_view refresh_sample) (feature_key ''u'') ''txn_count_5m'' = Some (RNum (Fin 3))"
    unfolding v by (simp_all add: feature_cmds_view)
  show ?thesis
    using refresh_dag_gap [OF ref_redis_server, of "[]" refresh_sample "fst (find_and_refresh_stale ref_redis [] refresh_sample)"
        "snd (find_and_refresh_stale ref_redis [] refresh_sample)" "''u''", OF _ ttl] hash by simp
qed

end
