(* ===== verification/Dags.thy ===== *)
theory Dags
  imports Airflow
begin

text \<open>
  How the scheduled jobs chain their tasks: the DAG objects at the end of each file of \<open>airflow/dags/\<close> as data, and one
  run of each as the composition of the task functions of theory Airflow, the way Airflow executes it: a task runs when
  every task before it has succeeded, a branch task lets exactly the named successor run, and the tasks after a
  failed one do not run. A run yields the tasks it executed, in order.
\<close>

subsection \<open>DAGs\<close>

record dag =
  dg_id :: string
  dg_schedule :: "string option"
  dg_retries :: nat
  dg_tasks :: "string list"
  dg_edges :: "(string \<times> string) list"

definition consistency_dag :: dag where
  "consistency_dag = \<lparr>
     dg_id = ''feature_store_consistency_validation'', dg_schedule = Some ''*/15 * * * *'', dg_retries = 1,
     dg_tasks = [''sample_and_compare'', ''branch_on_consistency'', ''consistency_ok'', ''trigger_rca''],
     dg_edges = [(''sample_and_compare'', ''branch_on_consistency''), (''branch_on_consistency'', ''consistency_ok''),
       (''branch_on_consistency'', ''trigger_rca'')]\<rparr>"

definition drift_dag :: dag where
  "drift_dag = \<lparr>
     dg_id = ''feature_store_drift_monitoring'', dg_schedule = Some ''0 * * * *'', dg_retries = 1,
     dg_tasks = [''load_current_distributions'', ''run_drift_detection'', ''branch_on_drift'', ''drift_ok'', ''run_rca''],
     dg_edges = [(''load_current_distributions'', ''run_drift_detection''), (''run_drift_detection'', ''branch_on_drift''),
       (''branch_on_drift'', ''drift_ok''), (''branch_on_drift'', ''run_rca'')]\<rparr>"

definition refresh_dag :: dag where
  "refresh_dag = \<lparr>
     dg_id = ''feature_store_refresh'', dg_schedule = Some ''*/5 * * * *'', dg_retries = 0,
     dg_tasks = [''find_and_refresh_stale''], dg_edges = []\<rparr>"

definition backfill_dag :: dag where
  "backfill_dag = \<lparr>
     dg_id = ''feature_store_backfill'', dg_schedule = None, dg_retries = 1,
     dg_tasks = [''validate_date_range'', ''run_spark_backfill'', ''verify_backfill''],
     dg_edges = [(''validate_date_range'', ''run_spark_backfill''), (''run_spark_backfill'', ''verify_backfill'')]\<rparr>"

definition successors :: "dag \<Rightarrow> string \<Rightarrow> string list" where
  "successors g t = map snd (filter (\<lambda>(a, b). a = t) (dg_edges g))"

subsection \<open>Runs\<close>

definition consistency_run ::
  "'s redis \<Rightarrow> 'd database \<Rightarrow> ('d \<Rightarrow> (exn + unit) \<times> 'd) \<Rightarrow> validation_config \<Rightarrow> real \<Rightarrow> (string \<Rightarrow> string \<Rightarrow> pyfloat)
   \<Rightarrow> 's \<Rightarrow> 'd \<Rightarrow> string list \<times> xcom \<times> 'd" where
  "consistency_run R DB connect cfg now noise s d =
     (case sample_and_compare R DB connect cfg now noise [] s d of
        (Inl e, xs, d') \<Rightarrow> ([''sample_and_compare''], xs, d')
      | (Inr u, xs, d') \<Rightarrow> ([''sample_and_compare'', ''branch_on_consistency'', branch_on_consistency xs], xs, d'))"

definition drift_run ::
  "'s redis \<Rightarrow> numpy \<Rightarrow> 'd database \<Rightarrow> ('d \<Rightarrow> (exn + unit) \<times> 'd) \<Rightarrow> drift_config \<Rightarrow> real
   \<Rightarrow> 'w rca_retry \<Rightarrow> (request \<Rightarrow> 'w \<Rightarrow> (exn + response) \<times> 'w) \<Rightarrow> (string \<Rightarrow> pyfloat option) \<Rightarrow> diagnostics_config \<Rightarrow> pyfloat
   \<Rightarrow> 's \<Rightarrow> 'd \<Rightarrow> 'w engine \<Rightarrow> string list \<times> rca_diagnosis option \<times> 'd \<times> 'w engine" where
  "drift_run R NP DB connect cfg now retry create parse dcfg later s d st =
     (case load_current_distributions R [] s of
        Inl e \<Rightarrow> ([''load_current_distributions''], None, d, st)
      | Inr xs \<Rightarrow>
          (case run_drift_detection R NP DB connect cfg now xs s d of
             (Inl e, xs', d') \<Rightarrow> ([''load_current_distributions'', ''run_drift_detection''], None, d', st)
           | (Inr u, xs', d') \<Rightarrow>
               let chosen = branch_on_drift xs';
                   executed = [''load_current_distributions'', ''run_drift_detection'', ''branch_on_drift'', chosen]
               in if chosen = ''run_rca'' then
                    (case run_rca_analysis retry create parse dcfg later xs' st of
                       (answer, st') \<Rightarrow> (executed, answer, d', st'))
                  else (executed, None, d', st)))"

definition refresh_run :: "'s redis \<Rightarrow> 's \<Rightarrow> string list \<times> 's" where
  "refresh_run R s = (case find_and_refresh_stale R [] s of (r, s') \<Rightarrow> ([''find_and_refresh_stale''], s'))"

text \<open>\<open>bash\<close> runs a shell command, again when it failed; the last task only prints.\<close>

definition backfill_run ::
  "(string \<Rightarrow> 'w \<Rightarrow> (exn + unit) \<times> 'w) \<Rightarrow> string dict \<Rightarrow> string \<Rightarrow> string \<Rightarrow> 'w \<Rightarrow> string list \<times> xcom \<times> 'w" where
  "backfill_run bash conf today ds_next w =
     (let xs = validate_date_range conf today [] in
      case attempts_reraise (Suc (dg_retries backfill_dag)) (bash (backfill_command conf ds_next)) w of
        (Inl e, w') \<Rightarrow> ([''validate_date_range'', ''run_spark_backfill''], xs, w')
      | (Inr u, w') \<Rightarrow> ([''validate_date_range'', ''run_spark_backfill'', ''verify_backfill''], xs, w'))"

subsection \<open>Properties\<close>

definition forward :: "dag \<Rightarrow> bool" where
  "forward g \<longleftrightarrow> distinct (dg_tasks g)
     \<and> list_all (\<lambda>(a, b). \<exists>i < length (dg_tasks g). \<exists>j < i. dg_tasks g ! j = a \<and> dg_tasks g ! i = b) (dg_edges g)"

definition executes :: "dag \<Rightarrow> string list \<Rightarrow> bool" where
  "executes g ts \<longleftrightarrow> ts \<noteq> [] \<and> hd ts = hd (dg_tasks g) \<and> successively (\<lambda>a b. b \<in> set (successors g a)) ts"

lemmas dag_defs = consistency_dag_def drift_dag_def refresh_dag_def backfill_dag_def successors_def

lemma branch_names:
  "branch_on_consistency xs = ''trigger_rca'' \<or> branch_on_consistency xs = ''consistency_ok''"
  "branch_on_drift xs = ''run_rca'' \<or> branch_on_drift xs = ''drift_ok''"
  by (simp_all add: branch_on_consistency_def branch_on_drift_def Let_def)

lemma consistency_run_tasks:
  "fst (consistency_run R DB connect cfg now noise s d) \<in> {[''sample_and_compare''],
     [''sample_and_compare'', ''branch_on_consistency'', ''trigger_rca''],
     [''sample_and_compare'', ''branch_on_consistency'', ''consistency_ok'']}"
  using branch_names(1) by (auto simp: consistency_run_def split: prod.split sum.split)

lemma drift_run_tasks:
  "fst (drift_run R NP DB connect cfg now retry create parse dcfg later s d st) \<in> {[''load_current_distributions''],
     [''load_current_distributions'', ''run_drift_detection''],
     [''load_current_distributions'', ''run_drift_detection'', ''branch_on_drift'', ''run_rca''],
     [''load_current_distributions'', ''run_drift_detection'', ''branch_on_drift'', ''drift_ok'']}"
  using branch_names(2) by (auto simp: drift_run_def Let_def split: prod.split sum.split)

lemma forward_dags: "forward consistency_dag" "forward drift_dag" "forward refresh_dag" "forward backfill_dag"
  by (simp_all add: forward_def dag_defs) (simp_all add: numeral_eq_Suc Ex_less_Suc2)?

text \<open>
  The scheduled DAGs are well formed and their runs follow them: the tasks have distinct names and every dependency points
  forward, so no DAG has a cycle; every run starts at the first task and goes from task to direct successor, so a
  branch never names a task that does not follow it, which Airflow would reject.
\<close>

theorem dag_runs_follow:
  "forward consistency_dag \<and> forward drift_dag \<and> forward refresh_dag \<and> forward backfill_dag
   \<and> executes consistency_dag (fst (consistency_run R DB connect cfg now noise s d))
   \<and> executes drift_dag (fst (drift_run R NP DB connect dcfg now retry create parse gcfg later s d st))
   \<and> executes refresh_dag (fst (refresh_run R s))
   \<and> executes backfill_dag (fst (backfill_run bash conf today ds_next w))"
proof -
  have "executes consistency_dag (fst (consistency_run R DB connect cfg now noise s d))"
    using consistency_run_tasks [of R DB connect cfg now noise s d] by (auto simp: executes_def dag_defs)
  moreover have "executes drift_dag (fst (drift_run R NP DB connect dcfg now retry create parse gcfg later s d st))"
    using drift_run_tasks [of R NP DB connect dcfg now retry create parse gcfg later s d st] by (auto simp: executes_def dag_defs)
  moreover have "executes refresh_dag (fst (refresh_run R s))"
    by (simp add: refresh_run_def executes_def dag_defs split: prod.split)
  moreover have "executes backfill_dag (fst (backfill_run bash conf today ds_next w))"
    by (auto simp: backfill_run_def executes_def dag_defs Let_def split: prod.split sum.split)
  ultimately show ?thesis using forward_dags by blast
qed

text \<open>
  The range that is validated need not be the one that is run: without an end date in the request, the first task records
  the current date and the command gets the day after the logical date.
\<close>

lemma backfill_range_unvalidated:
  assumes "map_of conf ''end_date'' = None" and "map_of conf ''start_date'' = Some a"
  shows "map_of (fst (snd (backfill_run bash conf today ds_next w))) ''end_date'' = Some (XStr today)
    \<and> backfill_command conf ds_next = ''docker exec fs-spark-master spark-submit --master spark://spark-master:7077 ''
       @ ''/opt/offline_store/backfill.py --start '' @ a @ '' --end '' @ ds_next"
  using assms by (auto simp: backfill_run_def validate_date_range_def backfill_command_def dict_get_def Let_def update_conv'
      split: prod.split sum.split)

end
