(* ===== verification/Monitoring.thy ===== *)
theory Monitoring
  imports Airflow Api
begin

text \<open>
  The dashboard, \<open>monitoring/\<close>: what its data functions return (\<open>data_fetcher.py\<close>) and what its pages
  compute from them before drawing (the counts, the verdicts and the status tiles). HTTP, the percentiles of pandas
  and NumPy and the database queries are arguments; the Streamlit calls that draw are left out, and an icon is a value of
  its own type.
\<close>

subsection \<open>Configuration and addresses\<close>

record monitoring_config =
  mc_redis_host :: string
  mc_redis_port :: int
  mc_postgres_host :: string
  mc_postgres_port :: int
  mc_postgres_db :: string
  mc_postgres_user :: string
  mc_postgres_password :: string
  mc_feature_store_api_url :: string

definition monitoring_config_default :: monitoring_config where
  "monitoring_config_default = \<lparr>
     mc_redis_host = ''localhost'', mc_redis_port = 6379, mc_postgres_host = ''localhost'', mc_postgres_port = 5432,
     mc_postgres_db = ''feature_store'', mc_postgres_user = ''featurestore'', mc_postgres_password = ''featurestore_secret'',
     mc_feature_store_api_url = ''http://localhost:8000''\<rparr>"

definition engine_url :: "monitoring_config \<Rightarrow> string" where
  "engine_url cfg =
     ''postgresql+psycopg2://'' @ mc_postgres_user cfg @ '':'' @ mc_postgres_password cfg
     @ ''@'' @ mc_postgres_host cfg @ '':'' @ int_text (mc_postgres_port cfg) @ ''/'' @ mc_postgres_db cfg"

subsection \<open>Data functions\<close>

text \<open>One sampled user: a stored timestamp that is no number is skipped.\<close>

fun freshness_loop :: "'s redis \<Rightarrow> pyfloat \<Rightarrow> string list \<Rightarrow> 's \<Rightarrow> exn + (string \<times> pyfloat) list" where
  "freshness_loop R now [] s = Inr []"
| "freshness_loop R now (uid # uids) s =
     ebind (r_hgetall R (feature_key uid) s) (\<lambda>data.
       ebind (freshness_loop R now uids s) (\<lambda>records.
         Inr (case map_of data ''computed_at'' of
                None \<Rightarrow> records
              | Some v \<Rightarrow>
                  (case py_float v of Inl e \<Rightarrow> records | Inr t \<Rightarrow> (uid, py_round 1 (now - t)) # records))))"

definition fetch_feature_freshness :: "'s redis \<Rightarrow> pyfloat \<Rightarrow> nat \<Rightarrow> 's \<Rightarrow> exn + (string \<times> pyfloat) list" where
  "fetch_feature_freshness R now sample_n s =
     ebind (r_srandmember R ''index:active_users'' sample_n s) (\<lambda>user_ids. freshness_loop R now user_ids s)"

definition fetch_active_user_count :: "'s redis \<Rightarrow> 's \<Rightarrow> exn + nat" where
  "fetch_active_user_count R s = r_scard R ''index:active_users'' s"

definition DRIFT_METRIC_TYPES :: "string list" where
  "DRIFT_METRIC_TYPES = [''psi_score'', ''ks_statistic'', ''consistency_rate'']"

text \<open>\<open>now\<close> is the database's clock. Every exception gives an empty frame.\<close>

definition fetch_drift_metrics :: "'d database \<Rightarrow> real \<Rightarrow> nat \<Rightarrow> 'd \<Rightarrow> feature_metric list" where
  "fetch_drift_metrics DB now hours d =
     (case q_metrics_latest DB
        (\<lambda>m. mt_metric_type m \<in> set DRIFT_METRIC_TYPES \<and> now - 3600 * real hours < mt_recorded_at m) 2000 d of
        Inl e \<Rightarrow> []
      | Inr rows \<Rightarrow> rows)"

text \<open>A response: its status and what \<open>json()\<close> returns or raises.\<close>

type_synonym response = "nat \<times> (exn + json)"

definition fetch_api_health :: "(string \<Rightarrow> 's \<Rightarrow> exn + response) \<Rightarrow> monitoring_config \<Rightarrow> 's \<Rightarrow> json" where
  "fetch_api_health http_get cfg s =
     (case ebind (http_get (mc_feature_store_api_url cfg @ ''/health'') s) snd of
        Inr body \<Rightarrow> body
      | Inl e \<Rightarrow> JObj [(''status'', JStr ''unreachable''), (''redis'', JStr ''unknown''), (''db'', JStr ''unknown'')])"

definition fetch_feature_sample ::
  "(string \<Rightarrow> 's \<Rightarrow> exn + response) \<Rightarrow> monitoring_config \<Rightarrow> string \<Rightarrow> 's \<Rightarrow> json" where
  "fetch_feature_sample http_get cfg user_id s =
     (case http_get (mc_feature_store_api_url cfg @ ''/features/'' @ user_id) s of
        Inl e \<Rightarrow> JObj []
      | Inr (status, body) \<Rightarrow>
          if status = 200 then (case body of Inl e \<Rightarrow> JObj [] | Inr j \<Rightarrow> j) else JObj [])"

text \<open>\<open>q_rca\<close> is the query on the analyses, newest first, with its limit.\<close>

definition fetch_rca_results ::
  "(nat \<Rightarrow> 'd \<Rightarrow> exn + rca_result list) \<Rightarrow> nat \<Rightarrow> 'd
   \<Rightarrow> (string \<times> string \<times> string \<times> pyfloat \<times> string \<times> pyfloat) list" where
  "fetch_rca_results q_rca limit d =
     (case q_rca limit d of
        Inl e \<Rightarrow> []
      | Inr rows \<Rightarrow> map (\<lambda>r. (rc_feature_name r, rc_probable_cause r, rc_cause_category r, rc_confidence r, rc_urgency r,
          rc_computed_at r)) rows)"

record throughput =
  tp_active_users :: nat
  tp_estimated_events_per_sec :: pyfloat
  tp_redis_keys :: nat

definition fetch_throughput_metrics :: "'s redis \<Rightarrow> 's \<Rightarrow> exn + throughput" where
  "fetch_throughput_metrics R s =
     ebind (r_scard R ''index:active_users'' s) (\<lambda>count.
       Inr \<lparr>tp_active_users = count,
            tp_estimated_events_per_sec = py_min (fnat count * Fin 0.1) (Fin 500),
            tp_redis_keys = count\<rparr>)"

subsection \<open>The main page and the pipeline status\<close>

datatype icon = Green | Yellow | Red | White

definition upper :: "string \<Rightarrow> string" where
  "upper t = map (\<lambda>c. if CHR ''a'' \<le> c \<and> c \<le> CHR ''z'' then char_of (of_char c - 32 :: nat) else c) t"

text \<open>\<open>health.get(k, d)\<close> on what the API answered: only an object has the method.\<close>

definition json_get :: "json \<Rightarrow> string \<Rightarrow> json \<Rightarrow> exn + json" where
  "json_get j k d = (case j of JObj kvs \<Rightarrow> Inr (dict_get kvs k d) | _ \<Rightarrow> Inl AttributeError)"

definition status_tile :: "string \<Rightarrow> string \<Rightarrow> json \<Rightarrow> exn + icon \<times> string" where
  "status_tile good k j =
     ebind (json_get j k (JStr ''unknown'')) (\<lambda>v.
       case v of JStr t \<Rightarrow> Inr (if t = good then Green else Red, upper t) | _ \<Rightarrow> Inl AttributeError)"

definition health_tiles :: "json \<Rightarrow> exn + (icon \<times> string) list" where
  "health_tiles j =
     ebind (status_tile ''healthy'' ''status'' j) (\<lambda>a.
     ebind (status_tile ''ok'' ''redis'' j) (\<lambda>b.
     ebind (status_tile ''ok'' ''db'' j) (\<lambda>c. Inr [a, b, c])))"

definition component_status :: "json \<Rightarrow> exn + (string \<times> icon \<times> string) list" where
  "component_status h =
     ebind (json_get h ''redis'' JNull) (\<lambda>r.
     ebind (json_get h ''db'' JNull) (\<lambda>d.
     ebind (json_get h ''status'' JNull) (\<lambda>t. Inr
       [(''Redis'', if r = JStr ''ok'' then (Green, ''Connected'') else (Red, ''Error'')),
        (''PostgreSQL'', if d = JStr ''ok'' then (Green, ''Connected'') else (Red, ''Error'')),
        (''FastAPI'', if t = JStr ''healthy'' then (Green, ''Healthy'') else (Red, ''Error'')),
        (''Kafka'', Yellow, ''Not monitored directly''),
        (''Spark'', Yellow, ''Check Spark UI :8888''),
        (''Airflow'', Yellow, ''Check Airflow UI :8080'')])))"

subsection \<open>Freshness page\<close>

definition sla_violations :: "(string \<times> pyfloat) list \<Rightarrow> nat \<times> pyfloat" where
  "sla_violations df =
     (let n = length (filter (\<lambda>(uid, age). Fin 300 < age) df) in (n, fdiv (fnat n) (fnat (length df)) * Fin 100))"

subsection \<open>Latency page\<close>

text \<open>\<open>send\<close> sends one request and \<open>clock\<close> reads the performance counter, in seconds.\<close>

fun benchmark_loop ::
  "(string \<Rightarrow> 's \<Rightarrow> (exn + nat) \<times> 's) \<Rightarrow> ('s \<Rightarrow> real) \<Rightarrow> string list \<Rightarrow> real list \<Rightarrow> nat \<Rightarrow> 's
   \<Rightarrow> (real list \<times> nat) \<times> 's" where
  "benchmark_loop send clock [] latencies errors s = ((latencies, errors), s)"
| "benchmark_loop send clock (uid # uids) latencies errors s =
     (case send uid s of
        (Inl e, s') \<Rightarrow> benchmark_loop send clock uids latencies (errors + 1) s'
      | (Inr status, s') \<Rightarrow>
          let latency_ms = (clock s' - clock s) * 1000 in
          if status = 200 \<or> status = 404 then benchmark_loop send clock uids (latencies @ [latency_ms]) errors s'
          else benchmark_loop send clock uids latencies (errors + 1) s')"

datatype verdict =
    NoSuccess
  | Exceeded nat nat
  | AllMet nat

definition sla_verdict :: "nat \<Rightarrow> real list \<Rightarrow> verdict" where
  "sla_verdict n_calls latencies =
     (if latencies = [] then NoSuccess
      else let above_sla = length (filter (\<lambda>l. 50 < l) latencies)
           in if 0 < above_sla then Exceeded above_sla n_calls else AllMet n_calls)"

definition benchmark_users :: "nat \<Rightarrow> string list" where
  "benchmark_users n_calls = map (\<lambda>i. ''usr_'' @ pad5 i) [1..<n_calls + 1]"

definition run_benchmark ::
  "(string \<Rightarrow> 's \<Rightarrow> (exn + nat) \<times> 's) \<Rightarrow> ('s \<Rightarrow> real) \<Rightarrow> nat \<Rightarrow> 's \<Rightarrow> (verdict \<times> real list \<times> nat) \<times> 's" where
  "run_benchmark send clock n_calls s =
     (case benchmark_loop send clock (benchmark_users n_calls) [] 0 s of
        ((latencies, errors), s') \<Rightarrow> ((sla_verdict n_calls latencies, latencies, errors), s'))"

subsection \<open>Drift page\<close>

text \<open>The values of one feature over a sample of users; a value that is no number is skipped.\<close>

fun current_values :: "'s redis \<Rightarrow> string \<Rightarrow> string list \<Rightarrow> 's \<Rightarrow> exn + pyfloat list" where
  "current_values R feature [] s = Inr []"
| "current_values R feature (uid # uids) s =
     ebind (r_hgetall R (feature_key uid) s) (\<lambda>data.
       ebind (current_values R feature uids s) (\<lambda>vals.
         Inr (case map_of data feature of
                None \<Rightarrow> vals
              | Some v \<Rightarrow> (case py_float v of Inl e \<Rightarrow> vals | Inr x \<Rightarrow> x # vals))))"

text \<open>The tile of a feature, \<open>None\<close> when no sampled user has it: its PSI against the stored baseline, or against itself.\<close>

definition drift_tile :: "'s redis \<Rightarrow> numpy \<Rightarrow> string \<Rightarrow> 's \<Rightarrow> exn + (pyfloat \<times> icon \<times> string) option" where
  "drift_tile R NP feature s =
     ebind (r_srandmember R ''index:active_users'' 100 s) (\<lambda>uids.
     ebind (current_values R feature uids s) (\<lambda>vals.
       if vals = [] then Inr None
       else
         ebind (load_baseline R feature s) (\<lambda>b.
         let baseline = (case b of None \<Rightarrow> vals | Some xs \<Rightarrow> if xs = [] then vals else xs)
         in ebind (compute_psi NP baseline vals N_BINS) (\<lambda>psi.
         let severity = psi_severity psi (Fin 0.1) (Fin 0.2);
             colour = (if severity = ''ok'' then Green else if severity = ''warn'' then Yellow
                       else if severity = ''alert'' then Red else White)
         in Inr (Some (psi, colour, upper severity))))))"

definition PAGE_FEATURES :: "string list" where
  "PAGE_FEATURES = [''txn_count_5m'', ''avg_spend_1h'', ''session_activity_rate'', ''cart_abandon_ratio'',
     ''product_interaction_freq'', ''anomaly_score'']"

definition drift_tiles :: "'s redis \<Rightarrow> numpy \<Rightarrow> 's \<Rightarrow> exn + (pyfloat \<times> icon \<times> string) option list" where
  "drift_tiles R NP s = emap (\<lambda>feature. drift_tile R NP feature s) PAGE_FEATURES"

subsection \<open>Consistency page\<close>

definition live_check ::
  "'s redis \<Rightarrow> validation_config \<Rightarrow> pyfloat \<Rightarrow> (string \<Rightarrow> string \<Rightarrow> pyfloat) \<Rightarrow> 's \<Rightarrow> exn + consistency_report" where
  "live_check R cfg now noise s =
     ebind (r_srandmember R ''index:active_users'' 200 s) (\<lambda>user_ids.
     ebind (fetch_online R user_ids [] s) (\<lambda>online_features.
       validate_consistency cfg now (perturb noise online_features) online_features))"

subsection \<open>Throughput page\<close>

text \<open>
  \<open>setdefault\<close> runs before \<open>float\<close>: a feature whose first value is no number still gets an entry, with no
  value.
\<close>

definition add_stat :: "rval dict \<Rightarrow> string \<Rightarrow> pyfloat list dict \<Rightarrow> pyfloat list dict" where
  "add_stat data f stats =
     (case map_of data f of
        None \<Rightarrow> stats
      | Some v \<Rightarrow>
          let old = dict_get stats f []
          in AList.update f (case py_float v of Inl e \<Rightarrow> old | Inr x \<Rightarrow> old @ [x]) stats)"

fun feature_stats :: "'s redis \<Rightarrow> string list \<Rightarrow> pyfloat list dict \<Rightarrow> 's \<Rightarrow> exn + pyfloat list dict" where
  "feature_stats R [] stats s = Inr stats"
| "feature_stats R (uid # uids) stats s =
     ebind (r_hgetall R (feature_key uid) s) (\<lambda>data. feature_stats R uids (fold (add_stat data) PAGE_FEATURES stats) s)"

record stat_row =
  sr_feature :: string
  sr_count :: nat
  sr_mean :: pyfloat
  sr_std :: pyfloat
  sr_p50 :: pyfloat
  sr_p95 :: pyfloat
  sr_max :: pyfloat

text \<open>\<open>str.title\<close>: a letter after a character that is no letter becomes upper case, any other letter lower case.\<close>

definition is_lower :: "char \<Rightarrow> bool" where
  "is_lower c \<longleftrightarrow> CHR ''a'' \<le> c \<and> c \<le> CHR ''z''"

definition is_upper :: "char \<Rightarrow> bool" where
  "is_upper c \<longleftrightarrow> CHR ''A'' \<le> c \<and> c \<le> CHR ''Z''"

fun title_from :: "bool \<Rightarrow> string \<Rightarrow> string" where
  "title_from after_letter [] = []"
| "title_from after_letter (c # cs) =
     (if is_lower c then (if after_letter then c else char_of (of_char c - 32 :: nat)) # title_from True cs
      else if is_upper c then (if after_letter then char_of (of_char c + 32 :: nat) else c) # title_from True cs
      else c # title_from False cs)"

definition feature_title :: "string \<Rightarrow> string" where
  "feature_title f = title_from False (map (\<lambda>c. if c = CHR ''_'' then CHR '' '' else c) f)"

definition stat_row_of ::
  "numpy \<Rightarrow> (pyfloat list \<Rightarrow> nat \<Rightarrow> exn + pyfloat) \<Rightarrow> string \<times> pyfloat list \<Rightarrow> exn + stat_row" where
  "stat_row_of NP percentile = (\<lambda>(feat, vals).
     ebind (percentile vals 50) (\<lambda>p50.
     ebind (percentile vals 95) (\<lambda>p95.
       if vals = [] then Inl ValueError
       else Inr \<lparr>sr_feature = feature_title feat, sr_count = length vals,
         sr_mean = py_round 3 (np_mean NP vals), sr_std = py_round 3 (np_std NP vals),
         sr_p50 = py_round 3 p50, sr_p95 = py_round 3 p95, sr_max = py_round 3 (np_max NP vals)\<rparr>)))"

definition throughput_rows ::
  "'s redis \<Rightarrow> numpy \<Rightarrow> (pyfloat list \<Rightarrow> nat \<Rightarrow> exn + pyfloat) \<Rightarrow> 's \<Rightarrow> exn + stat_row list" where
  "throughput_rows R NP percentile s =
     ebind (r_srandmember R ''index:active_users'' 300 s) (\<lambda>user_ids.
     ebind (feature_stats R user_ids [] s) (emap (stat_row_of NP percentile)))"

definition box_values :: "pyfloat list dict \<Rightarrow> (string \<times> pyfloat) list" where
  "box_values stats = concat (map (\<lambda>(feat, vals). map (\<lambda>v. (feature_title feat, v)) (take 100 vals)) stats)"

subsection \<open>Feature lookup\<close>

text \<open>
  The main page's lookup: one tile per feature of the response, titled and with three decimals, and the caption's age;
  \<open>None\<close> stands for the warning that there are no features. \<open>parse\<close> is Python's reading of a number in a
  text.
\<close>

definition truthy :: "json \<Rightarrow> bool" where
  "truthy j = (case j of JNull \<Rightarrow> False | JBool b \<Rightarrow> b | JNum x \<Rightarrow> x \<noteq> Fin 0 | JStr t \<Rightarrow> t \<noteq> [] | JTime t \<Rightarrow> True
     | JArr xs \<Rightarrow> xs \<noteq> [] | JObj kvs \<Rightarrow> kvs \<noteq> [])"

definition feature_tile :: "(string \<Rightarrow> pyfloat option) \<Rightarrow> string \<times> json \<Rightarrow> exn + string \<times> string" where
  "feature_tile parse = (\<lambda>(k, v). ebind (float_of_json parse v) (\<lambda>x. Inr (feature_title k, fixed 3 x)))"

definition lookup_tiles :: "(string \<Rightarrow> pyfloat option) \<Rightarrow> json \<Rightarrow> exn + (string \<times> string) list option" where
  "lookup_tiles parse result =
     (case obj_field ''features'' result of
        None \<Rightarrow> Inr None
      | Some (JObj items) \<Rightarrow> ebind (emap (feature_tile parse) items) (\<lambda>tiles. Inr (Some tiles))
      | Some v \<Rightarrow> Inl AttributeError)"

text \<open>The caption below the tiles: the age with one decimal and the timestamp, if the age is there and not zero.\<close>

definition lookup_caption :: "json \<Rightarrow> exn + (string \<times> json) option" where
  "lookup_caption result =
     (let meta = (case obj_field ''metadata'' result of None \<Rightarrow> JObj [] | Some m \<Rightarrow> m) in
      ebind (json_get meta ''freshness_seconds'' JNull) (\<lambda>age.
        if \<not> truthy age then Inr None
        else case age of
            JNum x \<Rightarrow> ebind (json_get meta ''computed_at'' (JStr ''N/A'')) (\<lambda>t. Inr (Some (fixed 1 x, t)))
          | JBool b \<Rightarrow> ebind (json_get meta ''computed_at'' (JStr ''N/A'')) (\<lambda>t. Inr (Some (fixed 1 (Fin 1), t)))
          | JStr t \<Rightarrow> Inl ValueError
          | JTime t \<Rightarrow> Inl ValueError
          | _ \<Rightarrow> Inl TypeError))"

subsection \<open>Histories\<close>

text \<open>What a history section shows: no data at all, data but none of the kind asked for, or the rows it draws.\<close>

datatype history =
    NoData
  | NoneOfKind
  | Series "feature_metric list"

definition metric_history :: "string \<Rightarrow> feature_metric list \<Rightarrow> history" where
  "metric_history kind df =
     (if df = [] then NoData
      else let rows = filter (\<lambda>m. mt_metric_type m = kind) df in if rows = [] then NoneOfKind else Series rows)"

definition psi_history :: "feature_metric list \<Rightarrow> history" where
  "psi_history df = metric_history ''psi_score'' df"

definition consistency_history :: "feature_metric list \<Rightarrow> history" where
  "consistency_history df = metric_history ''consistency_rate'' df"

text \<open>The two histograms of the drift page: the stored baseline, if there is one, and the current values.\<close>

definition distribution_series ::
  "'s redis \<Rightarrow> string \<Rightarrow> 's \<Rightarrow> exn + (pyfloat list option \<times> pyfloat list) option" where
  "distribution_series R feature s =
     ebind (r_srandmember R ''index:active_users'' 300 s) (\<lambda>uids.
     ebind (current_values R feature uids s) (\<lambda>current.
     ebind (load_baseline R feature s) (\<lambda>b.
       Inr (if current = [] then None
            else Some (case b of None \<Rightarrow> None | Some xs \<Rightarrow> if xs = [] then None else Some (take 300 xs), current)))))"

subsection \<open>The live consistency check\<close>

datatype check_verdict =
    Passed string
  | Failed string string

record live_view =
  lv_sample_size :: nat
  lv_inconsistent_users :: nat
  lv_rate :: string
  lv_delta :: string
  lv_bars :: "pyfloat dict"
  lv_verdict :: check_verdict

definition live_view_of :: "validation_config \<Rightarrow> consistency_report \<Rightarrow> live_view" where
  "live_view_of cfg report =
     (let rate = fixed 2 (cr_inconsistency_rate report * Fin 100) @ ''%'' in
      \<lparr>lv_sample_size = cr_sample_size report,
       lv_inconsistent_users = cr_inconsistent_users report,
       lv_rate = rate,
       lv_delta = (if is_healthy cfg report then ''OK'' else ''ALERT''),
       lv_bars = cr_per_feature_deviation report,
       lv_verdict = (if is_healthy cfg report then Passed rate
         else Failed (case cr_worst_feature report of None \<Rightarrow> ''None'' | Some w \<Rightarrow> w) (fixed 4 (cr_max_deviation report)))\<rparr>)"

text \<open>
  The page and the scheduled job judge by different limits: a rate above 1 percent fails on the page, and the job, like the
  runbook, alerts only above 5 percent.
\<close>

lemma verdicts_differ:
  assumes "cr_inconsistency_rate report = Fin (3 / 100)" and "map_of xs ''inconsistency_rate'' = Some (XNum (Fin (3 / 100)))"
  shows "lv_delta (live_view_of validation_config_default report) = ''ALERT'' \<and> branch_on_consistency xs = ''consistency_ok''"
  using assms by (simp add: live_view_of_def is_healthy_def validation_config_default_def branch_on_consistency_def Let_def)

subsection \<open>Properties\<close>

lemma benchmark_loop_counts:
  assumes "benchmark_loop send clock uids latencies errors s = ((ls, n), s')"
  shows "length ls + n = length latencies + errors + length uids"
  using assms
proof (induction uids arbitrary: latencies errors s)
  case Nil
  then show ?case by simp
next
  case (Cons uid uids)
  then show ?case by (fastforce simp: Let_def split: prod.splits sum.splits if_splits)
qed

text \<open>
  Every benchmark call is counted once, as a latency or as an error; the verdict looks at the latencies alone. So the page
  claims that all the calls met the target as soon as one was answered and every answered one took at most 50 ms,
  however many failed.
\<close>

theorem benchmark_verdict:
  assumes "run_benchmark send clock n s = ((v, latencies, errors), s')"
  shows "length latencies + errors = n
    \<and> (v = AllMet n \<longleftrightarrow> latencies \<noteq> [] \<and> list_all (\<lambda>l. l \<le> 50) latencies)
    \<and> (v = NoSuccess \<longleftrightarrow> errors = n)"
proof -
  obtain ls e t where run: "benchmark_loop send clock (benchmark_users n) [] 0 s = ((ls, e), t)" by (metis prod.exhaust)
  then have vals: "latencies = ls" "errors = e" "v = sla_verdict n ls" using assms by (auto simp: run_benchmark_def)
  have count: "length ls + e = n" using benchmark_loop_counts [OF run] by (simp add: benchmark_users_def)
  have "filter (\<lambda>l. 50 < l) ls = [] \<longleftrightarrow> list_all (\<lambda>l. l \<le> 50) ls" by (auto simp: filter_empty_conv list_all_iff not_less)
  then show ?thesis using count by (auto simp: vals sla_verdict_def Let_def)
qed

text \<open>A service that answers the first user and no other.\<close>

definition flaky :: "string \<Rightarrow> real \<Rightarrow> (exn + nat) \<times> real" where
  "flaky uid t = (if uid = ''usr_00001'' then Inr 200 else Inl APIConnectionError, t + 1 / 100)"

lemma benchmark_verdict_witness:
  "run_benchmark flaky id 3 0 = ((AllMet 3, [10], 2), 3 / 100)"
proof -
  have users: "benchmark_users 3 = [''usr_00001'', ''usr_00002'', ''usr_00003'']"
    by code_simp
  have run: "run_benchmark flaky id 3 0 = ((sla_verdict 3 [10], [10], 2), 3 / 100)"
    by (simp add: run_benchmark_def users flaky_def Let_def)
  have "sla_verdict 3 [10] = AllMet 3" using benchmark_verdict [OF run] by simp
  then show ?thesis using run by simp
qed

text \<open>
  The dashboard's metric history only shows rows of registered features: the last hours asked for, newest first, at most 2000.
  The rate the consistency job computes is filed under \<open>all_features\<close>, so unless that is registered as a
  feature the history of the consistency page never shows it.
\<close>

theorem drift_history_registered:
  assumes "registry_db DB seen committed" and "integrity (seen d)" and "m \<in> set (fetch_drift_metrics DB now hours d)"
  shows "m \<in> set (t_metrics (seen d)) \<and> mt_feature_name m \<in> feature_names (seen d)
    \<and> mt_metric_type m \<in> set DRIFT_METRIC_TYPES \<and> now - 3600 * real hours < mt_recorded_at m
    \<and> length (fetch_drift_metrics DB now hours d) \<le> 2000
    \<and> sorted_wrt (\<lambda>a b. mt_recorded_at b \<le> mt_recorded_at a) (fetch_drift_metrics DB now hours d)"
proof -
  let ?p = "\<lambda>m. mt_metric_type m \<in> set DRIFT_METRIC_TYPES \<and> now - 3600 * real hours < mt_recorded_at m"
  obtain rows where rows: "q_metrics_latest DB ?p 2000 d = Inr rows" "fetch_drift_metrics DB now hours d = rows"
    using assms(3) by (cases "q_metrics_latest DB ?p 2000 d") (simp_all add: fetch_drift_metrics_def)
  obtain all where all: "mset all = mset (filter ?p (t_metrics (seen d)))"
    "sorted_wrt (\<lambda>a b. mt_recorded_at b \<le> mt_recorded_at a) all" "rows = take 2000 all"
    using registry_db.metrics_latest [OF assms(1) rows(1)] by blast
  have "m \<in> set all" using assms(3) rows(2) all(3) by (auto dest: in_set_takeD)
  then have m: "m \<in> set (t_metrics (seen d))" "?p m" using mset_eq_setD [OF all(1)] by auto
  then have "mt_feature_name m \<in> feature_names (seen d)" using assms(2) by (auto simp: integrity_def list_all_iff)
  then show ?thesis using m all(2,3) rows(2) by (simp add: sorted_wrt_take)
qed

definition psi_metric :: feature_metric where
  "psi_metric = \<lparr>mt_feature_name = sd_feature_name (hd FEATURE_SEEDS), mt_metric_type = ''psi_score'',
     mt_metric_value = Fin 0, mt_recorded_at = 5\<rparr>"

definition metric_tables :: ref_tables where
  "metric_tables = empty_tables\<lparr>rt_seen := \<lparr>t_features = [seed_row (Fin 0) (hd FEATURE_SEEDS)], t_lineage = [],
     t_metrics = [psi_metric], t_rca = []\<rparr>\<rparr>"

lemma drift_history_registered_witness:
  "psi_metric \<in> set (fetch_drift_metrics ref_database 10 24 metric_tables)
   \<and> mt_feature_name psi_metric \<in> feature_names (rt_seen metric_tables)"
proof -
  have ok: "integrity (rt_seen metric_tables)"
    by (simp add: integrity_def metric_tables_def feature_names_def psi_metric_def seed_row_def)
  have m: "psi_metric \<in> set (fetch_drift_metrics ref_database 10 24 metric_tables)"
    by (simp add: fetch_drift_metrics_def ref_database_def metric_tables_def DRIFT_METRIC_TYPES_def psi_metric_def)
  show ?thesis using drift_history_registered [OF ref_database_contract ok m] m by blast
qed

end
