(* ===== verification/Handles.thy ===== *)
theory Handles
  imports Monitoring
begin

text \<open>
  The connections that the program creates when they are first needed and keeps: the pool of \<open>SyncRedisClient\<close>
  (\<open>online_store/redis_client.py\<close>), the dashboard's Redis client and database engine (\<open>monitoring/data_fetcher.py\<close>)
  and the model's client (\<open>diagnostics/rca_engine.py\<close>, in theory Diagnostics). What creates one is an argument: it takes the
  settings and the state of the world to the new object.
\<close>

subsection \<open>The accessors\<close>

record redis_settings =
  rs_host :: string
  rs_port :: int
  rs_db :: int
  rs_max_connections :: "int option"
  rs_connect_timeout :: nat
  rs_timeout :: "nat option"
  rs_decode_responses :: bool

text \<open>The state: the module's or class's variable, and the world in which objects are created.\<close>

record ('h, 'w) holder =
  ho_slot :: "'h option"
  ho_world :: 'w

definition pool_settings :: "online_config \<Rightarrow> redis_settings" where
  "pool_settings cfg = \<lparr>rs_host = oc_redis_host cfg, rs_port = oc_redis_port cfg, rs_db = oc_redis_db cfg,
     rs_max_connections = Some (oc_redis_max_connections cfg), rs_connect_timeout = 5, rs_timeout = Some 2,
     rs_decode_responses = True\<rparr>"

definition get_pool ::
  "(redis_settings \<Rightarrow> 'w \<Rightarrow> 'h \<times> 'w) \<Rightarrow> online_config \<Rightarrow> ('h, 'w) holder \<Rightarrow> 'h \<times> ('h, 'w) holder" where
  "get_pool ConnectionPool cfg st =
     (case ho_slot st of
        None \<Rightarrow>
          (case ConnectionPool (pool_settings cfg) (ho_world st) of
             (pool, w) \<Rightarrow> (pool, st\<lparr>ho_slot := Some pool, ho_world := w\<rparr>))
      | Some pool \<Rightarrow> (pool, st))"

text \<open>Every call of \<open>get\<close> makes a client of its own on the shared pool.\<close>

definition sync_redis_get ::
  "('h \<Rightarrow> 'c) \<Rightarrow> (redis_settings \<Rightarrow> 'w \<Rightarrow> 'h \<times> 'w) \<Rightarrow> online_config \<Rightarrow> ('h, 'w) holder \<Rightarrow> 'c \<times> ('h, 'w) holder" where
  "sync_redis_get Redis ConnectionPool cfg st = (case get_pool ConnectionPool cfg st of (pool, st') \<Rightarrow> (Redis pool, st'))"

definition dashboard_redis ::
  "(redis_settings \<Rightarrow> 'w \<Rightarrow> 'h \<times> 'w) \<Rightarrow> monitoring_config \<Rightarrow> ('h, 'w) holder \<Rightarrow> 'h \<times> ('h, 'w) holder" where
  "dashboard_redis Redis cfg st =
     (case ho_slot st of
        None \<Rightarrow>
          (case Redis \<lparr>rs_host = mc_redis_host cfg, rs_port = mc_redis_port cfg, rs_db = 0, rs_max_connections = None,
               rs_connect_timeout = 3, rs_timeout = None, rs_decode_responses = True\<rparr> (ho_world st) of
             (client, w) \<Rightarrow> (client, st\<lparr>ho_slot := Some client, ho_world := w\<rparr>))
      | Some client \<Rightarrow> (client, st))"

definition get_db_engine ::
  "(string \<Rightarrow> 'w \<Rightarrow> 'h \<times> 'w) \<Rightarrow> monitoring_config \<Rightarrow> ('h, 'w) holder \<Rightarrow> 'h \<times> ('h, 'w) holder" where
  "get_db_engine create_engine cfg st =
     (case ho_slot st of
        None \<Rightarrow>
          (case create_engine (engine_url cfg) (ho_world st) of
             (engine, w) \<Rightarrow> (engine, st\<lparr>ho_slot := Some engine, ho_world := w\<rparr>))
      | Some engine \<Rightarrow> (engine, st))"

subsection \<open>Created at most once\<close>

locale lazy_handle =
  fixes access :: "'s \<Rightarrow> (exn + 'h) \<times> 's"
  assumes settles: "access s = (Inr h, s') \<Longrightarrow> access s' = (Inr h, s')"
    and refuses: "access s = (Inl e, s') \<Longrightarrow> s' = s"
begin

fun accesses :: "nat \<Rightarrow> 's \<Rightarrow> (exn + 'h) list \<times> 's" where
  "accesses 0 s = ([], s)"
| "accesses (Suc n) s = (case access s of (r, t) \<Rightarrow> (case accesses n t of (rs, s') \<Rightarrow> (r # rs, s')))"

lemma same_handle: "accesses n s = (rs, s') \<Longrightarrow> list_all (\<lambda>r. r = fst (access s)) rs
    \<and> s' = (if n = 0 then s else snd (access s))"
proof (induction n arbitrary: s rs)
  case (Suc n)
  obtain r t ts where r: "access s = (r, t)" "accesses n t = (ts, s')" "rs = r # ts"
    using Suc.prems by (auto split: prod.splits)
  have "access t = (r, t)" using r(1) settles [of s _ t] refuses [of s _ t] by (cases r) auto
  then show ?case using Suc.IH [OF r(2)] r by auto
qed simp

end

text \<open>An accessor that cannot fail.\<close>

definition always :: "('s \<Rightarrow> 'h \<times> 's) \<Rightarrow> 's \<Rightarrow> (exn + 'h) \<times> 's" where
  "always f s = (case f s of (h, s') \<Rightarrow> (Inr h, s'))"

interpretation pool_handle: lazy_handle "always (get_pool ConnectionPool cfg)" for ConnectionPool cfg
  by unfold_locales (auto simp: always_def get_pool_def split: option.splits prod.splits)

interpretation redis_handle: lazy_handle "always (dashboard_redis Redis cfg)" for Redis cfg
  by unfold_locales (auto simp: always_def dashboard_redis_def split: option.splits prod.splits)

interpretation engine_handle: lazy_handle "always (get_db_engine create_engine cfg)" for create_engine cfg
  by unfold_locales (auto simp: always_def get_db_engine_def split: option.splits prod.splits)

interpretation model_handle: lazy_handle "get_client cfg" for cfg
  by unfold_locales (auto simp: get_client_def split: if_splits)

text \<open>However often the pool is asked for, the world is the one after the first request, which alone may create it.\<close>

lemma pool_created_once:
  assumes "get_pool ConnectionPool cfg st = (pool, st')"
  shows "ho_slot st' = Some pool \<and> get_pool ConnectionPool cfg st' = (pool, st')
    \<and> (ho_slot st = None \<longrightarrow> ConnectionPool (pool_settings cfg) (ho_world st) = (pool, ho_world st'))
    \<and> (ho_slot st \<noteq> None \<longrightarrow> st' = st)"
  using assms by (auto simp: get_pool_def split: option.splits prod.splits)

end
