(* ===== verification/Cache.thy ===== *)
theory Cache
  imports Airflow Api
begin

text \<open>
  The life of a user's cached features across every component that touches them. Each operation of the program on the
  feature keys (the client's writes and batches, the streaming sink, the proactive refresh, the refresh endpoint,
  the refresh job), the storing of baselines and the passing of time are the rules of one step relation; a run is a list
  of requests. The specification is a cache with lifetimes, a map from users to their fields and the seconds left, with
  three operations; \<open>abs_cache\<close> reads it off the server, and every step of the program is a step of the
  specification.
\<close>

named_theorems cache_simps "reading the specification's cache off the server"

subsection \<open>The specification: a cache with lifetimes\<close>

type_synonym cache = "string \<rightharpoonup> (string \<rightharpoonup> rval) \<times> nat"

datatype cache_op =
    Put string "rval dict" nat
  | Touch string nat
  | Save string sval nat

fun cache_fields :: "cache \<Rightarrow> string \<Rightarrow> (string \<rightharpoonup> rval)" where
  "cache_fields c u = (case c u of None \<Rightarrow> Map.empty | Some (h, n) \<Rightarrow> h)"

fun cache_do :: "cache_op \<Rightarrow> cache \<Rightarrow> cache" where
  "cache_do (Put u p n) c = c(u \<mapsto> (cache_fields c u ++ map_of p, n))"
| "cache_do (Touch u n) c = (case c u of None \<Rightarrow> c | Some (h, k) \<Rightarrow> c(u \<mapsto> (h, n)))"
| "cache_do (Save f t n) c = c"

definition cache_tick :: "nat \<Rightarrow> cache \<Rightarrow> cache" where
  "cache_tick d c = (\<lambda>u. case c u of None \<Rightarrow> None | Some (h, n) \<Rightarrow> if n \<le> d then None else Some (h, n - d))"

text \<open>A request names the users it may write, those it may only extend, or how long nothing happens.\<close>

datatype request =
    Writing "string set"
  | Extending "string set"
  | Storing
  | Waiting nat

fun allows :: "nat \<Rightarrow> request \<Rightarrow> cache_op \<Rightarrow> bool" where
  "allows T (Writing W) (Put u p n) \<longleftrightarrow> u \<in> W \<and> p \<noteq> [] \<and> 0 < n \<and> n \<le> T"
| "allows T (Extending W) (Touch u n) \<longleftrightarrow> u \<in> W \<and> 0 < n \<and> n \<le> T"
| "allows T Storing (Save f t n) \<longleftrightarrow> True"
| "allows T r c \<longleftrightarrow> False"

fun cache_spec :: "nat \<Rightarrow> request \<Rightarrow> cache \<Rightarrow> cache \<Rightarrow> bool" where
  "cache_spec T (Waiting d) c c' \<longleftrightarrow> c' = cache_tick d c"
| "cache_spec T r c c' \<longleftrightarrow> (\<exists>ops. list_all (allows T r) ops \<and> c' = fold cache_do ops c)"

fun_cases allows_PutE: "allows T r (Put u p n)" and allows_TouchE: "allows T r (Touch u n)" and allows_SaveE: "allows T r (Save f t n)"

subsection \<open>The program's operations as steps\<close>

inductive cache_step ::
  "'s redis \<Rightarrow> ('s \<Rightarrow> redis_view) \<Rightarrow> (('s \<Rightarrow> (exn + unit) \<times> 's) \<Rightarrow> 's \<Rightarrow> (exn + unit) \<times> 's) \<Rightarrow> online_config
   \<Rightarrow> 'r sink_row \<Rightarrow> int \<Rightarrow> 's \<Rightarrow> request \<Rightarrow> 's \<Rightarrow> bool"
  for R :: "'s redis" and view and retry and cfg and A :: "'r sink_row" and sink_ttl where
  store: "write_features R retry cfg u features computed_at s = (r, s')
    \<Longrightarrow> cache_step R view retry cfg A sink_ttl s (Writing {u}) s'"
| batch: "batch_write_features R cfg records s = (r, s')
    \<Longrightarrow> cache_step R view retry cfg A sink_ttl s (Writing (the ` fst ` set records)) s'"
| sink: "write_features_to_redis R A sink_ttl rows s = (r, s')
    \<Longrightarrow> cache_step R view retry cfg A sink_ttl s (Writing {u. \<exists>row \<in> set rows. sr_user_id A row = Inr u}) s'"
| recompute: "refresh_features_for_users R retry cfg (Some feature_fn) users s = (k, s')
    \<Longrightarrow> cache_step R view retry cfg A sink_ttl s (Writing (set users)) s'"
| extend: "refresh_features_for_users R retry cfg None users s = (k, s')
    \<Longrightarrow> cache_step R view retry cfg A sink_ttl s (Extending (set users)) s'"
| endpoint: "do_refresh R u s = (r, s')
    \<Longrightarrow> cache_step R view retry cfg A sink_ttl s (Extending {u}) s'"
| job: "find_and_refresh_stale R xs s = (out, s')
    \<Longrightarrow> cache_step R view retry cfg A sink_ttl s
      (Extending {u. 0 < ttl_reply (view s) (feature_key u) \<and> ttl_reply (view s) (feature_key u) < 60}) s'"
| baseline: "store_baseline R f distribution s = (r, s')
    \<Longrightarrow> cache_step R view retry cfg A sink_ttl s Storing s'"
| baselines: "refresh_all_baselines R feature_data s = (r, s')
    \<Longrightarrow> cache_step R view retry cfg A sink_ttl s Storing s'"
| wait: "view s' = elapse d (view s)
    \<Longrightarrow> cache_step R view retry cfg A sink_ttl s (Waiting d) s'"

inductive_cases waitE: "cache_step R view retry cfg A sink_ttl s (Waiting d) s'"

inductive cache_run ::
  "'s redis \<Rightarrow> ('s \<Rightarrow> redis_view) \<Rightarrow> (('s \<Rightarrow> (exn + unit) \<times> 's) \<Rightarrow> 's \<Rightarrow> (exn + unit) \<times> 's) \<Rightarrow> online_config
   \<Rightarrow> 'r sink_row \<Rightarrow> int \<Rightarrow> 's \<Rightarrow> request list \<Rightarrow> 's \<Rightarrow> bool"
  for R :: "'s redis" and view and retry and cfg and A :: "'r sink_row" and sink_ttl where
  idle: "cache_run R view retry cfg A sink_ttl s [] s"
| act: "cache_step R view retry cfg A sink_ttl s req t \<Longrightarrow> cache_run R view retry cfg A sink_ttl t reqs s'
    \<Longrightarrow> cache_run R view retry cfg A sink_ttl s (req # reqs) s'"

inductive_simps cache_run_simps:
  "cache_run R view retry cfg A sink_ttl s [] s'"
  "cache_run R view retry cfg A sink_ttl s (req # reqs) s'"

subsection \<open>What a server must look like\<close>

definition cache_ok :: "nat \<Rightarrow> redis_view \<Rightarrow> bool" where
  "cache_ok T v \<longleftrightarrow> v_ttl v USER_INDEX_KEY = None
     \<and> (\<forall>u. v_set v (feature_key u) = {} \<and> v_str v (feature_key u) = None
         \<and> (v_hash v (feature_key u) \<noteq> Map.empty \<longrightarrow> u \<in> v_set v USER_INDEX_KEY
             \<and> (\<exists>n. v_ttl v (feature_key u) = Some n \<and> 0 < n \<and> n \<le> T)))"

definition abs_cache :: "redis_view \<Rightarrow> cache" where
  "abs_cache v = (\<lambda>u. if v_hash v (feature_key u) = Map.empty then None
     else Some (v_hash v (feature_key u), the (v_ttl v (feature_key u))))"

fun cmds_of :: "cache_op \<Rightarrow> redis_cmd list" where
  "cmds_of (Put u p n) = feature_cmds (int n) u p"
| "cmds_of (Touch u n) = [EXPIRE (feature_key u) (int n)]"
| "cmds_of (Save f t n) = [SET_EX (baseline_key f) t (int n)]"

subsection \<open>One operation\<close>

lemma cache_okD:
  assumes "cache_ok T v"
  shows "v_ttl v USER_INDEX_KEY = None" "v_set v (feature_key u) = {}" "v_str v (feature_key u) = None"
    "v_hash v (feature_key u) \<noteq> Map.empty \<Longrightarrow> u \<in> v_set v USER_INDEX_KEY
      \<and> (\<exists>n. v_ttl v (feature_key u) = Some n \<and> 0 < n \<and> n \<le> T)"
  using assms by (simp_all add: cache_ok_def)

lemma cache_ok_exists: "cache_ok T v \<Longrightarrow> v_exists v (feature_key u) \<longleftrightarrow> v_hash v (feature_key u) \<noteq> Map.empty"
  by (simp add: v_exists_def cache_okD)

lemma abs_fields [cache_simps]: "cache_fields (abs_cache v) u = v_hash v (feature_key u)"
  by (simp add: abs_cache_def)

lemma put_view:
  assumes "0 < n" and "p \<noteq> []"
  shows "apply_cmds (cmds_of (Put u p n)) v = v\<lparr>v_hash := (v_hash v)(feature_key u := v_hash v (feature_key u) ++ map_of p),
      v_ttl := (v_ttl v)(feature_key u \<mapsto> n), v_set := (v_set v)(USER_INDEX_KEY := insert u (v_set v USER_INDEX_KEY))\<rparr>"
  using assms by (simp add: feature_cmds_view)

lemma touch_view:
  assumes "cache_ok T v" and "0 < n"
  shows "apply_cmds (cmds_of (Touch u n)) v
    = (if v_hash v (feature_key u) = Map.empty then v else v\<lparr>v_ttl := (v_ttl v)(feature_key u \<mapsto> n)\<rparr>)"
  using assms(2) cache_ok_exists [OF assms(1), of u] by simp

lemma added_fields: "p \<noteq> [] \<Longrightarrow> h ++ map_of p \<noteq> Map.empty"
  by (metis map_add_None map_of_eq_empty_iff)

text \<open>Each operation keeps the invariant, is the operation of the specification, and only adds to the index.\<close>

lemma put_refines:
  assumes "cache_ok T v" and "0 < n" and "n \<le> T" and "p \<noteq> []"
  shows "cache_ok T (apply_cmds (cmds_of (Put u p n)) v)"
    and "abs_cache (apply_cmds (cmds_of (Put u p n)) v) = cache_do (Put u p n) (abs_cache v)"
proof -
  show "cache_ok T (apply_cmds (cmds_of (Put u p n)) v)"
    unfolding put_view [OF assms(2,4)]
    using assms cache_okD [OF assms(1)] added_fields [OF assms(4)] by (auto simp: cache_ok_def)
  show "abs_cache (apply_cmds (cmds_of (Put u p n)) v) = cache_do (Put u p n) (abs_cache v)"
  proof
    fix w
    show "abs_cache (apply_cmds (cmds_of (Put u p n)) v) w = cache_do (Put u p n) (abs_cache v) w"
      unfolding put_view [OF assms(2,4)] cache_do.simps abs_fields
      using added_fields [OF assms(4), of "v_hash v (feature_key u)"]
      by (cases "w = u") (simp_all add: abs_cache_def del: map_add_eq_empty_iff)
  qed
qed

lemma touch_refines:
  assumes "cache_ok T v" and "0 < n" and "n \<le> T"
  shows "cache_ok T (apply_cmds (cmds_of (Touch u n)) v)"
    and "abs_cache (apply_cmds (cmds_of (Touch u n)) v) = cache_do (Touch u n) (abs_cache v)"
  unfolding touch_view [OF assms(1,2)]
  using assms cache_okD [OF assms(1)] by (auto simp: cache_ok_def abs_cache_def fun_eq_iff)

lemma save_refines:
  assumes "cache_ok T v"
  shows "cache_ok T (apply_cmds (cmds_of (Save f t n)) v)"
    and "abs_cache (apply_cmds (cmds_of (Save f t n)) v) = cache_do (Save f t n) (abs_cache v)"
proof -
  have "baseline_key f \<noteq> USER_INDEX_KEY" by (simp add: USER_INDEX_KEY_def baseline_key_def)
  then show "cache_ok T (apply_cmds (cmds_of (Save f t n)) v)" using assms by (auto simp: cache_ok_def)
  show "abs_cache (apply_cmds (cmds_of (Save f t n)) v) = cache_do (Save f t n) (abs_cache v)"
    by (simp add: abs_cache_def fun_eq_iff)
qed

lemma do_refines:
  assumes "cache_ok T v" and "allows T r c"
  shows "cache_ok T (apply_cmds (cmds_of c) v) \<and> abs_cache (apply_cmds (cmds_of c) v) = cache_do c (abs_cache v)
    \<and> v_set v USER_INDEX_KEY \<subseteq> v_set (apply_cmds (cmds_of c) v) USER_INDEX_KEY"
proof (cases c)
  case (Put u p n)
  then have "0 < n" "n \<le> T" "p \<noteq> []" using assms(2) by (auto elim: allows_PutE)
  then show ?thesis unfolding Put using put_refines [OF assms(1)] by (simp add: put_view del: cmds_of.simps)  blast
next
  case (Touch u n)
  then have "0 < n" "n \<le> T" using assms(2) by (auto elim: allows_TouchE)
  then show ?thesis unfolding Touch using touch_refines [OF assms(1)] by (simp add: touch_view [OF assms(1)] del: cmds_of.simps)
next
  case (Save f t n)
  then show ?thesis using save_refines [OF assms(1)] by simp
qed

definition cmds_of_all :: "cache_op list \<Rightarrow> redis_cmd list" where
  "cmds_of_all ops = concat (map cmds_of ops)"

lemma do_all_refines:
  assumes "cache_ok T v" and "list_all (allows T r) ops"
  shows "cache_ok T (apply_cmds (cmds_of_all ops) v) \<and> abs_cache (apply_cmds (cmds_of_all ops) v) = fold cache_do ops (abs_cache v)
    \<and> v_set v USER_INDEX_KEY \<subseteq> v_set (apply_cmds (cmds_of_all ops) v) USER_INDEX_KEY"
  using assms
proof (induction ops arbitrary: v)
  case Nil
  then show ?case by (simp add: cmds_of_all_def)
next
  case (Cons c ops)
  let ?w = "apply_cmds (cmds_of c) v"
  have one: "cache_ok T ?w \<and> abs_cache ?w = cache_do c (abs_cache v) \<and> v_set v USER_INDEX_KEY \<subseteq> v_set ?w USER_INDEX_KEY"
    by (rule do_refines [OF Cons.prems(1), where r = r]) (use Cons.prems(2) in simp)
  have "apply_cmds (cmds_of_all (c # ops)) v = apply_cmds (cmds_of_all ops) ?w"
    by (simp add: cmds_of_all_def apply_cmds_append)
  then show ?case using Cons.IH [of ?w] Cons.prems(2) one by (simp del: cmds_of.simps) (meson subset_trans)
qed

lemma tick_refines:
  assumes "cache_ok T v"
  shows "cache_ok T (elapse d v) \<and> abs_cache (elapse d v) = cache_tick d (abs_cache v)
    \<and> v_set (elapse d v) USER_INDEX_KEY = v_set v USER_INDEX_KEY"
proof -
  have idx: "\<not> expired d v USER_INDEX_KEY" using cache_okD(1) [OF assms] by (simp add: expired_def)
  have "cache_ok T (elapse d v)"
    using assms idx cache_okD [OF assms] by (fastforce simp: cache_ok_def elapse_def expired_def split: option.splits)
  moreover have "abs_cache (elapse d v) = cache_tick d (abs_cache v)"
    using cache_okD(4) [OF assms]
    by (fastforce simp: abs_cache_def cache_tick_def elapse_def expired_def fun_eq_iff split: option.splits)
  ultimately show ?thesis using idx by (simp add: elapse_def)
qed

subsection \<open>Every step of the program\<close>

definition effect :: "nat \<Rightarrow> request \<Rightarrow> redis_view \<Rightarrow> redis_view \<Rightarrow> bool" where
  "effect T r v w \<longleftrightarrow> (\<exists>ops. list_all (allows T r) ops \<and> w = apply_cmds (cmds_of_all ops) v)"

lemma effect_refl [intro]: "effect T r v v"
  by (auto simp: effect_def cmds_of_all_def intro: exI [of _ "[]"])

lemma effect_trans: "effect T r u v \<Longrightarrow> effect T r v w \<Longrightarrow> effect T r u w"
  unfolding effect_def by (metis apply_cmds_append cmds_of_all_def concat_append list_all_append map_append)

lemma effect_mono:
  assumes "effect T r v w" and "\<And>c. allows T r c \<Longrightarrow> allows T r' c"
  shows "effect T r' v w"
  using assms unfolding effect_def by (metis list.pred_mono_strong)

lemma writing_mono: "effect T (Writing U) v w \<Longrightarrow> U \<subseteq> W \<Longrightarrow> effect T (Writing W) v w"
  by (erule effect_mono) (case_tac c; auto)

lemma extending_mono: "effect T (Extending U) v w \<Longrightarrow> U \<subseteq> W \<Longrightarrow> effect T (Extending W) v w"
  by (erule effect_mono) (case_tac c; auto)

text \<open>
  A deployment: a server, three attempts per write, and times to live that are positive and at most \<open>T\<close>; the refresh
  endpoint and the refresh job always use 300 seconds.
\<close>

locale deployment = redis_server R view for R :: "'s redis" and view +
  fixes retry :: "('s \<Rightarrow> (exn + unit) \<times> 's) \<Rightarrow> 's \<Rightarrow> (exn + unit) \<times> 's"
    and cfg :: online_config and sink_ttl :: int and T :: nat
  assumes retries: "stop_after 3 retry"
    and ttl: "0 < oc_feature_ttl_seconds cfg" "oc_feature_ttl_seconds cfg \<le> int T"
    and sink_ttl: "0 < sink_ttl" "sink_ttl \<le> int T"
    and fixed_ttl: "300 \<le> T"
begin

text \<open>A pipeline made of allowed operations, sent once, is an effect whatever its outcome.\<close>

lemma exec_effect:
  assumes "r_exec R (cmds_of_all ops) s = (r, s')" and "list_all (allows T req) ops"
  shows "effect T req (view s) (view s')"
  using exec_atomic [OF assms(1)] assms(2) effect_refl unfolding effect_def by metis

lemma write_effect:
  assumes "write_features R retry cfg u features computed_at s = (r, s')"
  shows "effect T (Writing {u}) (view s) (view s')"
proof -
  let ?op = "\<lambda>ts. Put u (write_payload features ts) (nat (oc_feature_ttl_seconds cfg))"
  have "cmds_of_all [?op ts] = feature_cmds (oc_feature_ttl_seconds cfg) u (write_payload features ts)" for ts
    using ttl by (simp add: cmds_of_all_def)
  moreover have "list_all (allows T (Writing {u})) [?op ts]" for ts using ttl payload_nonempty by simp
  ultimately show ?thesis
    using write_features_effect [OF retries ttl(1) assms] unfolding effect_def
    by (metis effect_def effect_refl)
qed

lemma batch_step_effect:
  assumes "batch_write_features R cfg records s = (r, s')"
  shows "effect T (Writing (the ` fst ` set records)) (view s) (view s')"
proof -
  let ?op = "\<lambda>rec. Put (the (fst rec)) (batch_payload (snd rec) (r_clock R s)) (nat (oc_feature_ttl_seconds cfg))"
  have cmds: "cmds_of_all (map ?op records) = concat (map (\<lambda>rec. feature_cmds (oc_feature_ttl_seconds cfg) (the (fst rec))
      (batch_payload (snd rec) (r_clock R s))) records)"
    using ttl by (simp add: cmds_of_all_def comp_def)
  have ok: "list_all (allows T (Writing (the ` fst ` set records))) (map ?op records)"
    using ttl payload_nonempty by (auto simp: list_all_iff)
  consider "view s' = view s" | "r_exec R (cmds_of_all (map ?op records)) s = (r, s')"
    using assms unfolding batch_write_features_def emap_batch_cmds cmds by (auto split: if_splits)
  then show ?thesis by cases (auto intro: exec_effect [OF _ ok])
qed

lemma sink_cmds_ops:
  assumes "emap (sink_cmds A sink_ttl now) rows = Inr cmds"
  shows "\<exists>ops. concat cmds = cmds_of_all ops
    \<and> list_all (allows T (Writing {u. \<exists>row \<in> set rows. sr_user_id A row = Inr u})) ops"
  using assms
proof (induction rows arbitrary: cmds)
  case Nil
  then show ?case by (auto simp: cmds_of_all_def intro: exI [of _ "[]"])
next
  case (Cons row rows)
  then obtain c cs where c: "sink_cmds A sink_ttl now row = Inr c"
    and cs': "emap (sink_cmds A sink_ttl now) rows = Inr cs" "cmds = c # cs"
    by (auto simp: ebind_Inr_iff)
  from c obtain u p where u: "sr_user_id A row = Inr u" "sink_payload A now row = Inr p" "c = feature_cmds sink_ttl u p"
    by (auto simp: ebind_Inr_iff sink_cmds_def)
  note cs = cs' [unfolded u(3)]
  have "p \<noteq> []" using u(2) by (auto simp: sink_payload_def ebind_Inr_iff)
  moreover obtain ops where ops: "concat cs = cmds_of_all ops"
    "list_all (allows T (Writing {u. \<exists>row \<in> set rows. sr_user_id A row = Inr u})) ops"
    using Cons.IH [OF cs(1)] by blast
  moreover have "list_all (allows T (Writing {u. \<exists>row \<in> set (row # rows). sr_user_id A row = Inr u})) ops"
    using ops(2) by (rule list.pred_mono_strong) (case_tac z; auto)
  ultimately show ?case
    using u(1) cs(2) sink_ttl by (intro exI [of _ "Put u p (nat sink_ttl) # ops"]) (simp add: cmds_of_all_def)
qed

lemma sink_effect:
  assumes "write_features_to_redis R A sink_ttl rows s = (r, s')"
  shows "effect T (Writing {u. \<exists>row \<in> set rows. sr_user_id A row = Inr u}) (view s) (view s')"
proof (cases "emap (sink_cmds A sink_ttl (r_clock R s)) rows")
  case (Inl e)
  then show ?thesis using assms by (auto simp: write_features_to_redis_def split: if_splits)
next
  case (Inr cmds)
  then obtain ops where "concat cmds = cmds_of_all ops"
    "list_all (allows T (Writing {u. \<exists>row \<in> set rows. sr_user_id A row = Inr u})) ops"
    using sink_cmds_ops by blast
  then show ?thesis
    using assms Inr exec_effect [of ops s r s'] by (auto simp: write_features_to_redis_def split: if_splits)
qed

lemma extend_one:
  assumes "r_exec R [EXPIRE (feature_key u) (int n)] s = (r, s')" and "0 < n" and "n \<le> T"
  shows "effect T (Extending {u}) (view s) (view s')"
  by (rule exec_effect [where ops = "[Touch u n]"]) (use assms in \<open>simp_all add: cmds_of_all_def\<close>)

lemma recompute_effect:
  assumes "refresh_features_for_users R retry cfg (Some feature_fn) users s = (k, s')"
  shows "effect T (Writing (set users)) (view s) (view s')"
  using assms
proof (induction users arbitrary: s k)
  case Nil
  then show ?case by auto
next
  case (Cons u users)
  obtain ok t where one: "refresh_one R retry cfg (Some feature_fn) u s = (ok, t)" by fastforce
  then have "effect T (Writing {u}) (view s) (view t)"
    using write_effect by (auto simp: refresh_one_def split: sum.splits prod.splits)
  moreover obtain j where "refresh_features_for_users R retry cfg (Some feature_fn) users t = (j, s')"
    using Cons.prems one by (auto split: prod.splits)
  ultimately show ?case
    using Cons.IH effect_trans writing_mono by (metis insert_subset list.simps(15) set_subset_Cons subset_insertI empty_subsetI list.set_intros(1))
qed

lemma extend_effect:
  assumes "refresh_features_for_users R retry cfg None users s = (k, s')"
  shows "effect T (Extending (set users)) (view s) (view s')"
  using assms
proof (induction users arbitrary: s k)
  case Nil
  then show ?case by auto
next
  case (Cons u users)
  obtain ok t where one: "refresh_one R retry cfg None u s = (ok, t)" by fastforce
  have "int (nat (oc_feature_ttl_seconds cfg)) = oc_feature_ttl_seconds cfg" using ttl by simp
  then have "effect T (Extending {u}) (view s) (view t)"
    using one ttl extend_one [of u "nat (oc_feature_ttl_seconds cfg)" s _ t]
    by (auto simp: refresh_one_def split: sum.splits prod.splits)
  moreover obtain j where "refresh_features_for_users R retry cfg None users t = (j, s')"
    using Cons.prems one by (auto split: prod.splits)
  ultimately show ?case
    using Cons.IH effect_trans extending_mono by (metis insert_subset set_subset_Cons empty_subsetI list.set_intros(1))
qed

lemma endpoint_effect:
  assumes "do_refresh R u s = (r, s')"
  shows "effect T (Extending {u}) (view s) (view s')"
  using extend_one [of u 300 s r s'] assms fixed_ttl by (simp add: do_refresh_def)

lemma job_effect:
  assumes "find_and_refresh_stale R xs s = (out, s')"
  shows "effect T (Extending {u. 0 < ttl_reply (view s) (feature_key u) \<and> ttl_reply (view s) (feature_key u) < 60}) (view s) (view s')"
proof (cases "ebind (r_srandmember R ''index:active_users'' 1000 s) (\<lambda>users. scan_stale R 60 users s)")
  case (Inl e)
  then show ?thesis using assms by (auto simp: find_and_refresh_stale_def)
next
  case (Inr stale)
  then obtain users where users: "scan_stale R 60 users s = Inr stale" by (auto simp: ebind_Inr_iff)
  have stale: "stale = stale_users (view s) users" by (rule scan_stale_view [OF users])
  have cmds: "map (\<lambda>uid. EXPIRE (feature_key uid) 300) stale = cmds_of_all (map (\<lambda>u. Touch u 300) stale)"
    by (induction stale) (simp_all add: cmds_of_all_def)
  have ok: "list_all (allows T (Extending {u. 0 < ttl_reply (view s) (feature_key u) \<and> ttl_reply (view s) (feature_key u) < 60}))
      (map (\<lambda>u. Touch u 300) stale)"
    using fixed_ttl by (auto simp: stale stale_users_def list_all_iff)
  show ?thesis
    using assms Inr exec_effect [OF _ ok, of s, folded cmds] unfolding find_and_refresh_stale_def
    by (auto simp: Let_def split: if_splits prod.splits sum.splits)
qed

lemma save_effect:
  assumes "r_exec R [SET_EX (baseline_key f) t (int n)] s = (r, s')"
  shows "effect T Storing (view s) (view s')"
  by (rule exec_effect [where ops = "[Save f t n]"]) (use assms in \<open>simp_all add: cmds_of_all_def\<close>)

lemma baseline_effect: "store_baseline R f distribution s = (r, s') \<Longrightarrow> effect T Storing (view s) (view s')"
  using save_effect [where n = "86400 * 7"] by (simp add: store_baseline_def)

lemma baselines_effect:
  assumes "refresh_all_baselines R feature_data s = (r, s')"
  shows "effect T Storing (view s) (view s')"
  using assms
proof (induction feature_data arbitrary: s)
  case Nil
  then show ?case by auto
next
  case (Cons p rest)
  obtain f xs where p: "p = (f, xs)" by (cases p)
  show ?case
  proof (cases "xs = []")
    case True
    then show ?thesis using Cons by (simp add: p)
  next
    case False
    obtain q t where q: "save_baseline R f xs s = (q, t)" by fastforce
    then have one: "effect T Storing (view s) (view t)"
      using save_effect [where n = "86400 * 7"] by (simp add: save_baseline_def BASELINE_TTL_SECONDS_def)
    show ?thesis
    proof (cases q)
      case (Inl e)
      then show ?thesis using Cons.prems False q one by (simp add: p)
    next
      case (Inr u)
      then show ?thesis using Cons.prems Cons.IH [of t] False q one effect_trans by (fastforce simp: p)
    qed
  qed
qed

lemmas step_effects = write_effect batch_step_effect sink_effect recompute_effect extend_effect endpoint_effect job_effect
  baseline_effect baselines_effect

lemma step_effect:
  assumes "cache_step R view retry cfg A sink_ttl s req s'"
  shows "case req of Waiting d \<Rightarrow> view s' = elapse d (view s) | _ \<Rightarrow> effect T req (view s) (view s')"
  using assms by cases (auto dest: step_effects)

lemma step_refines:
  assumes "cache_ok T (view s)" and "cache_step R view retry cfg A sink_ttl s req s'"
  shows "cache_ok T (view s') \<and> cache_spec T req (abs_cache (view s)) (abs_cache (view s'))
    \<and> v_set (view s) USER_INDEX_KEY \<subseteq> v_set (view s') USER_INDEX_KEY"
proof (cases "\<exists>d. req = Waiting d")
  case True
  then show ?thesis using step_effect [OF assms(2)] tick_refines [OF assms(1)] by auto
next
  case False
  then have "effect T req (view s) (view s')" using step_effect [OF assms(2)] by (auto split: request.splits)
  then obtain ops where ops: "list_all (allows T req) ops" "view s' = apply_cmds (cmds_of_all ops) (view s)"
    by (auto simp: effect_def)
  then have "cache_spec T req (abs_cache (view s)) (fold cache_do ops (abs_cache (view s)))"
    using False by (cases req) auto
  then show ?thesis using do_all_refines [OF assms(1) ops(1)] ops(2) by simp
qed

lemma run_ok:
  assumes "cache_run R view retry cfg A sink_ttl s reqs s'" and "cache_ok T (view s)"
  shows "cache_ok T (view s') \<and> v_set (view s) USER_INDEX_KEY \<subseteq> v_set (view s') USER_INDEX_KEY"
  using assms
proof (induction rule: cache_run.induct)
  case (idle s)
  then show ?case by simp
next
  case (act s req t reqs s')
  then show ?case using step_refines [OF act.prems act.hyps(1)] by (meson subset_trans)
qed

lemma reads_cache:
  assumes "read_features R u s = Inr r"
  shows "map_option map_of r = map_option fst (abs_cache (view s) u)"
proof (cases r)
  case None
  then show ?thesis using read_features_view [OF assms] by (simp add: abs_cache_def)
next
  case (Some d)
  then have "map_of d = v_hash (view s) (feature_key u)" "map_of d \<noteq> Map.empty"
    using read_features_view [OF assms] by (auto simp del: map_of_eq_empty_iff simp: map_of_eq_empty_iff [symmetric])
  then show ?thesis using Some by (simp add: abs_cache_def)
qed

end

subsection \<open>Lifetimes in the specification\<close>

fun touched :: "request \<Rightarrow> string set" where
  "touched (Writing W) = W"
| "touched (Extending W) = W"
| "touched Storing = {}"
| "touched (Waiting d) = {}"

fun waited :: "request \<Rightarrow> nat" where
  "waited (Waiting d) = d"
| "waited r = 0"

lemma do_other:
  assumes "allows T r c" and "u \<notin> touched r"
  shows "cache_do c x u = x u"
  using assms by (cases c; cases r) (auto split: option.split)

lemma do_all_other:
  assumes "list_all (allows T r) ops" and "u \<notin> touched r"
  shows "fold cache_do ops x u = x u"
  using assms(1)
proof (induction ops arbitrary: x)
  case Nil
  then show ?case by simp
next
  case (Cons c ops)
  then show ?case using do_other [of T r c u x] assms(2) by simp
qed

lemma spec_other:
  assumes "cache_spec T r c c'" and "u \<notin> touched r"
  shows "c' u = (case r of Waiting d \<Rightarrow> cache_tick d c u | _ \<Rightarrow> c u)"
  using assms do_all_other [OF _ assms(2)] by (cases r) fastforce+

definition lives_at_most :: "nat \<Rightarrow> cache \<Rightarrow> string \<Rightarrow> bool" where
  "lives_at_most m c u \<longleftrightarrow> (case c u of None \<Rightarrow> True | Some (h, n) \<Rightarrow> 0 < n \<and> n \<le> m)"

lemma spec_lives:
  assumes "cache_spec T r c c'" and "u \<notin> touched r" and "lives_at_most m c u"
  shows "lives_at_most (m - waited r) c' u"
  using spec_other [OF assms(1,2)] assms(3)
  by (cases r) (auto simp: lives_at_most_def cache_tick_def split: option.splits if_splits)

lemma lives_zero: "lives_at_most 0 c u \<longleftrightarrow> c u = None"
  by (auto simp: lives_at_most_def split: option.splits)

lemma cache_ok_lives: "cache_ok T v \<Longrightarrow> lives_at_most T (abs_cache v) u"
  using cache_okD(4) [of T v u] by (auto simp: lives_at_most_def abs_cache_def)

definition written :: "request \<Rightarrow> string set" where
  "written r = (case r of Writing W \<Rightarrow> W | _ \<Rightarrow> {})"

text \<open>Only a write brings a user back.\<close>

lemma do_absent:
  assumes "allows T r c" and "u \<notin> written r" and "x u = None"
  shows "cache_do c x u = None"
  using assms by (cases c; cases r) (auto simp: written_def split: option.split)

lemma spec_absent:
  assumes "cache_spec T r c c'" and "u \<notin> written r" and "c u = None"
  shows "c' u = None"
proof -
  have all: "fold cache_do ops x u = None" if "list_all (allows T r) ops" "x u = None" for ops x
    using that
  proof (induction ops arbitrary: x)
    case Nil
    then show ?case by simp
  next
    case (Cons a ops)
    then show ?case using do_absent [of T r a u x] assms(2) by simp
  qed
  show ?thesis using assms(1,3) all by (cases r) (auto simp: cache_tick_def)
qed

context deployment
begin

lemma run_lives:
  assumes "cache_run R view retry cfg A sink_ttl s reqs s'" and "cache_ok T (view s)"
    and "u \<notin> \<Union> (touched ` set reqs)" and "lives_at_most m (abs_cache (view s)) u"
  shows "lives_at_most (m - sum_list (map waited reqs)) (abs_cache (view s')) u"
  using assms
proof (induction arbitrary: m rule: cache_run.induct)
  case (idle s)
  then show ?case by simp
next
  case (act s req t reqs s')
  note step = step_refines [OF act.prems(1) act.hyps(1)]
  have "lives_at_most (m - waited req) (abs_cache (view t)) u"
    using step spec_lives act.prems(2,3) by fastforce
  then show ?case using act.IH [of "m - waited req"] step act.prems(2) by (simp add: diff_diff_left)
qed

lemma run_absent:
  assumes "cache_run R view retry cfg A sink_ttl s reqs s'" and "cache_ok T (view s)"
    and "u \<notin> \<Union> (written ` set reqs)" and "abs_cache (view s) u = None"
  shows "abs_cache (view s') u = None"
  using assms
proof (induction rule: cache_run.induct)
  case (idle s)
  then show ?case by simp
next
  case (act s req t reqs s')
  note step = step_refines [OF act.prems(1) act.hyps(1)]
  have "abs_cache (view t) u = None" using step spec_absent act.prems(2,3) by fastforce
  then show ?case using act.IH step act.prems(2) by simp
qed

end

subsection \<open>A deployment that computes\<close>

definition ref_elapse :: "nat \<Rightarrow> ref_db \<Rightarrow> ref_db" where
  "ref_elapse d db = db\<lparr>
     db_hash := (\<lambda>k. if expired d (ref_view db) k then [] else db_hash db k),
     db_ttl := (\<lambda>k. if expired d (ref_view db) k then None else map_option (\<lambda>n. n - d) (db_ttl db k)),
     db_set := (\<lambda>k. if expired d (ref_view db) k then [] else db_set db k),
     db_str := (\<lambda>k. if expired d (ref_view db) k then None else db_str db k)\<rparr>"

lemma ref_elapse_view: "ref_view (ref_elapse d db) = elapse d (ref_view db)"
  by (simp add: ref_elapse_def elapse_def ref_view_def fun_eq_iff)

lemma ref_deployment: "deployment ref_redis ref_view (attempts 3) online_config_default 300 300"
  by (intro deployment.intro ref_redis_server deployment_axioms.intro stop_after_attempts)
    (simp_all add: online_config_default_def)

interpretation ref_deployment: deployment ref_redis ref_view "attempts 3" online_config_default 300 300
  by (rule ref_deployment)

lemma empty_ok: "cache_ok T (ref_view empty_db)"
  by (simp add: cache_ok_def ref_view_def empty_db_def)

lemma sample_step:
  "cache_step ref_redis ref_view (attempts 3) online_config_default dict_row 300 empty_db (Writing {''usr_00001''}) sample_db"
  by (rule cache_step.store [OF sample_write])

lemma sample_ok: "cache_ok 300 (ref_view sample_db)"
  using ref_deployment.step_refines [OF empty_ok sample_step] by simp

lemma sample_stored:
  "v_hash (ref_view sample_db) (feature_key ''usr_00001'') \<noteq> Map.empty"
  "''usr_00001'' \<in> v_set (ref_view sample_db) USER_INDEX_KEY"
proof -
  obtain ts where "ref_view sample_db = apply_cmds (feature_cmds 300 ''usr_00001'' (write_payload sample_features ts)) (ref_view empty_db)"
    using ref.write_features_ok [OF ref_deployment.retries ref_deployment.ttl(1) sample_write]
    by (auto simp: online_config_default_def)
  then have "ref_view sample_db = (ref_view empty_db)\<lparr>
      v_hash := (v_hash (ref_view empty_db))(feature_key ''usr_00001'' := v_hash (ref_view empty_db) (feature_key ''usr_00001'')
        ++ map_of (write_payload sample_features ts)),
      v_ttl := (v_ttl (ref_view empty_db))(feature_key ''usr_00001'' \<mapsto> 300),
      v_set := (v_set (ref_view empty_db))(USER_INDEX_KEY := insert ''usr_00001'' (v_set (ref_view empty_db) USER_INDEX_KEY))\<rparr>"
    by (simp add: feature_cmds_view payload_nonempty)
  then show "v_hash (ref_view sample_db) (feature_key ''usr_00001'') \<noteq> Map.empty"
    "''usr_00001'' \<in> v_set (ref_view sample_db) USER_INDEX_KEY"
    using added_fields [OF payload_nonempty(1), of "v_hash (ref_view empty_db) (feature_key ''usr_00001'')" sample_features ts] by simp_all
qed

lemma sample_wait:
  "cache_step ref_redis ref_view (attempts 3) online_config_default dict_row 300 sample_db (Waiting 300) (ref_elapse 300 sample_db)"
  by (rule cache_step.wait) (rule ref_elapse_view)

lemma sample_runs:
  "cache_run ref_redis ref_view (attempts 3) online_config_default dict_row 300 sample_db [Waiting 300] (ref_elapse 300 sample_db)"
  "cache_run ref_redis ref_view (attempts 3) online_config_default dict_row 300 empty_db
     [Writing {''usr_00001''}, Waiting 300] (ref_elapse 300 sample_db)"
  unfolding cache_run_simps using sample_step sample_wait by blast+

subsection \<open>Properties\<close>

text \<open>
  C2. Every operation of the program on the feature keys refines the cache with lifetimes: whatever the outcome of the calls,
  the new contents are those the specification reaches by operations the request allows (writes of the users it
  writes, extensions of the users it extends, all with a lifetime of at most \<open>T\<close>), or by the passing of time; the
  invariant is kept; and a read that returns gives what the specification's cache holds.
\<close>

theorem cache_refines:
  assumes "deployment R view retry cfg sink_ttl T" and "cache_ok T (view s)"
    and "cache_step R view retry cfg A sink_ttl s req s'" and "read_features R u s' = Inr r"
  shows "cache_spec T req (abs_cache (view s)) (abs_cache (view s')) \<and> cache_ok T (view s')
    \<and> map_option map_of r = map_option fst (abs_cache (view s') u)"
  using deployment.step_refines [OF assms(1-3)] deployment.reads_cache [OF assms(1,4)] by simp

lemma cache_refines_witness:
  "cache_spec 300 (Writing {''usr_00001''}) (abs_cache (ref_view empty_db)) (abs_cache (ref_view sample_db))
   \<and> cache_spec 300 (Waiting 300) (abs_cache (ref_view sample_db)) (abs_cache (ref_view (ref_elapse 300 sample_db)))"
proof -
  have read: "\<exists>r. read_features ref_redis u db = Inr r" for u db by (simp add: read_features_def)
  obtain r q where "read_features ref_redis ''u'' sample_db = Inr r" "read_features ref_redis ''u'' (ref_elapse 300 sample_db) = Inr q"
    using read by blast
  then show ?thesis
    using cache_refines [OF ref_deployment empty_ok sample_step] cache_refines [OF ref_deployment sample_ok sample_wait] by blast
qed

text \<open>
  C4. From a server without feature keys, whatever the program's components do and in whatever order: a user with
  features is in the index of active users, and the key has a time to live, positive and at most \<open>T\<close>. So no
  features stay for ever, and every cached user can be found by the jobs that sample the index.
\<close>

theorem cache_invariant:
  assumes "deployment R view retry cfg sink_ttl T"
    and "\<forall>u. \<not> v_exists (view s) (feature_key u)" and "v_ttl (view s) USER_INDEX_KEY = None"
    and "cache_run R view retry cfg A sink_ttl s reqs s'" and "v_hash (view s') (feature_key u) \<noteq> Map.empty"
  shows "u \<in> v_set (view s') USER_INDEX_KEY \<and> (\<exists>n. v_ttl (view s') (feature_key u) = Some n \<and> 0 < n \<and> n \<le> T)"
proof -
  have "cache_ok T (view s)" using assms(2,3) by (simp add: cache_ok_def v_exists_def)
  then have "cache_ok T (view s')" using deployment.run_ok [OF assms(1,4)] by simp
  then show ?thesis using cache_okD(4) assms(5) by blast
qed

lemma cache_invariant_witness:
  "\<exists>n. v_ttl (ref_view sample_db) (feature_key ''usr_00001'') = Some n \<and> 0 < n \<and> n \<le> 300"
proof -
  have run: "cache_run ref_redis ref_view (attempts 3) online_config_default dict_row 300 empty_db [Writing {''usr_00001''}] sample_db"
    unfolding cache_run_simps using sample_step by blast
  have fresh: "\<forall>u. \<not> v_exists (ref_view empty_db) (feature_key u)" "v_ttl (ref_view empty_db) USER_INDEX_KEY = None"
    by (simp_all add: v_exists_def ref_view_def empty_db_def)
  show ?thesis using cache_invariant [OF ref_deployment fresh run, of "''usr_00001''"] sample_stored(1) by blast
qed

text \<open>
  C5. Features nobody writes or extends are gone after \<open>T\<close> seconds, whatever else the program does in between: a read
  that returns finds nothing.
\<close>

theorem unused_features_expire:
  assumes "deployment R view retry cfg sink_ttl T" and "cache_ok T (view s)"
    and "cache_run R view retry cfg A sink_ttl s reqs s'"
    and "u \<notin> \<Union> (touched ` set reqs)" and "T \<le> sum_list (map waited reqs)"
    and "read_features R u s' = Inr r"
  shows "r = None"
proof -
  have "lives_at_most (T - sum_list (map waited reqs)) (abs_cache (view s')) u"
    by (rule deployment.run_lives [OF assms(1,3,2,4)]) (rule cache_ok_lives [OF assms(2)])
  then have "abs_cache (view s') u = None" using assms(5) by (simp add: lives_zero)
  then show ?thesis using deployment.reads_cache [OF assms(1,6)] by simp
qed

lemma unused_features_expire_witness:
  "read_features ref_redis ''usr_00001'' (ref_elapse 300 sample_db) = Inr None"
proof -
  obtain r where r: "read_features ref_redis ''usr_00001'' (ref_elapse 300 sample_db) = Inr r" by (simp add: read_features_def)
  show ?thesis using unused_features_expire [OF ref_deployment sample_ok sample_runs(1) _ _ r] r by simp
qed

text \<open>
  C6. The index never forgets: no operation of the program removes a user from it, so it keeps every user ever written,
  including the users whose features have expired and whom no later extension brings back. The counts of active users and
  the samples of the jobs are taken from it.
\<close>

theorem index_never_forgets:
  assumes "deployment R view retry cfg sink_ttl T" and "cache_ok T (view s)"
    and "cache_run R view retry cfg A sink_ttl s reqs s'"
    and "u \<in> v_set (view s) USER_INDEX_KEY" and "v_hash (view s) (feature_key u) = Map.empty"
    and "u \<notin> \<Union> (written ` set reqs)"
  shows "u \<in> v_set (view s') USER_INDEX_KEY \<and> v_hash (view s') (feature_key u) = Map.empty"
proof -
  have "abs_cache (view s) u = None" using assms(5) by (simp add: abs_cache_def)
  then have "abs_cache (view s') u = None" by (rule deployment.run_absent [OF assms(1,3,2,6)])
  then have "v_hash (view s') (feature_key u) = Map.empty" by (simp add: abs_cache_def split: if_splits)
  then show ?thesis using deployment.run_ok [OF assms(1,3,2)] assms(4) by blast
qed

lemma index_never_forgets_witness:
  "''usr_00001'' \<in> v_set (ref_view (snd (do_refresh ref_redis ''usr_00001'' (ref_elapse 300 sample_db)))) USER_INDEX_KEY
   \<and> v_hash (ref_view (snd (do_refresh ref_redis ''usr_00001'' (ref_elapse 300 sample_db)))) (feature_key ''usr_00001'') = Map.empty"
proof -
  let ?s = "ref_elapse 300 sample_db"
  have ok: "cache_ok 300 (ref_view ?s)" using ref_deployment.step_refines [OF sample_ok sample_wait] by simp
  have "abs_cache (ref_view ?s) ''usr_00001'' = None"
    using tick_refines [OF sample_ok, of 300] cache_ok_lives [OF sample_ok, of "''usr_00001''"]
    by (auto simp: ref_elapse_view cache_tick_def lives_at_most_def split: option.splits)
  then have gone: "v_hash (ref_view ?s) (feature_key ''usr_00001'') = Map.empty" by (simp add: abs_cache_def split: if_splits)
  have idx: "''usr_00001'' \<in> v_set (ref_view ?s) USER_INDEX_KEY"
    using tick_refines [OF sample_ok, of 300] sample_stored(2) by (simp add: ref_elapse_view)
  have run: "cache_run ref_redis ref_view (attempts 3) online_config_default dict_row 300 ?s [Extending {''usr_00001''}]
      (snd (do_refresh ref_redis ''usr_00001'' ?s))"
    unfolding cache_run_simps
    by (intro exI conjI cache_step.endpoint [where r = "fst (do_refresh ref_redis ''usr_00001'' ?s)"]) simp_all
  show ?thesis using index_never_forgets [OF ref_deployment ok run idx gone] by (simp add: written_def)
qed

end
