(* ===== verification/Pipeline.thy ===== *)
theory Pipeline
  imports Features
begin

text \<open>
  From the generator to a feature: the messages the generator's loop has put on the topic, decoded by the streaming
  job with its schema, and the purchase counts the job computes from them. The generator and the job share no code; what
  they share is the message format, and \<open>event_row\<close> is the row the job makes of an event.
\<close>

definition event_row :: "ecommerce_event \<Rightarrow> row" where
  "event_row e = decode_event EVENT_SCHEMA (to_kafka_bytes e)"

definition micros :: "ecommerce_event \<Rightarrow> int" where
  "micros e = \<lfloor>real_of (e_timestamp e) * 10 ^ 6\<rfloor>"

text \<open>The streaming job's view of a topic: the rows of its messages.\<close>

definition topic_rows :: "kafka_msg list \<Rightarrow> row list" where
  "topic_rows msgs = map (decode_event EVENT_SCHEMA \<circ> snd \<circ> snd) msgs"

lemma topic_rows_sent: "topic_rows (map (event_msg topic) es) = map event_row es"
  by (simp add: topic_rows_def event_row_def event_msg_def)

lemma event_row_fields [simp]:
  "get (event_row e) ''user_id'' = CStr (e_user_id e)"
  "get (event_row e) ''event_type'' = CStr (e_event_type e)"
  "is_fin (e_timestamp e) \<Longrightarrow> get (event_row e) ''timestamp'' = CTime (micros e)"
  by (simp_all add: event_row_def decode_event_def to_kafka_bytes_def EVENT_SCHEMA_def micros_def is_fin_iff split: option.split)
    auto

text \<open>No event of the generator is lost in decoding, by the filter on the user, or by its type.\<close>

lemma stream_events_all: "sem E S stream_events (map event_row es) = map event_row es"
  by (auto simp: stream_events_def filter_id_conv)

lemma events_of_type_rows: "events_of_type t (map event_row es) = map event_row (filter (\<lambda>e. e_event_type e = t) es)"
  by (auto simp: events_of_type_def has_type_def filter_map comp_def)

definition bought_in :: "string \<Rightarrow> int \<Rightarrow> int \<Rightarrow> ecommerce_event \<Rightarrow> bool" where
  "bought_in u a b e \<longleftrightarrow> e_event_type e = ''purchase'' \<and> e_user_id e = u \<and> a \<le> micros e \<and> micros e < b"

lemma user_events_rows:
  assumes "list_all (is_fin \<circ> e_timestamp) es"
  shows "user_events (CStr u) a b (map event_row (filter (\<lambda>e. e_event_type e = ''purchase'') es))
    = map event_row (filter (bought_in u a b) es)"
  using assms by (induction es) (auto simp: user_events_def in_span_def bought_in_def)

lemma user_events_user:
  assumes "user_events u a b (map event_row es) \<noteq> []"
  shows "\<exists>w. u = CStr w"
  using assms by (auto simp: user_events_def filter_empty_conv)

lemma counts_of_events:
  fixes E :: spark_env
  assumes "spark_engine run_plan" and "list_all (is_fin \<circ> e_timestamp) es"
  defines "rows \<equiv> run_plan E EVENT_SCHEMA (compute_txn_count_5m stream_events) (map event_row es)"
  shows "list_all (\<lambda>r. \<exists>u a. get r ''user_id'' = CStr u \<and> get r ''window'' = window_cell (minutes 5) a \<and> minutes 5 dvd a
        \<and> get r ''txn_count_5m'' = CNum (fnat (length (filter (bought_in u a (a + minutes 5)) es)))) rows"
    and "total_count ''txn_count_5m'' rows = real (length (filter (\<lambda>e. e_event_type e = ''purchase'') es))"
proof -
  let ?purchases = "map event_row (filter (\<lambda>e. e_event_type e = ''purchase'') es)"
  have exact: "list_all (\<lambda>r. \<exists>u a. get r ''user_id'' = u \<and> get r ''window'' = window_cell (minutes 5) a \<and> minutes 5 dvd a
        \<and> get r ''txn_count_5m'' = CNum (fnat (length (user_events u a (a + minutes 5) ?purchases)))
        \<and> user_events u a (a + minutes 5) ?purchases \<noteq> []) rows"
    "total_count ''txn_count_5m'' rows = real (length (filter timed ?purchases))"
    using spark_engine.count_feature_engine [OF assms(1), where E = E and S = EVENT_SCHEMA and p = stream_events
        and df = "map event_row es" and t = "''purchase''" and s = "minutes 5" and name = "''txn_count_5m''"]
    unfolding rows_def counting_features stream_events_all events_of_type_rows by simp_all
  have row: "\<exists>u a. get r ''user_id'' = CStr u \<and> get r ''window'' = window_cell (minutes 5) a \<and> minutes 5 dvd a
      \<and> get r ''txn_count_5m'' = CNum (fnat (length (filter (bought_in u a (a + minutes 5)) es)))"
    if r: "r \<in> set rows" for r
  proof -
    obtain u a where u: "get r ''user_id'' = u" "get r ''window'' = window_cell (minutes 5) a" "minutes 5 dvd a"
      "get r ''txn_count_5m'' = CNum (fnat (length (user_events u a (a + minutes 5) ?purchases)))"
      "user_events u a (a + minutes 5) ?purchases \<noteq> []"
      using exact r by (auto simp: list_all_iff)
    obtain w where "u = CStr w" using user_events_user [OF u(5)] by blast
    then show ?thesis using u user_events_rows [OF assms(2)] by auto
  qed
  then show "list_all (\<lambda>r. \<exists>u a. get r ''user_id'' = CStr u \<and> get r ''window'' = window_cell (minutes 5) a \<and> minutes 5 dvd a
        \<and> get r ''txn_count_5m'' = CNum (fnat (length (filter (bought_in u a (a + minutes 5)) es)))) rows"
    by (simp add: list_all_iff)
  have "filter timed ?purchases = ?purchases"
    using assms(2) by (auto simp: filter_id_conv timed_def list_all_iff)
  then show "total_count ''txn_count_5m'' rows = real (length (filter (\<lambda>e. e_event_type e = ''purchase'') es))"
    using exact by simp
qed

text \<open>
  C12. From the generator to the feature: when the generator's run ends without an error on an empty topic, the job's
  purchase counts over that topic are those of the generated events. Every row names a user and an aligned five-minute
  window and counts the purchases generated for that user in that window, and the counts add up to all the purchases
  generated: none is lost or counted twice between the two components.
\<close>

theorem generated_purchases_counted:
  assumes "kafka_producer P sent" and "reraise_after 5 retry" and "ic_event_rate_tps cfg \<noteq> 0" and "spark_engine run_plan"
    and "run clip retry P cfg draws s = (Inr n, s')" and "sent s = []"
    and "list_all (is_fin \<circ> e_timestamp) (concat (event_stream clip cfg Map.empty draws))"
  shows "let es = concat (event_stream clip cfg Map.empty draws);
      rows = run_plan E EVENT_SCHEMA (compute_txn_count_5m stream_events) (topic_rows (sent s'))
    in n = length es
      \<and> list_all (\<lambda>r. \<exists>u a. get r ''user_id'' = CStr u \<and> get r ''window'' = window_cell (minutes 5) a \<and> minutes 5 dvd a
          \<and> get r ''txn_count_5m'' = CNum (fnat (length (filter (bought_in u a (a + minutes 5)) es)))) rows
      \<and> total_count ''txn_count_5m'' rows = real (length (filter (\<lambda>e. e_event_type e = ''purchase'') es))"
proof -
  have "sent s' = map (event_msg (ic_kafka_topic_events cfg)) (concat (event_stream clip cfg Map.empty draws))
      \<and> n = length (concat (event_stream clip cfg Map.empty draws))"
    using run_log [OF assms(1-3,5)] assms(6) by (auto simp: sent_prefix_def)
  then show ?thesis
    using counts_of_events [OF assms(4,7), of E] by (simp add: topic_rows_sent)
qed

lemma generated_purchases_counted_witness:
  "\<exists>n s'. run np_clip (attempts_reraise 5) ref_producer ingestion_config_default [sample_batch] \<lparr>rl_log = [], rl_faults = 3\<rparr>
      = (Inr n, s')
    \<and> total_count ''txn_count_5m'' (sem sample_env EVENT_SCHEMA (compute_txn_count_5m stream_events) (topic_rows (rl_log s'))) = 1"
proof -
  let ?es = "concat (event_stream np_clip ingestion_config_default Map.empty [sample_batch])"
  have rate: "ic_event_rate_tps ingestion_config_default \<noteq> 0" by (simp add: ingestion_config_default_def)
  have ok: "isl (fst (run np_clip (attempts_reraise 5) ref_producer ingestion_config_default [sample_batch]
      \<lparr>rl_log = [], rl_faults = 3\<rparr>)) = False" by code_simp
  then obtain n s' where go: "run np_clip (attempts_reraise 5) ref_producer ingestion_config_default [sample_batch]
      \<lparr>rl_log = [], rl_faults = 3\<rparr> = (Inr n, s')"
    by (cases "run np_clip (attempts_reraise 5) ref_producer ingestion_config_default [sample_batch] \<lparr>rl_log = [], rl_faults = 3\<rparr>";
        cases "fst (run np_clip (attempts_reraise 5) ref_producer ingestion_config_default [sample_batch] \<lparr>rl_log = [], rl_faults = 3\<rparr>)")
      auto
  have fin: "list_all (is_fin \<circ> e_timestamp) ?es" by code_simp
  have bought: "map e_event_type ?es = [''page_view'', ''purchase'']" by code_simp
  have "length (filter (\<lambda>e. e_event_type e = ''purchase'') ?es) = length (filter (\<lambda>t. t = ''purchase'') (map e_event_type ?es))"
    by (simp add: filter_map comp_def)
  then have "length (filter (\<lambda>e. e_event_type e = ''purchase'') ?es) = 1" unfolding bought by simp
  then show ?thesis
    using generated_purchases_counted [OF ref_producer_contract reraise_after_attempts rate sem_engine go _ fin, of sample_env] go
    by (auto simp: Let_def)
qed

end
