(* ===== verification/Table_Runs.thy ===== *)
theory Table_Runs
  imports Sinks
begin

text \<open>
  The life of the feature table across the jobs that write it. The micro-batches of the streaming sink and the backfills
  are the rules of one step relation on the lake, labelled with the rows they bring; a run is a list of such events in any
  order, with any outcomes. The specification is a versioned bag of rows that a batch updates by user and day and a
  backfill adds to; every step of the program is a step of the specification. Two jobs that write at the same instant
  are ordered by Delta's commits; that the sink looks whether the table exists before it writes is one step here.
\<close>

subsection \<open>The specification: a versioned bag of rows\<close>

type_synonym versions = "(int \<times> row multiset) list"

datatype table_event =
    Batch "row multiset"
  | Load "row multiset" bool
  | Pause

definition current :: "versions \<Rightarrow> row multiset" where
  "current h = (if h = [] then {#} else snd (last h))"

text \<open>
  The one row of \<open>src\<close> with the key of a row takes its place, and a key without a row is added; a key with several
  rows in \<open>src\<close> is refused.
\<close>

definition upserts :: "string list \<Rightarrow> row multiset \<Rightarrow> row multiset \<Rightarrow> row multiset \<Rightarrow> bool" where
  "upserts ks old src new \<longleftrightarrow>
     (\<forall>t \<in># old. size (filter_mset (same_key ks t) src) \<le> 1)
     \<and> (\<exists>f. (\<forall>t \<in># old. f t \<in># src \<and> same_key ks t (f t) \<or> f t = t \<and> (\<forall>s \<in># src. \<not> same_key ks t s))
        \<and> new = image_mset f old + filter_mset (\<lambda>s. \<forall>t \<in># old. \<not> same_key ks t s) src)"

fun table_spec :: "table_event \<Rightarrow> int \<times> versions \<Rightarrow> int \<times> versions \<Rightarrow> bool" where
  "table_spec (Batch src) (now, h) (now', h') \<longleftrightarrow> now \<le> now'
     \<and> (h' = h \<or> (\<exists>t new. now \<le> t \<and> upserts merge_keys (current h) src new \<and> h' = h @ [(t, new)]))"
| "table_spec (Load new ok) (now, h) (now', h') \<longleftrightarrow> now \<le> now'
     \<and> (if ok then \<exists>t. now \<le> t \<and> h' = h @ [(t, current h + new)] else h' = h)"
| "table_spec Pause (now, h) (now', h') \<longleftrightarrow> now \<le> now' \<and> h' = h"

inductive spec_run :: "int \<times> versions \<Rightarrow> table_event list \<Rightarrow> int \<times> versions \<Rightarrow> bool" where
  spec_nil: "spec_run x [] x"
| spec_cons: "table_spec ev x y \<Longrightarrow> spec_run y evs z \<Longrightarrow> spec_run x (ev # evs) z"

inductive_simps spec_run_simps: "spec_run x [] z" "spec_run x (ev # evs) z"

subsection \<open>The program's jobs as steps\<close>

definition batch_rows :: "spark_env \<Rightarrow> schema \<Rightarrow> row list \<Rightarrow> row multiset" where
  "batch_rows E S batch = mset (sem E S (add_partition_columns Events) batch)"

definition backfilled_rows :: "spark_env \<Rightarrow> int \<Rightarrow> int \<Rightarrow> json list \<Rightarrow> row multiset" where
  "backfilled_rows E a b msgs =
     mset (sem E BACKFILL_SCHEMA (add_partition_columns (backfill_plan a b)) (map (decode_event BACKFILL_SCHEMA) msgs))"

inductive table_step ::
  "'d delta \<Rightarrow> ('d \<Rightarrow> string \<Rightarrow> history) \<Rightarrow> ('d \<Rightarrow> int)
   \<Rightarrow> (spark_env \<Rightarrow> schema \<Rightarrow> plan \<Rightarrow> row list \<Rightarrow> row list) \<Rightarrow> offline_config \<Rightarrow> int \<Rightarrow> 'd \<Rightarrow> table_event \<Rightarrow> 'd \<Rightarrow> bool"
  for D :: "'d delta" and commits and clock and run_plan and cfg and tz where
  sink: "write_features_to_delta D run_plan E S (of_delta_table_path cfg) batch d = (r, d') \<Longrightarrow> se_tz E = tz
    \<Longrightarrow> table_step D commits clock run_plan cfg tz d (Batch (batch_rows E S batch)) d'"
| backfill: "run_backfill D run_plan E kafka cfg a b offsets d = (r, d') \<Longrightarrow> kafka offsets = Inr msgs \<Longrightarrow> se_tz E = tz
    \<Longrightarrow> table_step D commits clock run_plan cfg tz d (Load (backfilled_rows E a b msgs) (r = Inr ())) d'"
| unread: "run_backfill D run_plan E kafka cfg a b offsets d = (r, d') \<Longrightarrow> kafka offsets = Inl e
    \<Longrightarrow> table_step D commits clock run_plan cfg tz d Pause d'"
| pause: "commits d' = commits d \<Longrightarrow> clock d \<le> clock d'
    \<Longrightarrow> table_step D commits clock run_plan cfg tz d Pause d'"

inductive table_run ::
  "'d delta \<Rightarrow> ('d \<Rightarrow> string \<Rightarrow> history) \<Rightarrow> ('d \<Rightarrow> int)
   \<Rightarrow> (spark_env \<Rightarrow> schema \<Rightarrow> plan \<Rightarrow> row list \<Rightarrow> row list) \<Rightarrow> offline_config \<Rightarrow> int \<Rightarrow> 'd \<Rightarrow> table_event list \<Rightarrow> 'd \<Rightarrow> bool"
  for D :: "'d delta" and commits and clock and run_plan and cfg and tz where
  rest: "table_run D commits clock run_plan cfg tz d [] d"
| act: "table_step D commits clock run_plan cfg tz d ev e \<Longrightarrow> table_run D commits clock run_plan cfg tz e evs d'
    \<Longrightarrow> table_run D commits clock run_plan cfg tz d (ev # evs) d'"

inductive_simps table_run_simps:
  "table_run D commits clock run_plan cfg tz d [] d'"
  "table_run D commits clock run_plan cfg tz d (ev # evs) d'"

definition abs_versions :: "history \<Rightarrow> versions" where
  "abs_versions cs = map (\<lambda>(t, rows). (t, mset rows)) cs"

lemma abs_versions_simps [simp]:
  "abs_versions [] = []"
  "abs_versions (cs @ [(t, rows)]) = abs_versions cs @ [(t, mset rows)]"
  "current (abs_versions cs) = mset (contents cs)"
  "abs_versions cs = [] \<longleftrightarrow> cs = []"
  "abs_versions [(t, rows)] = [(t, mset rows)]"
  "current [] = {#}"
  by (auto simp: abs_versions_def current_def contents_def last_map split: prod.split)


subsection \<open>Every job is a step of the specification\<close>

lemma merged_upserts:
  assumes "\<not> ambiguous ks old src"
  shows "upserts ks (mset old) (mset src) (mset (merged ks old src))"
proof -
  have one: "length (filter (same_key ks t) src) \<le> 1" if "t \<in> set old" for t
  proof -
    have "\<not> 2 \<le> length (filter (same_key ks t) src)"
      using assms that unfolding ambiguous_def list_ex_iff by blast
    then show ?thesis by linarith
  qed
  have "merged_row ks src t \<in> set src \<and> same_key ks t (merged_row ks src t)
      \<or> merged_row ks src t = t \<and> (\<forall>s \<in> set src. \<not> same_key ks t s)" for t
  proof (cases "filter (same_key ks t) src")
    case Nil
    then show ?thesis by (simp add: merged_row_def filter_empty_conv)
  next
    case (Cons s ss)
    have "s \<in> set (filter (same_key ks t) src)" unfolding Cons by simp
    then have "s \<in> set src \<and> same_key ks t s" by simp
    then show ?thesis using Cons by (simp add: merged_row_def)
  qed
  moreover have "mset (merged ks old src) = image_mset (merged_row ks src) (mset old)
      + filter_mset (\<lambda>s. \<forall>t \<in># mset old. \<not> same_key ks t s) (mset src)"
    by (simp add: merged_def list_ex_iff)
  moreover have "\<forall>t \<in># mset old. size (filter_mset (same_key ks t) (mset src)) \<le> 1"
    using one by (simp flip: mset_filter)
  ultimately show ?thesis
    unfolding upserts_def by (intro conjI exI [of _ "merged_row ks src"]) (simp_all only: set_mset_mset, blast)
qed

lemma upserts_empty: "upserts ks {#} src src"
  by (simp add: upserts_def)

text \<open>A lake whose clock never goes back, and an engine.\<close>

locale table_jobs = delta_lake D commits fallback clock + spark_engine run_plan
  for D :: "'d delta" and commits fallback clock and run_plan +
  fixes cfg :: offline_config and tz :: int
  assumes clock_merge: "dl_merge D ks p src d = (r, d') \<Longrightarrow> clock d \<le> clock d'"
    and clock_save: "dl_save D mode parts p new d = (r, d') \<Longrightarrow> clock d \<le> clock d'"
    and clock_parquet: "dl_parquet D parts p new d = (r, d') \<Longrightarrow> clock d \<le> clock d'"
begin

abbreviation abs_table :: "'d \<Rightarrow> int \<times> versions" where
  "abs_table d \<equiv> (clock d, abs_versions (commits d (table_path cfg)))"

lemma table_write_forward: "table_write D p src d = (r, d') \<Longrightarrow> clock d \<le> clock d'"
  using clock_merge clock_save by (auto simp: table_write_def split: sum.splits bool.splits)

lemma table_write_spec:
  assumes "table_write D (table_path cfg) rows d = (r, d')" and "mset rows = src"
  shows "table_spec (Batch src) (abs_table d) (abs_table d')"
proof (cases r)
  case (Inl e)
  then show ?thesis
    using assms(1) table_write_raised [OF delta_lake_axioms] table_write_forward by fastforce
next
  case (Inr u)
  then have ok: "table_write D (table_path cfg) rows d = (Inr (), d')" using assms(1) by simp
  show ?thesis
    using delta_lake_axioms ok
  proof (cases rule: table_write_ok)
    case (merge new t)
    then have "upserts merge_keys (mset (contents (commits d (table_path cfg)))) src (mset new)"
      using merged_upserts assms(2) by metis
    then show ?thesis
      using delta_lake_axioms merge table_write_forward [OF ok] by auto
  next
    case (overwrite new t)
    then show ?thesis
      using assms(2) table_write_forward [OF ok] upserts_empty [of merge_keys src] by (auto simp: contents_def)
  qed
qed


lemma sink_spec:
  assumes "write_features_to_delta D run_plan E S (of_delta_table_path cfg) batch d = (r, d')"
  shows "table_spec (Batch (batch_rows E S batch)) (abs_table d) (abs_table d')"
proof (cases "batch = []")
  case True
  then show ?thesis using assms by (simp add: write_features_to_delta_def)
next
  case False
  let ?src = "run_plan E S (add_partition_columns Events) batch"
  obtain q e where q: "table_write D (table_path cfg) ?src d = (q, e)" by fastforce
  have src: "mset ?src = batch_rows E S batch" by (simp add: batch_rows_def run_sem del: sem.simps)
  note step = table_write_spec [OF q src]
  show ?thesis
  proof (cases q)
    case (Inr u)
    then show ?thesis using assms False q step by (simp add: write_features_to_delta_def table_path_def Let_def)
  next
    case (Inl x)
    have "dl_parquet D [''event_date''] (of_delta_table_path cfg @ ''/fallback_parquet'') ?src e = (r, d')"
      using assms False q Inl by (simp add: write_features_to_delta_def table_path_def Let_def)
    then have "commits d' = commits e" "clock e \<le> clock d'"
      using parquet_ok parquet_raised clock_parquet by (cases r; fastforce)+
    then show ?thesis using step by auto
  qed
qed

lemma backfill_spec:
  assumes "run_backfill D run_plan E kafka cfg a b offsets d = (r, d')" and "kafka offsets = Inr msgs"
  shows "table_spec (Load (backfilled_rows E a b msgs) (r = Inr ())) (abs_table d) (abs_table d')"
proof -
  let ?new = "run_plan E BACKFILL_SCHEMA (add_partition_columns (backfill_plan a b)) (map (decode_event BACKFILL_SCHEMA) msgs)"
  have save: "dl_save D ''append'' [''event_date'', ''user_prefix''] (table_path cfg) ?new d = (r, d')"
    using assms by (simp add: run_backfill_def delta_write_features_def)
  have new: "mset ?new = backfilled_rows E a b msgs" by (simp add: backfilled_rows_def run_sem del: sem.simps)
  show ?thesis
  proof (cases r)
    case (Inl e)
    then show ?thesis using save save_raised clock_save by fastforce
  next
    case (Inr u)
    then obtain t rows where "clock d \<le> t" "mset rows = mset (contents (commits d (table_path cfg)) @ ?new)"
      "commits d' = (commits d)(table_path cfg := commits d (table_path cfg) @ [(t, rows)])"
      using save append_ok by fastforce
    then show ?thesis using Inr new clock_save [OF save] by auto
  qed
qed

lemma step_spec:
  assumes "table_step D commits clock run_plan cfg tz d ev d'"
  shows "table_spec ev (abs_table d) (abs_table d')"
  using assms
proof cases
  case (sink E S batch r)
  show ?thesis unfolding sink(1) by (rule sink_spec [OF sink(2)])
next
  case (backfill E kafka a b offsets r msgs)
  show ?thesis unfolding backfill(1) by (rule backfill_spec [OF backfill(2,3)])
qed (auto simp: run_backfill_def)

lemma run_spec:
  assumes "table_run D commits clock run_plan cfg tz d evs d'"
  shows "spec_run (abs_table d) evs (abs_table d')"
  using assms by (induction rule: table_run.induct) (auto simp: spec_run_simps dest: step_spec)

end

subsection \<open>What the specification promises\<close>

text \<open>Versions are only added, each no earlier than the clock.\<close>

lemma spec_extends:
  assumes "table_spec ev (now, h) (now', h')"
  shows "now \<le> now' \<and> (\<exists>es. h' = h @ es \<and> (\<forall>(t, b) \<in> set es. now \<le> t))"
  using assms by (cases ev) (auto split: if_splits)

lemma spec_run_extends:
  assumes "spec_run (now, h) evs (now', h')"
  shows "now \<le> now' \<and> (\<exists>es. h' = h @ es \<and> (\<forall>(t, b) \<in> set es. now \<le> t))"
  using assms
proof (induction evs arbitrary: now h)
  case Nil
  then show ?case by (simp add: spec_run_simps)
next
  case (Cons ev evs)
  obtain m g where m: "table_spec ev (now, h) (m, g)" "spec_run (m, g) evs (now', h')"
    using Cons.prems by (auto simp: spec_run_simps)
  obtain es fs where es: "g = h @ es" "\<forall>(t, b) \<in> set es. now \<le> t" and fs: "h' = g @ fs" "\<forall>(t, b) \<in> set fs. m \<le> t"
    and le: "now \<le> m" "m \<le> now'"
    using spec_extends [OF m(1)] Cons.IH [OF m(2)] by blast
  have "\<forall>(t, b) \<in> set (es @ fs). now \<le> t" using es(2) fs(2) le by fastforce
  then show ?case using es(1) fs(1) le by (intro conjI exI [of _ "es @ fs"]) simp_all
qed

text \<open>A row stays until a row of the same user and day takes its place.\<close>

definition kept :: "row \<Rightarrow> row \<Rightarrow> bool" where
  "kept r r' \<longleftrightarrow> r' = r \<or> same_key merge_keys r r'"

lemma kept_trans: "kept r s \<Longrightarrow> kept s t \<Longrightarrow> kept r t"
  unfolding kept_def using same_key_trans by blast

lemma kept_keys: "kept r r' \<Longrightarrow> get r' ''user_id'' = get r ''user_id'' \<and> get r' ''event_date'' = get r ''event_date''"
  by (auto simp: kept_def same_key_iff merge_keys_def)

definition retains :: "row multiset \<Rightarrow> row multiset \<Rightarrow> bool" where
  "retains old new \<longleftrightarrow> size old \<le> size new \<and> (\<forall>r \<in># old. \<exists>r' \<in># new. kept r r')"

lemma retains_trans: "retains a b \<Longrightarrow> retains b c \<Longrightarrow> retains a c"
  unfolding retains_def using kept_trans by (meson order_trans)

lemma retains_refl: "retains a a"
  by (auto simp: retains_def kept_def)

lemma upserts_retains:
  assumes "upserts merge_keys old src new"
  shows "retains old new"
proof -
  obtain f where f: "\<forall>t \<in># old. f t \<in># src \<and> same_key merge_keys t (f t) \<or> f t = t \<and> (\<forall>s \<in># src. \<not> same_key merge_keys t s)"
    "new = image_mset f old + filter_mset (\<lambda>s. \<forall>t \<in># old. \<not> same_key merge_keys t s) src"
    using assms by (auto simp: upserts_def)
  have "kept r (f r) \<and> f r \<in># new" if "r \<in># old" for r using f that by (auto simp: kept_def)
  then show ?thesis unfolding retains_def by (auto simp: f(2))
qed

lemma current_snoc [simp]: "current (h @ [(t, b)]) = b"
  by (simp add: current_def)

lemma spec_retains: "table_spec ev (now, h) (now', h') \<Longrightarrow> retains (current h) (current h')"
  by (cases ev) (auto simp: retains_refl upserts_retains split: if_splits, auto simp: retains_def kept_def)

lemma spec_run_retains: "spec_run (now, h) evs (now', h') \<Longrightarrow> retains (current h) (current h')"
proof (induction evs arbitrary: now h)
  case (Cons ev evs)
  then obtain m g where "table_spec ev (now, h) (m, g)" "spec_run (m, g) evs (now', h')"
    by (auto simp: spec_run_simps)
  then show ?case using Cons.IH spec_retains retains_trans by blast
qed (simp add: spec_run_simps retains_refl)

text \<open>The partition columns of a row are those its user and time demand.\<close>

definition partitioned :: "int \<Rightarrow> row \<Rightarrow> bool" where
  "partitioned tz r \<longleftrightarrow>
     get r ''user_prefix'' = (case get r ''user_id'' of CStr u \<Rightarrow> CStr (take 3 u) | _ \<Rightarrow> CNull)
     \<and> get r ''event_date'' = (case get r ''computed_at'' of
          CNum (Fin x) \<Rightarrow> CDate (((if 0 \<le> x then \<lfloor>x\<rfloor> else \<lceil>x\<rceil>) + tz) div 86400) | _ \<Rightarrow> CNull)"

fun brings :: "table_event \<Rightarrow> row multiset" where
  "brings (Batch src) = src"
| "brings (Load new ok) = new"
| "brings Pause = {#}"

definition all_partitioned :: "int \<Rightarrow> versions \<Rightarrow> bool" where
  "all_partitioned tz h \<longleftrightarrow> (\<forall>(t, b) \<in> set h. \<forall>r \<in># b. partitioned tz r)"

lemma partitioned_columns:
  assumes "r \<in> set (sem E S (add_partition_columns p) df)"
  shows "partitioned (se_tz E) r"
proof -
  obtain q where q: "get r ''user_id'' = get q ''user_id''" "get r ''computed_at'' = get q ''computed_at''"
    "get r ''user_prefix'' = eval E q (Substring (Col ''user_id'') 1 3)"
    "get r ''event_date'' = eval E q (ToDate (FromUnixtime (Col ''computed_at'')))"
    using assms by (auto simp: add_partition_columns_def)
  have "get r ''event_date'' = (case get q ''computed_at'' of
      CNum (Fin x) \<Rightarrow> CDate (((if 0 \<le> x then \<lfloor>x\<rfloor> else \<lceil>x\<rceil>) + se_tz E) div 86400) | _ \<Rightarrow> CNull)"
    unfolding q(4) by (cases "get q ''computed_at''") (auto split: pyfloat.split)
  then show ?thesis unfolding partitioned_def q(1-3) by (simp split: cell.split)
qed

lemma current_partitioned: "all_partitioned tz h \<Longrightarrow> r \<in># current h \<Longrightarrow> partitioned tz r"
  by (cases h rule: rev_cases) (auto simp: all_partitioned_def)

lemma upserts_brings: "upserts ks old src new \<Longrightarrow> r \<in># new \<Longrightarrow> r \<in># old \<or> r \<in># src"
  by (auto simp: upserts_def) metis

lemma partitioned_snoc:
  assumes "all_partitioned tz h" and "\<And>r. r \<in># b \<Longrightarrow> r \<in># current h \<or> r \<in># src" and "\<forall>r \<in># src. partitioned tz r"
  shows "all_partitioned tz (h @ [(t, b)])"
proof -
  have "partitioned tz r" if "r \<in># b" for r using assms(2) [OF that] current_partitioned [OF assms(1)] assms(3) by blast
  then show ?thesis using assms(1) by (auto simp: all_partitioned_def)
qed

lemma spec_partitioned:
  assumes "table_spec ev (now, h) (now', h')" and "all_partitioned tz h" and "\<forall>r \<in># brings ev. partitioned tz r"
  shows "all_partitioned tz h'"
proof -
  consider "h' = h" | t b where "h' = h @ [(t, b)]" "\<And>r. r \<in># b \<Longrightarrow> r \<in># current h \<or> r \<in># brings ev"
    using assms(1) upserts_brings by (cases ev) (force split: if_splits)+
  then show ?thesis by cases (use assms(2,3) in \<open>auto intro: partitioned_snoc\<close>)
qed

subsection \<open>What runs promise\<close>

text \<open>Reading the specification's versions off a history.\<close>

lemma last_abs: "cs \<noteq> [] \<Longrightarrow> snd (last (abs_versions cs)) = mset (snd (last cs))"
  by (simp add: abs_versions_def last_map case_prod_beta)

fun spec_snapshot :: "snapshot \<Rightarrow> versions \<Rightarrow> row multiset option" where
  "spec_snapshot Latest h = (if h = [] then None else Some (snd (last h)))"
| "spec_snapshot (VersionAsOf n) h = (if n < length h then Some (snd (h ! n)) else None)"
| "spec_snapshot (TimestampAsOf t) h =
     (let es = filter (\<lambda>(c, b). c \<le> t) h in if es = [] then None else Some (snd (last es)))"

lemma snapshot_abs: "map_option mset (snapshot_of sn cs) = spec_snapshot sn (abs_versions cs)"
proof (cases sn)
  case Latest
  then show ?thesis by (simp add: last_abs)
next
  case (VersionAsOf n)
  then show ?thesis by (simp add: abs_versions_def case_prod_beta)
next
  case (TimestampAsOf t)
  have "filter (\<lambda>(c, b). c \<le> t) (abs_versions cs) = abs_versions (filter (\<lambda>(c, b). c \<le> t) cs)"
    by (induction cs) (auto simp: abs_versions_def)
  then show ?thesis using TimestampAsOf by (simp add: Let_def last_abs)
qed

text \<open>A snapshot of a version, or of an instant before the clock, is settled.\<close>

fun settled :: "int \<Rightarrow> versions \<Rightarrow> snapshot \<Rightarrow> bool" where
  "settled now h Latest \<longleftrightarrow> False"
| "settled now h (VersionAsOf n) \<longleftrightarrow> n < length h"
| "settled now h (TimestampAsOf t) \<longleftrightarrow> t < now"

lemma settled_snapshot:
  assumes "spec_run (now, h) evs (now', h')" and "settled now h sn"
  shows "spec_snapshot sn h' = spec_snapshot sn h"
proof -
  obtain es where es: "h' = h @ es" "\<forall>(t, b) \<in> set es. now \<le> t"
    using spec_run_extends [OF assms(1)] by blast
  have "filter (\<lambda>(c, b). c \<le> t) es = []" if "t < now" for t
    using es(2) that by (auto simp: filter_empty_conv)
  then show ?thesis using assms(2) es(1) by (cases sn) (auto simp: nth_append)
qed

context table_jobs
begin

lemma run_snapshot:
  assumes "table_run D commits clock run_plan cfg tz d evs d'"
    and "settled (clock d) (abs_versions (commits d (table_path cfg))) sn"
  shows "map_option mset (snapshot_of sn (commits d' (table_path cfg))) = map_option mset (snapshot_of sn (commits d (table_path cfg)))"
  unfolding snapshot_abs by (rule settled_snapshot [OF run_spec [OF assms(1)] assms(2)])

lemma run_retains:
  assumes "table_run D commits clock run_plan cfg tz d evs d'"
  shows "retains (mset (contents (commits d (table_path cfg)))) (mset (contents (commits d' (table_path cfg))))"
  using spec_run_retains [OF run_spec [OF assms]] by simp

lemma step_brings:
  assumes "table_step D commits clock run_plan cfg tz d ev d'"
  shows "\<forall>r \<in># brings ev. partitioned tz r"
  using assms partitioned_columns
  by cases (auto simp: batch_rows_def backfilled_rows_def simp del: sem.simps)

lemma run_partitioned:
  assumes "table_run D commits clock run_plan cfg tz d evs d'"
    and "all_partitioned tz (abs_versions (commits d (table_path cfg)))"
  shows "all_partitioned tz (abs_versions (commits d' (table_path cfg)))"
  using assms by (induction rule: table_run.induct) (meson spec_partitioned step_spec step_brings)+

end

subsection \<open>A run of the reference lake\<close>

lemma ref_table_jobs: "table_jobs ref_delta lk_commits lk_fallback lk_clock sem"
  by (intro table_jobs.intro ref_delta_lake sem_engine table_jobs_axioms.intro)
    (auto simp: ref_delta_def lake_commit_def split: if_splits)

interpretation ref_jobs: table_jobs ref_delta lk_commits lk_fallback lk_clock sem offline_config_default 0
  by (rule ref_table_jobs)

abbreviation sample_table :: string where
  "sample_table \<equiv> table_path offline_config_default"

definition sample_load :: table_event where
  "sample_load = Load (backfilled_rows sample_env 0 10 [purchase_msg]) True"

lemma sample_backfill:
  assumes "lk_down d = 0"
  obtains d' where "table_run ref_delta lk_commits lk_clock sem offline_config_default 0 d [sample_load] d'"
    "lk_commits d' sample_table \<noteq> []"
proof -
  obtain d' where d': "run_backfill ref_delta sem sample_env (\<lambda>x. Inr [purchase_msg]) offline_config_default 0 10 ''earliest'' d = (Inr (), d')"
    "lk_commits d' sample_table \<noteq> []"
    using assms by (simp add: run_backfill_def delta_write_features_def ref_delta_def lake_commit_def del: sem.simps)
  have "table_step ref_delta lk_commits lk_clock sem offline_config_default 0 d
      (Load (backfilled_rows sample_env 0 10 [purchase_msg]) (Inr () = (Inr () :: exn + unit))) d'"
    by (rule table_step.backfill [OF d'(1)]) (simp_all add: sample_env_def)
  then have "table_run ref_delta lk_commits lk_clock sem offline_config_default 0 d [sample_load] d'"
    by (simp add: table_run_simps sample_load_def)
  then show ?thesis using that d'(2) by blast
qed

lemma sample_lake_state: "lk_down sample_lake = 0" "lk_clock sample_lake = 100"
    "lk_commits sample_lake sample_table = [(5, [[(''user_id'', CStr ''usr_00001'')], [(''user_id'', CStr ''usr_00002'')]])]"
  by (simp_all add: sample_lake_def empty_lake_def table_path_def offline_config_default_def)

subsection \<open>Properties\<close>



text \<open>
  C7. Training sets are reproducible: a read as of an instant before the clock returns exactly the cohort's rows of the
  snapshot of that instant, and returns the same rows after any number of micro-batches and backfills.
\<close>

theorem training_reads_reproducible:
  assumes "table_jobs D commits fallback clock run_plan"
    and "table_run D commits clock run_plan cfg tz d evs d'" and "t < clock d"
    and "read_features_for_training D run_plan E cfg t us d = Inr xs"
    and "read_features_for_training D run_plan E' cfg t us d' = Inr ys"
  shows "mset ys = mset xs
    \<and> (\<exists>snap. snapshot_of (TimestampAsOf t) (commits d (table_path cfg)) = Some snap
         \<and> mset xs = (if us = None \<or> us = Some [] then image_mset training_row (mset snap)
                      else image_mset training_row {#x \<in># mset snap. get x ''user_id'' \<in> CStr ` set (the us)#}))"
proof -
  have lake: "delta_lake D commits fallback clock" and engine: "spark_engine run_plan"
    using assms(1) by (auto simp: table_jobs_def)
  obtain snap where snap: "snapshot_of (TimestampAsOf t) (commits d (table_path cfg)) = Some snap" "mset xs = training_rows us snap"
    using training_read [OF lake engine assms(4)] by blast
  obtain later where later: "snapshot_of (TimestampAsOf t) (commits d' (table_path cfg)) = Some later" "mset ys = training_rows us later"
    using training_read [OF lake engine assms(5)] by blast
  have "mset later = mset snap"
    using table_jobs.run_snapshot [OF assms(1,2), of "TimestampAsOf t"] assms(3) snap(1) later(1) by (simp del: snapshot_of.simps)
  then have "mset ys = mset xs" by (simp add: snap(2) later(2) training_rows_def del: mset_filter)
  then show ?thesis using snap training_rows_cases by metis
qed

lemma training_reads_reproducible_witness:
  "\<exists>d' ys. table_run ref_delta lk_commits lk_clock sem offline_config_default 0 sample_lake [sample_load] d'
     \<and> read_features_for_training ref_delta sem sample_env offline_config_default 50 (Some [''usr_00002'']) d' = Inr ys
     \<and> length ys = 1"
proof -
  let ?read = "read_features_for_training ref_delta sem sample_env offline_config_default 50 (Some [''usr_00002''])"
  obtain d' where run: "table_run ref_delta lk_commits lk_clock sem offline_config_default 0 sample_lake [sample_load] d'"
    using sample_backfill sample_lake_state(1) by blast
  have some: "snapshot_of (TimestampAsOf 50) (lk_commits sample_lake sample_table)
      = Some [[(''user_id'', CStr ''usr_00001'')], [(''user_id'', CStr ''usr_00002'')]]"
    by (simp add: sample_lake_state)
  moreover have "map_option mset (snapshot_of (TimestampAsOf 50) (lk_commits d' sample_table))
      = map_option mset (snapshot_of (TimestampAsOf 50) (lk_commits sample_lake sample_table))"
    by (rule ref_jobs.run_snapshot [OF run]) (simp add: sample_lake_state)
  ultimately obtain xs ys where reads: "?read sample_lake = Inr xs" "?read d' = Inr ys"
    by (auto simp: read_features_for_training_def read_features_at_def ref_delta_def simp del: sem.simps snapshot_of.simps)
  have "mset ys = mset xs" "\<exists>snap. snapshot_of (TimestampAsOf 50) (lk_commits sample_lake sample_table) = Some snap
      \<and> mset xs = image_mset training_row {#x \<in># mset snap. get x ''user_id'' \<in> CStr ` set [''usr_00002'']#}"
    using training_reads_reproducible [OF ref_table_jobs run _ reads] by (simp_all add: sample_lake_state(2))
  then have "size (mset ys) = 1" by (auto simp: some simp del: snapshot_of.simps)
  then show ?thesis using run reads(2) by auto
qed

text \<open>
  C8. No user's day is ever lost from the feature table: whatever batches and backfills run, for every row that was in it
  the table has a row of the same user and event date, and the number of rows never decreases.
\<close>

theorem table_days_kept:
  assumes "table_jobs D commits fallback clock run_plan"
    and "table_run D commits clock run_plan cfg tz d evs d'"
  shows "length (contents (commits d (table_path cfg))) \<le> length (contents (commits d' (table_path cfg)))
    \<and> (\<forall>r \<in> set (contents (commits d (table_path cfg))). \<exists>r' \<in> set (contents (commits d' (table_path cfg))).
         get r' ''user_id'' = get r ''user_id'' \<and> get r' ''event_date'' = get r ''event_date'')"
  using table_jobs.run_retains [OF assms] kept_keys unfolding retains_def by (metis set_mset_mset size_mset)

lemma table_days_kept_witness:
  "\<exists>d'. table_run ref_delta lk_commits lk_clock sem offline_config_default 0 sample_lake [sample_load] d'
     \<and> (\<exists>r \<in> set (contents (lk_commits d' sample_table)). get r ''user_id'' = CStr ''usr_00001'')"
proof -
  obtain d' where run: "table_run ref_delta lk_commits lk_clock sem offline_config_default 0 sample_lake [sample_load] d'"
    using sample_backfill sample_lake_state(1) by blast
  have "[(''user_id'', CStr ''usr_00001'')] \<in> set (contents (lk_commits sample_lake sample_table))"
    by (simp add: sample_lake_state(3) contents_def)
  from bspec [OF conjunct2 [OF table_days_kept [OF ref_table_jobs run]] this] run show ?thesis by auto
qed

text \<open>
  C22. The partition columns never disagree with the data: starting from a table where they agree, as an empty one, after
  any run of batches and backfills every row of every version has the date of its \<open>computed_at\<close> in the session's time
  zone as \<open>event_date\<close> and the first three characters of its user as \<open>user_prefix\<close>, so a filter on them finds
  all the rows it should.
\<close>

theorem table_stays_partitioned:
  assumes "table_jobs D commits fallback clock run_plan"
    and "table_run D commits clock run_plan cfg tz d evs d'"
    and "list_all (\<lambda>(t, rows). list_all (partitioned tz) rows) (commits d (table_path cfg))"
  shows "list_all (\<lambda>(t, rows). list_all (partitioned tz) rows) (commits d' (table_path cfg))"
proof -
  have abs: "all_partitioned tz (abs_versions cs) \<longleftrightarrow> list_all (\<lambda>(t, rows). list_all (partitioned tz) rows) cs" for cs
    by (auto simp: all_partitioned_def abs_versions_def list_all_iff)
  show ?thesis using table_jobs.run_partitioned [OF assms(1,2)] assms(3) unfolding abs by blast
qed

lemma table_stays_partitioned_witness:
  "\<exists>d'. table_run ref_delta lk_commits lk_clock sem offline_config_default 0 empty_lake [sample_load] d'
     \<and> lk_commits d' sample_table \<noteq> [] \<and> list_all (partitioned 0) (contents (lk_commits d' sample_table))"
proof -
  obtain d' where run: "table_run ref_delta lk_commits lk_clock sem offline_config_default 0 empty_lake [sample_load] d'"
    "lk_commits d' sample_table \<noteq> []"
    using sample_backfill [of empty_lake] by (auto simp: empty_lake_def)
  have "list_all (\<lambda>(t, rows). list_all (partitioned 0) rows) (lk_commits d' sample_table)"
    by (rule table_stays_partitioned [OF ref_table_jobs run(1)]) (simp add: empty_lake_def)
  moreover have "last (lk_commits d' sample_table) \<in> set (lk_commits d' sample_table)" using run(2) by simp
  ultimately have "list_all (partitioned 0) (contents (lk_commits d' sample_table))"
    using run(2) by (cases "last (lk_commits d' sample_table)") (fastforce simp: contents_def list_all_iff)
  then show ?thesis using run by blast
qed

end
