(* ===== verification/Registry_Runs.thy ===== *)
theory Registry_Runs
  imports Airflow Api
begin

text \<open>
  The life of the registry across everything that uses it: the start-up of the API, its routes, the registry's own
  routes and services, and the scheduled jobs that record metrics are the rules of one step relation, each in a session
  of its own; the state is the database and the module's seeds. The tables only grow and keep their integrity, and a
  feature that is registered is served from then on.
\<close>

named_theorems session_rules "statements that keep a session's invariant"

subsection \<open>Tables only grow\<close>

definition grows :: "tables \<Rightarrow> tables \<Rightarrow> bool" where
  "grows t t' \<longleftrightarrow> (\<exists>fs ls ms xs. t_features t' = t_features t @ fs \<and> t_lineage t' = t_lineage t @ ls
     \<and> t_metrics t' = t_metrics t @ ms \<and> t_rca t' = t_rca t @ xs)"

lemma grows_refl [simp]: "grows t t"
  by (simp add: grows_def)

lemma grows_trans: "grows t t' \<Longrightarrow> grows t' t'' \<Longrightarrow> grows t t''"
  by (auto simp: grows_def)

lemma grows_names: "grows t t' \<Longrightarrow> feature_names t \<subseteq> feature_names t'"
  by (auto simp: grows_def feature_names_def)

lemma grows_insert:
  assumes "grows c t"
  shows "grows c (t\<lparr>t_features := t_features t @ fs\<rparr>)" "grows c (t\<lparr>t_lineage := t_lineage t @ ls\<rparr>)"
    "grows c (t\<lparr>t_metrics := t_metrics t @ ms\<rparr>)" "grows c (t\<lparr>t_rca := t_rca t @ xs\<rparr>)"
  using assms by (auto simp: grows_def)

subsection \<open>One session\<close>

text \<open>Inside a session that started from the tables \<open>c\<close>.\<close>

definition in_session :: "('d \<Rightarrow> tables) \<Rightarrow> ('d \<Rightarrow> tables) \<Rightarrow> tables \<Rightarrow> 'd \<Rightarrow> bool" where
  "in_session seen committed c d \<longleftrightarrow>
     integrity (seen d) \<and> integrity (committed d) \<and> grows c (seen d) \<and> grows c (committed d)"

context registry_db
begin

abbreviation safe :: "tables \<Rightarrow> 'd \<Rightarrow> bool" where
  "safe \<equiv> in_session seen committed"

lemma session_feature [session_rules]: "i_feature DB r d = (x, d') \<Longrightarrow> safe c d \<Longrightarrow> safe c d'"
  using feature_integrity [of r d x d'] feature_raised [of r d _ d'] feature_ok [of r d d'] grows_insert
  by (cases x) (fastforce simp: in_session_def)+

lemma session_lineage [session_rules]: "i_lineage DB l d = (x, d') \<Longrightarrow> safe c d \<Longrightarrow> safe c d'"
  using lineage_integrity [of l d x d'] lineage_raised [of l d _ d'] lineage_ok [of l d d'] grows_insert
  by (cases x) (fastforce simp: in_session_def)+

lemma session_metric [session_rules]: "i_metric DB m d = (x, d') \<Longrightarrow> safe c d \<Longrightarrow> safe c d'"
  using metric_integrity [of m d x d'] metric_raised [of m d _ d'] metric_ok [of m d d'] grows_insert
  by (cases x) (fastforce simp: in_session_def)+

lemma session_rca [session_rules]:
  assumes "i_rca DB y d = (x, d')" and "safe c d"
  shows "safe c d'"
proof -
  have same: "integrity (t\<lparr>t_rca := xs\<rparr>) \<longleftrightarrow> integrity t" for t xs by (simp add: integrity_def feature_names_def)
  show ?thesis
    using assms rca_raised [of y d _ d'] rca_ok [of y d d'] grows_insert(4) same
    by (cases x) (fastforce simp: in_session_def)+
qed

lemma session_commit [session_rules]: "d_commit DB d = (x, d') \<Longrightarrow> safe c d \<Longrightarrow> safe c d'"
  using commit_ok [of d d'] commit_raised [of d _ d'] by (cases x) (auto simp: in_session_def)

text \<open>The operations are made of these statements.\<close>

lemma session_add_lineage [session_rules]: "add_lineage DB f ls d = (x, d') \<Longrightarrow> safe c d \<Longrightarrow> safe c d'"
proof (induction ls arbitrary: d)
  case (Cons p ls)
  obtain u t where p: "p = (u, t)" by (cases p)
  obtain q e where q: "i_lineage DB \<lparr>ln_feature_name = f, ln_upstream_source = u, ln_transform_step = t\<rparr> d = (q, e)" by fastforce
  then have "safe c e" using Cons.prems(2) session_lineage by blast
  then show ?case using Cons q by (cases q) (auto simp: p)
qed simp

lemma session_seed_one [session_rules]: "seed_one DB now s d = (x, s', d') \<Longrightarrow> safe c d \<Longrightarrow> safe c d'"
  unfolding seed_one_def Let_def
  by (auto split: sum.splits option.splits prod.splits dest: session_rules)

lemma session_seed_loop [session_rules]: "seed_loop DB now seeds d = (x, seeds', d') \<Longrightarrow> safe c d \<Longrightarrow> safe c d'"
proof (induction seeds arbitrary: d seeds')
  case (Cons s seeds)
  obtain q s' e where q: "seed_one DB now s d = (q, s', e)" by (cases "seed_one DB now s d")
  then have "safe c e" using Cons.prems(2) session_seed_one by blast
  then show ?case using Cons q by (cases q) (auto split: prod.splits)
qed simp

lemma session_seed_features [session_rules]:
  "seed_features DB now seeds d = (x, seeds', d') \<Longrightarrow> safe c d \<Longrightarrow> safe c d'"
  unfolding seed_features_def by (auto split: sum.splits prod.splits dest: session_rules)

lemma session_record_metric [session_rules]: "record_metric DB now m d = (x, d') \<Longrightarrow> safe c d \<Longrightarrow> safe c d'"
  unfolding record_metric_def by (auto split: sum.splits prod.splits dest: session_rules)

lemma session_record_rca [session_rules]: "record_rca DB now y d = (x, d') \<Longrightarrow> safe c d \<Longrightarrow> safe c d'"
  unfolding record_rca_def Let_def by (auto split: sum.splits prod.splits dest: session_rules)

end

subsection \<open>The program's operations as steps\<close>

text \<open>A step takes the database and the seeds the running process holds; a restarted process has the seeds of the module.\<close>

inductive registry_step ::
  "'d database \<Rightarrow> 'd sessions \<Rightarrow> ('d \<Rightarrow> (exn + unit) \<times> 'd) \<Rightarrow> ('d \<Rightarrow> (exn + unit) \<times> 'd) \<Rightarrow> 's redis
   \<Rightarrow> 'd \<times> feature_seed list \<Rightarrow> 'd \<times> feature_seed list \<Rightarrow> bool"
  for DB :: "'d database" and SN connect create_all and R :: "'s redis" where
  startup: "lifespan create_all SN DB now seeds d = (r, seeds', d')
    \<Longrightarrow> registry_step DB SN connect create_all R (d, seeds) (d', seeds')"
| restart: "registry_step DB SN connect create_all R (d, seeds) (d, FEATURE_SEEDS)"
| list_metadata: "get_db SN (\<lambda>db. (list_feature_metadata DB db, db)) d = (listed, d')
    \<Longrightarrow> registry_step DB SN connect create_all R (d, seeds) (d', seeds)"
| metadata: "get_db SN (\<lambda>db. (get_feature_metadata DB n db, db)) d = (response, d')
    \<Longrightarrow> registry_step DB SN connect create_all R (d, seeds) (d', seeds)"
| list_route: "get_async_session SN (\<lambda>db. (list_features DB db, db)) d = (listed, d')
    \<Longrightarrow> registry_step DB SN connect create_all R (d, seeds) (d', seeds)"
| detail_route: "get_async_session SN (\<lambda>db. (get_feature_detail DB n db, db)) d = (response, d')
    \<Longrightarrow> registry_step DB SN connect create_all R (d, seeds) (d', seeds)"
| health_check: "get_db SN (\<lambda>db. (health R select_1 time s db, db)) d = (report, d')
    \<Longrightarrow> registry_step DB SN connect create_all R (d, seeds) (d', seeds)"
| metric: "get_async_session SN (record_metric DB utcnow m) d = (r, d')
    \<Longrightarrow> registry_step DB SN connect create_all R (d, seeds) (d', seeds)"
| rca: "get_async_session SN (record_rca DB time x) d = (recorded, d')
    \<Longrightarrow> registry_step DB SN connect create_all R (d, seeds) (d', seeds)"
| consistency: "sample_and_compare R DB connect vcfg utcnow noise xs s d = (r, xs', d')
    \<Longrightarrow> registry_step DB SN connect create_all R (d, seeds) (d', seeds)"
| drift: "run_drift_detection R NP DB connect dcfg utcnow xs s d = (r, xs', d')
    \<Longrightarrow> registry_step DB SN connect create_all R (d, seeds) (d', seeds)"

text \<open>A deployment: sessions, the jobs' own connections, and a \<open>create_all\<close> that leaves the rows of existing tables alone.\<close>

locale registry_deployment = session_db DB seen committed SN + postgres DB seen committed connect
  for DB :: "'d database" and seen committed SN connect +
  fixes create_all :: "'d \<Rightarrow> (exn + unit) \<times> 'd"
  assumes created: "create_all d = (Inr (), d') \<Longrightarrow> committed d' = committed d \<and> seen d' = seen d"
    and create_raised: "create_all d = (Inl e, d') \<Longrightarrow> committed d' = committed d"
begin

abbreviation durable :: "tables \<Rightarrow> 'd \<Rightarrow> bool" where
  "durable c d \<equiv> integrity (committed d) \<and> grows c (committed d)"

lemma open_safe: "durable c d \<Longrightarrow> safe c (sn_open SN d)"
  using opens by (simp add: in_session_def)

lemma close_durable: "safe c d \<Longrightarrow> durable c (sn_close SN d)"
  using closes by (simp add: in_session_def)

lemma session_durable:
  assumes "AsyncSessionLocal SN body d = (r, d')" and "durable c d"
    and "\<And>e x e'. body e = (x, e') \<Longrightarrow> safe c e \<Longrightarrow> safe c e'"
  shows "durable c d'"
proof -
  obtain x e where "body (sn_open SN d) = (x, e)" "d' = sn_close SN e"
    using assms(1) by (auto simp: AsyncSessionLocal_def split: prod.splits)
  then show ?thesis using assms(3) open_safe [OF assms(2)] close_durable by blast
qed

lemma read_committed:
  assumes "AsyncSessionLocal SN (\<lambda>db. (f db, db)) d = (r, d')"
  shows "committed d' = committed d"
  using assms opens closes by (auto simp: AsyncSessionLocal_def)

lemma create_tables_durable:
  assumes "create_tables SN DB create_all d = (r, d')"
  shows "committed d' = committed d"
proof -
  obtain q e where q: "create_all (sn_open SN d) = (q, e)" by fastforce
  show ?thesis
  proof (cases q)
    case (Inl x)
    then show ?thesis using assms q create_raised [of "sn_open SN d" x e] opens closes by (auto simp: create_tables_def)
  next
    case (Inr u)
    then have e: "committed e = committed d" "seen e = committed d" using q created [of "sn_open SN d" e] opens by simp_all
    obtain p f where p: "d_commit DB e = (p, f)" by fastforce
    then have "committed f = committed d" using e commit_ok [of e f] commit_raised [of e _ f] by (cases p) auto
    then show ?thesis using assms q Inr p closes by (auto simp: create_tables_def)
  qed
qed

lemma lifespan_durable:
  assumes "lifespan create_all SN DB now seeds d = (r, seeds', d')" and "durable c d"
  shows "durable c d'"
proof -
  obtain q e where q: "create_tables SN DB create_all d = (q, e)" by fastforce
  then have e: "durable c e" using create_tables_durable assms(2) by simp
  show ?thesis
  proof (cases q)
    case (Inl x)
    then show ?thesis using assms(1) q e by (simp add: lifespan_def)
  next
    case (Inr u)
    then obtain p where "AsyncSessionLocal SN (\<lambda>db. case seed_features DB now seeds db of (r, seeds', db') \<Rightarrow> ((r, seeds'), db')) e
        = (p, d')"
      using assms(1) q by (auto simp: lifespan_def split: prod.splits)
    then show ?thesis by (rule session_durable [OF _ e]) (auto split: prod.splits dest: session_seed_features)
  qed
qed

lemma write_metric_durable:
  assumes "durable c d"
  shows "durable c (write_metric DB connect now f ty x d)"
proof -
  obtain q e where q: "connect d = (q, e)" by fastforce
  then have "safe c e" using connects [OF q] assms by (simp add: in_session_def)
  then have "safe c (write_metric DB connect now f ty x d)"
    using q unfolding write_metric_def by (auto split: sum.splits prod.splits dest: session_rules)
      (metis prod.collapse session_commit session_metric)+
  then show ?thesis by (simp add: in_session_def)
qed

lemma write_results_durable: "durable c d \<Longrightarrow> durable c (write_results DB connect now rs d)"
proof (induction rs arbitrary: d)
  case (Cons r rs)
  show ?case unfolding write_results.simps drift_write_metric_eq by (intro Cons.IH write_metric_durable Cons.prems)
qed simp

lemma consistency_durable:
  assumes "sample_and_compare R DB connect cfg now noise xs s d = (r, xs', d')" and "durable c d"
  shows "durable c d'"
proof -
  have "d' = d \<or> (\<exists>x. d' = write_metric DB connect now ''all_features'' ''consistency_rate'' x d)"
    using assms(1) by (auto simp: sample_and_compare_def split: sum.splits if_splits)
  then show ?thesis using assms(2) write_metric_durable by blast
qed

lemma drift_durable:
  assumes "run_drift_detection R NP DB connect cfg now xs s d = (r, xs', d')" and "durable c d"
  shows "durable c d'"
proof -
  have "d' = d \<or> (\<exists>rs. d' = write_results DB connect now rs d)"
    using assms(1) by (auto simp: run_drift_detection_def Let_def split: sum.splits if_splits)
  then show ?thesis using assms(2) write_results_durable by blast
qed

lemma step_durable:
  assumes "registry_step DB SN connect create_all R (d, seeds) (d', seeds')" and "durable c d"
  shows "durable c d'"
  using assms(1)
proof cases
  case (startup now r)
  then show ?thesis using lifespan_durable assms(2) by blast
next
  case (metric utcnow m r)
  from metric(2) show ?thesis
    unfolding get_async_session_def by (rule session_durable [OF _ assms(2)]) (rule session_record_metric)
next
  case (rca time x recorded)
  from rca(2) show ?thesis
    unfolding get_async_session_def by (rule session_durable [OF _ assms(2)]) (rule session_record_rca)
next
  case consistency
  show ?thesis by (rule consistency_durable [OF consistency(2) assms(2)])
next
  case drift
  show ?thesis by (rule drift_durable [OF drift(2) assms(2)])
qed (use assms(2) in \<open>auto simp: get_db_def get_async_session_def dest: read_committed\<close>)

lemma run_durable:
  assumes "rtranclp (registry_step DB SN connect create_all R) (d, seeds) (d', seeds')" and "durable c d"
  shows "durable c d'"
  using assms by (induction "(d', seeds')" arbitrary: d' seeds' rule: rtranclp_induct) (auto dest: step_durable)

end

subsection \<open>What a request reads\<close>

lemma short_filter_name: "distinct (map df_feature_name fs) \<Longrightarrow> length (filter (\<lambda>x. df_feature_name x = n) fs) \<le> 1"
  by (induction fs) (auto simp: filter_empty_conv image_iff)

lemma unique_row:
  assumes "integrity t" and "f \<in> set (t_features t)"
  shows "filter (\<lambda>x. df_feature_name x = df_feature_name f) (t_features t) = [f]"
proof -
  let ?fs = "filter (\<lambda>x. df_feature_name x = df_feature_name f) (t_features t)"
  have "length ?fs \<le> 1" using assms(1) unfolding integrity_def by (intro short_filter_name) (rule conjunct1)
  moreover have "f \<in> set ?fs" using assms(2) by simp
  ultimately show ?thesis by (cases ?fs) auto
qed

context registry_deployment
begin

abbreviation request :: "string \<Rightarrow> 'd \<Rightarrow> (exn + Registry.feature_response) \<times> 'd" where
  "request n d \<equiv> get_db SN (\<lambda>db. (get_feature_metadata DB n db, db)) d"

lemma request_eq: "request n d = (get_feature_metadata DB n (sn_open SN d), sn_close SN (sn_open SN d))"
  by (simp add: get_db_def AsyncSessionLocal_def)

text \<open>A request for a registered feature that the database answers is answered with its row and all of its lineage.\<close>

lemma request_registered:
  assumes "integrity (committed d)" and "f \<in> set (t_features (committed d))"
    and "get_feature DB (sn_open SN d) (df_feature_name f) = Inr x"
  obtains ls where "request (df_feature_name f) d = (Inr (response_of (f, ls)), sn_close SN (sn_open SN d))"
    "mset ls = mset (filter (\<lambda>l. ln_feature_name l = df_feature_name f) (t_lineage (committed d)))"
proof -
  have seen: "seen (sn_open SN d) = committed d" using opens by simp
  have row: "filter (\<lambda>x. df_feature_name x = df_feature_name f) (t_features (committed d)) = [f]"
    by (rule unique_row [OF assms(1,2)])
  obtain g ls where x: "x = Some (g, ls)"
    using get_feature_ok [OF assms(3)] assms(2) by (cases x) (auto simp: seen feature_names_def)
  then have "g = f" "mset ls = mset (filter (\<lambda>l. ln_feature_name l = df_feature_name f) (t_lineage (committed d)))"
    using get_feature_ok [OF assms(3)] row by (simp_all add: seen del: mset_filter)
  moreover have "get_feature_metadata DB (df_feature_name f) (sn_open SN d) = Inr (response_of (g, ls))"
    using assms(3) x by (simp add: get_feature_metadata_def)
  ultimately show ?thesis using that request_eq by metis
qed

lemma request_answered:
  assumes "request n d = (Inr resp, d1)"
  obtains f ls where "resp = response_of (f, ls)" "f \<in> set (t_features (committed d))" "df_feature_name f = n"
    "mset ls = mset (filter (\<lambda>l. ln_feature_name l = n) (t_lineage (committed d)))"
proof -
  have "get_feature_metadata DB n (sn_open SN d) = Inr resp" using assms by (simp add: request_eq)
  then obtain x where x: "get_feature DB (sn_open SN d) n = Inr (Some x)" "resp = response_of x"
    by (auto simp: get_feature_metadata_def ebind_Inr_iff split: option.splits)
  obtain f ls where "x = (f, ls)" by (cases x)
  then show ?thesis
    using that [of f ls] x get_feature_ok [OF x(1)] opens by (auto simp: filter_eq_Cons_iff simp del: mset_filter)
qed

lemma lifespan_registers:
  assumes "lifespan create_all SN DB now FEATURE_SEEDS d = (Inr (), seeds', d')"
  shows "set (seed_names FEATURE_SEEDS) \<subseteq> feature_names (committed d')"
proof -
  obtain e where "AsyncSessionLocal SN (\<lambda>db. case seed_features DB now FEATURE_SEEDS db of (r, seeds', db') \<Rightarrow> ((r, seeds'), db')) e
      = ((Inr (), seeds'), d')"
    using assms by (auto simp: lifespan_def split: sum.splits prod.splits)
  then obtain f where f: "seed_features DB now FEATURE_SEEDS (sn_open SN e) = (Inr (), seeds', f)" "d' = sn_close SN f"
    by (auto simp: AsyncSessionLocal_def split: prod.splits)
  show ?thesis using seed_features_facts [OF f(1)] closes f(2) by auto
qed

end

subsection \<open>A run of the reference deployment\<close>

lemma ref_registry_deployment:
  "registry_deployment ref_database rt_seen rt_committed ref_sessions ref_connect (\<lambda>d. (Inr (), d))"
  by (intro registry_deployment.intro ref_session_db ref_postgres registry_deployment_axioms.intro) simp_all

interpretation ref_registry: registry_deployment ref_database rt_seen rt_committed ref_sessions ref_connect "\<lambda>d. (Inr (), d)"
  by (rule ref_registry_deployment)

lemma sample_startup:
  obtains d where "lifespan (\<lambda>d. (Inr (), d)) ref_sessions ref_database (Fin 0) FEATURE_SEEDS empty_tables
    = (Inr (), FEATURE_SEEDS, d)"
proof -
  have "\<exists>d. seed_features ref_database (Fin 0) FEATURE_SEEDS empty_tables = (Inr (), FEATURE_SEEDS, d)"
    by (simp add: seed_features_def FEATURE_SEEDS_def seed_one_def Let_def empty_tables_def ref_insert_def
        feature_names_def seed_row_def)
  moreover have "empty_tables\<lparr>rt_seen := rt_committed empty_tables\<rparr> = empty_tables"
    by (simp add: empty_tables_def Let_def)
  ultimately have "\<exists>d. lifespan (\<lambda>d. (Inr (), d)) ref_sessions ref_database (Fin 0) FEATURE_SEEDS empty_tables
      = (Inr (), FEATURE_SEEDS, d)"
    by (auto simp: lifespan_def create_tables_def AsyncSessionLocal_def ref_sessions_def empty_tables_def Let_def)
  then show ?thesis using that by blast
qed

lemma ref_get_feature:
  assumes "integrity (rt_seen d)"
  obtains x where "get_feature ref_database d n = Inr x"
proof -
  let ?rows = "filter (\<lambda>f. df_feature_name f = n) (t_features (rt_seen d))"
  have "length ?rows \<le> 1" using assms unfolding integrity_def by (intro short_filter_name) (rule conjunct1)
  then obtain x where "ebind (emap (with_lineage ref_database d) ?rows) scalar_one_or_none = Inr x"
    by (cases ?rows) (auto simp: with_lineage_def)
  then show ?thesis using that by (simp add: get_feature_def)
qed

subsection \<open>Properties\<close>


lemma empty_integrity: "integrity (rt_committed empty_tables)"
  by (simp add: empty_tables_def Let_def integrity_def feature_names_def)

abbreviation ref_step :: "ref_tables \<times> feature_seed list \<Rightarrow> ref_tables \<times> feature_seed list \<Rightarrow> bool" where
  "ref_step \<equiv> registry_step ref_database ref_sessions ref_connect (\<lambda>d. (Inr (), d)) ref_redis"

lemma sample_run:
  obtains d where "rtranclp ref_step (empty_tables, FEATURE_SEEDS) (d, FEATURE_SEEDS)"
    "''avg_spend_1h'' \<in> feature_names (rt_committed d)"
proof -
  obtain d where d: "lifespan (\<lambda>d. (Inr (), d)) ref_sessions ref_database (Fin 0) FEATURE_SEEDS empty_tables
      = (Inr (), FEATURE_SEEDS, d)"
    by (rule sample_startup)
  have "ref_step (empty_tables, FEATURE_SEEDS) (d, FEATURE_SEEDS)" by (rule registry_step.startup [OF d])
  then have "rtranclp ref_step (empty_tables, FEATURE_SEEDS) (d, FEATURE_SEEDS)" by blast
  moreover have "''avg_spend_1h'' \<in> set (seed_names FEATURE_SEEDS)" by (simp add: FEATURE_SEEDS_def seed_names_def)
  ultimately show ?thesis using that ref_registry.lifespan_registers [OF d] by blast
qed


text \<open>
  C9. A feature that was served once is served for ever: after a request for its metadata was answered, any later request
  that the database answers gives the same row, with all the lineage it had, and never 404.
\<close>

theorem served_feature_stays:
  assumes "registry_deployment DB seen committed SN connect create_all" and "integrity (committed d)"
    and "get_db SN (\<lambda>db. (get_feature_metadata DB n db, db)) d = (Inr resp, d1)"
    and "rtranclp (registry_step DB SN connect create_all R) (d1, seeds) (d2, seeds')"
    and "get_feature DB (sn_open SN d2) n = Inr x"
  shows "\<exists>resp' d3. get_db SN (\<lambda>db. (get_feature_metadata DB n db, db)) d2 = (Inr resp', d3)
    \<and> resp'\<lparr>fs_lineage := fs_lineage resp\<rparr> = resp \<and> mset (fs_lineage resp) \<subseteq># mset (fs_lineage resp')"
proof -
  let ?steps = "\<lambda>l. ln_feature_name l = n"
  obtain f ls where f: "resp = response_of (f, ls)" "f \<in> set (t_features (committed d))" "df_feature_name f = n"
    "mset ls = mset (filter ?steps (t_lineage (committed d)))"
    by (rule registry_deployment.request_answered [OF assms(1,3)])
  have "committed d1 = committed d"
    using registry_deployment.read_committed [OF assms(1)] assms(3) by (simp add: get_db_def)
  then have d2: "integrity (committed d2)" "grows (committed d) (committed d2)"
    using registry_deployment.run_durable [OF assms(1,4), of "committed d"] assms(2) by simp_all
  then have stays: "f \<in> set (t_features (committed d2))" using f(2) by (auto simp: grows_def)
  have "get_feature DB (sn_open SN d2) (df_feature_name f) = Inr x" using assms(5) f(3) by simp
  from registry_deployment.request_registered [OF assms(1) d2(1) stays this, unfolded f(3)]
  obtain ms where ms: "get_db SN (\<lambda>db. (get_feature_metadata DB n db, db)) d2 = (Inr (response_of (f, ms)), sn_close SN (sn_open SN d2))"
    "mset ms = mset (filter ?steps (t_lineage (committed d2)))" .
  have "mset ls \<subseteq># mset ms" using d2(2) unfolding f(4) ms(2) by (auto simp: grows_def)
  then have "mset (fs_lineage (response_of (f, ls))) \<subseteq># mset (fs_lineage (response_of (f, ms)))"
    by (simp add: response_of_def image_mset_subseteq_mono)
  then show ?thesis using ms(1) f(1) by (auto simp: response_of_def)
qed

lemma served_feature_stays_witness:
  "\<exists>d d2 resp d3. get_db ref_sessions (\<lambda>db. (get_feature_metadata ref_database ''avg_spend_1h'' db, db)) d2 = (Inr resp, d3)
    \<and> rtranclp ref_step (d, FEATURE_SEEDS) (d2, FEATURE_SEEDS)"
proof -
  let ?get = "get_db ref_sessions (\<lambda>db. (get_feature_metadata ref_database ''avg_spend_1h'' db, db))"
  let ?m = "\<lparr>mc_feature_name = ''avg_spend_1h'', mc_metric_type = ''psi_score'', mc_metric_value = Fin 0\<rparr>"
  obtain d where d: "rtranclp ref_step (empty_tables, FEATURE_SEEDS) (d, FEATURE_SEEDS)"
    "''avg_spend_1h'' \<in> feature_names (rt_committed d)"
    by (rule sample_run)
  have int: "integrity (rt_committed d)"
    using ref_registry.run_durable [OF d(1) conjI [OF empty_integrity grows_refl]] by (rule conjunct1)
  obtain f where f: "f \<in> set (t_features (rt_committed d))" "df_feature_name f = ''avg_spend_1h''"
    using d(2) by (auto simp: feature_names_def)
  have seen: "rt_seen (sn_open ref_sessions e) = rt_committed e" for e by (simp add: ref_sessions_def)
  obtain x where x: "get_feature ref_database (sn_open ref_sessions d) (df_feature_name f) = Inr x"
    by (rule ref_get_feature [of "sn_open ref_sessions d"]) (simp_all add: seen int)
  obtain ls where get: "?get d = (Inr (response_of (f, ls)), sn_close ref_sessions (sn_open ref_sessions d))"
    by (rule ref_registry.request_registered [OF int f(1) x, unfolded f(2)])
  define d1 where "d1 = sn_close ref_sessions (sn_open ref_sessions d)"
  note get = get [folded d1_def]
  obtain r d2 where m: "get_async_session ref_sessions (record_metric ref_database 0 ?m) d1 = (r, d2)" by fastforce
  have "ref_step (d1, FEATURE_SEEDS) (d2, FEATURE_SEEDS)" by (rule registry_step.metric [OF m])
  then have step: "rtranclp ref_step (d1, FEATURE_SEEDS) (d2, FEATURE_SEEDS)" by blast
  have "rt_committed d1 = rt_committed d"
    by (simp add: d1_def ref_sessions_def)
  then have "integrity (rt_committed d2)"
    using ref_registry.run_durable [OF step, of "rt_committed d"] int by simp
  then obtain y where y: "get_feature ref_database (sn_open ref_sessions d2) ''avg_spend_1h'' = Inr y"
    using ref_get_feature [of "sn_open ref_sessions d2" "''avg_spend_1h''"] seen by metis
  from served_feature_stays [OF ref_registry_deployment int get step y] step show ?thesis by blast
qed

end
