(* ===== verification/Backfill_Job.thy ===== *)
theory Backfill_Job
  imports Offline_Store Dags
begin

text \<open>
  The backfill end to end: the DAG's shell command starts the script \<open>offline_store/backfill.py\<close>, which parses its
  dates, runs the backfill and exits with an error when an exception escapes, so that Airflow runs the command again. The
  shell, Docker and spark-submit are a parameter with the contract \<open>spark_submit\<close>.
\<close>

subsection \<open>The script\<close>

text \<open>
  The script after its arguments were parsed: \<open>fromisoformat\<close> gives the instant of a date's text as the query compares it.
\<close>

definition backfill_main ::
  "(string \<Rightarrow> exn + int) \<Rightarrow> 'd delta \<Rightarrow> (spark_env \<Rightarrow> schema \<Rightarrow> plan \<Rightarrow> row list \<Rightarrow> row list) \<Rightarrow> spark_env
   \<Rightarrow> (string \<Rightarrow> exn + json list) \<Rightarrow> offline_config \<Rightarrow> string \<times> string \<Rightarrow> 'd \<Rightarrow> (exn + unit) \<times> 'd" where
  "backfill_main fromisoformat D run_plan E kafka cfg args d =
     (case fromisoformat (fst args) of
        Inl e \<Rightarrow> (Inl e, d)
      | Inr start_date \<Rightarrow>
          (case fromisoformat (snd args) of
             Inl e \<Rightarrow> (Inl e, d)
           | Inr end_date \<Rightarrow> run_backfill D run_plan E kafka cfg start_date end_date ''earliest'' d))"

subsection \<open>The command line\<close>

definition spark_submit_line :: string where
  "spark_submit_line = ''docker exec fs-spark-master spark-submit --master spark://spark-master:7077 /opt/offline_store/backfill.py --start ''"

definition command_line :: "string \<Rightarrow> string \<Rightarrow> string" where
  "command_line start finish = spark_submit_line @ start @ '' --end '' @ finish"

text \<open>A value that the shell and the argument parser take as it is.\<close>

definition plain :: "string \<Rightarrow> bool" where
  "plain s \<longleftrightarrow> s \<noteq> [] \<and> hd s \<noteq> CHR ''-'' \<and> list_all (\<lambda>c. c \<in> set ''-0123456789'') s"

lemma backfill_command_line:
  "backfill_command conf ds_next = command_line (dict_get conf ''start_date'' ''2026-01-01'') (dict_get conf ''end_date'' ds_next)"
  by (simp add: backfill_command_def command_line_def spark_submit_line_def)

locale spark_submit =
  fixes bash :: "string \<Rightarrow> 'w \<Rightarrow> (exn + unit) \<times> 'w" and script :: "string \<times> string \<Rightarrow> 'w \<Rightarrow> (exn + unit) \<times> 'w"
  assumes submits: "plain start \<Longrightarrow> plain finish \<Longrightarrow> bash (command_line start finish) = script (start, finish)"
begin

lemma backfill_task:
  assumes "plain (dict_get conf ''start_date'' ''2026-01-01'')" and "plain (dict_get conf ''end_date'' ds_next)"
  shows "backfill_run bash conf today ds_next w =
    (case attempts_reraise 2 (script (dict_get conf ''start_date'' ''2026-01-01'', dict_get conf ''end_date'' ds_next)) w of
       (Inl e, w') \<Rightarrow> ([''validate_date_range'', ''run_spark_backfill''], validate_date_range conf today [], w')
     | (Inr u, w') \<Rightarrow> ([''validate_date_range'', ''run_spark_backfill'', ''verify_backfill''], validate_date_range conf today [], w'))"
  using submits [OF assms] by (simp add: backfill_run_def backfill_command_line backfill_dag_def Let_def numeral_2_eq_2)

end

text \<open>A shell that splits the two values off the line.\<close>

definition ref_bash :: "(string \<times> string \<Rightarrow> 'w \<Rightarrow> (exn + unit) \<times> 'w) \<Rightarrow> string \<Rightarrow> 'w \<Rightarrow> (exn + unit) \<times> 'w" where
  "ref_bash script line =
     (let args = drop (length spark_submit_line) line; start = takeWhile (\<lambda>c. c \<noteq> CHR '' '') args
      in script (start, drop (length start + length '' --end '') args))"

lemma digits_no_space: "list_all (\<lambda>c. c \<in> set ''-0123456789'') s \<Longrightarrow> CHR '' '' \<notin> set s"
  by (induction s) auto

lemma takeWhile_space: "CHR '' '' \<notin> set s \<Longrightarrow> takeWhile (\<lambda>c. c \<noteq> CHR '' '') (s @ CHR '' '' # ys) = s"
  by (induction s) auto

lemma ref_spark_submit: "spark_submit (ref_bash script) script"
proof
  fix start finish assume "plain start" "plain finish"
  then have "CHR '' '' \<notin> set start" using digits_no_space unfolding plain_def by blast
  then show "ref_bash script (command_line start finish) = script (start, finish)"
    by (simp add: ref_bash_def command_line_def Let_def takeWhile_space)
qed

subsection \<open>Exactly once\<close>

lemma backfill_attempt:
  assumes "delta_lake D commits fallback clock" and "spark_engine run_plan" and "kafka offsets = Inr msgs"
    and "run_backfill D run_plan E kafka cfg a b offsets d = (r, d')"
  shows "mset (contents (commits d' (table_path cfg))) = mset (contents (commits d (table_path cfg)))
    + (if r = Inr () then mset (sem E BACKFILL_SCHEMA (add_partition_columns (backfill_plan a b))
         (map (decode_event BACKFILL_SCHEMA) msgs)) else {#})"
proof -
  let ?new = "run_plan E BACKFILL_SCHEMA (add_partition_columns (backfill_plan a b)) (map (decode_event BACKFILL_SCHEMA) msgs)"
  have save: "dl_save D ''append'' [''event_date'', ''user_prefix''] (table_path cfg) ?new d = (r, d')"
    using assms(3,4) by (simp add: run_backfill_def delta_write_features_def)
  show ?thesis
  proof (cases r)
    case (Inl e)
    then show ?thesis using delta_lake.save_raised [OF assms(1)] save by force
  next
    case (Inr u)
    then show ?thesis using delta_lake.append_ok [OF assms(1)] save spark_engine.run_sem [OF assms(2)] by fastforce
  qed
qed

lemma attempts_twice: "attempts_reraise 2 f s = (case f s of (Inr x, t) \<Rightarrow> (Inr x, t) | (Inl e, t) \<Rightarrow> f t)"
  by (simp add: numeral_2_eq_2 split: prod.split sum.split)


definition sample_iso :: "string \<Rightarrow> exn + int" where
  "sample_iso s = (if s = ''2026-01-01'' then Inr 0 else if s = ''2026-01-02'' then Inr 10 else Inl ValueError)"

abbreviation sample_main :: "string \<times> string \<Rightarrow> ref_lake \<Rightarrow> (exn + unit) \<times> ref_lake" where
  "sample_main \<equiv> backfill_main sample_iso ref_delta sem sample_env (\<lambda>x. Inr [purchase_msg]) offline_config_default"

interpretation ref_submit: spark_submit "ref_bash sample_main" sample_main
  by (rule ref_spark_submit)

lemma plain_dates: "plain ''2026-01-01''" "plain ''2026-01-02''"
  by (simp_all add: plain_def)


end
