(* ===== verification/Spec2Isabelle.thy ===== *)
theory Spec2Isabelle
  imports Validation Generator_Signals Drift Diagnostics Registry Features Streaming_Job Api Airflow Dags Handles Cache Pipeline
    Table_Runs Registry_Runs Backfill_Job
begin

text \<open>
  A verification library for the feature store, a Python system that turns shop events into features per user and serves
  them to models.

  The program and how its parts interact. The event generator (\<open>ingestion/\<close>) sends random shop events to Kafka. The
  streaming job (\<open>streaming/\<close>) reads them with Spark, computes windowed features and hands each micro-batch to two
  sinks: one writes the features to Redis, the online store, the other to a Delta table, the offline store. The
  backfill (\<open>offline_store/backfill.py\<close>) computes the same features for a past range into the same table, from which
  training sets are read as of a time. The API (\<open>api/\<close>) serves the online features, extends their lifetime and starts
  analyses. Scheduled jobs (\<open>airflow/\<close>) compare online and offline values (\<open>validation/\<close>), look for drift
  against baselines kept in Redis (\<open>drift_detection/\<close>), have a language model analyse a drifting feature
  (\<open>diagnostics/\<close>) and extend lifetimes; the registry (\<open>registry/\<close>) keeps the features' definitions and metrics in
  PostgreSQL; a dashboard (\<open>monitoring/\<close>) reads all of it.

  Prelude. \<open>Prelude\<close> has the errors (\<open>exn\<close>, results \<open>exn + 'a\<close> with \<open>ebind\<close> and \<open>emap\<close>), Python's
  floats over the reals with the special values (\<open>pyfloat\<close>: infinities, NaN, their comparisons and arithmetic; rounding
  half to even, \<open>format\<close>), insertion-ordered dictionaries as association lists, JSON and the retry decorators. Rounding
  errors of the 53-bit arithmetic are not modelled, except where a constant's value decides a result.

  Interfaces to what is not in the repository. Each is a record of operations that the definitions take as an argument, a locale
  with its documented laws, and a reference instance that computes, interpreted there; the witnesses run on these.
  \<open>Redis\<close>: pipelines are atomic, reads report a view, keys have a time to live. \<open>Kafka\<close>: a produced message is
  queued or the call raises. \<open>Spark\<close>: a query is a value of type \<open>plan\<close>, built by the same operations in the same
  order as the code builds the DataFrame, and an engine returns a permutation of its meaning \<open>sem\<close>. \<open>Delta\<close>: commits,
  versions, MERGE and its ambiguity. \<open>Statistics\<close>: NumPy and SciPy. \<open>Registry\<close>: the database's constraints and
  transactions, extended there to one with sessions and in \<open>Airflow\<close> to one with connections. \<open>Diagnostics\<close>: the Anthropic client.

  Components. A definition has the name of the function, class or constant it models, or one close to it.
  \<open>Online_Store\<close>: \<open>online_store/\<close>, the keys, the client and the proactive refresh; a write reads back, happens as a
  whole or not at all, and refreshing only extends.
  \<open>Validation\<close>: \<open>validation/consistency_validator.py\<close> and \<open>skew_detector.py\<close>; the report's numbers are the true ones.
  \<open>Ingestion\<close>: \<open>ingestion/\<close>, the events, the generator with every random draw as an argument, and the main loop over a
  list of batches (the code's loop has no end; every finite part of it is a list); delivery in order, sessions.
  \<open>Generator_Signals\<close>: the same loop cut off by a signal after any number of its actions.
  \<open>Statistics\<close>: \<open>psi_calculator.py\<close>, \<open>statistical_tests.py\<close>; signs, zero on equal samples, what a total shift gives.
  \<open>Drift\<close>: \<open>drift_detection/\<close>; one result per feature, baselines, what is found and what is not.
  \<open>Diagnostics\<close>: \<open>diagnostics/\<close>; every failure ends in a diagnosis after at most three calls.
  \<open>Registry\<close>: \<open>registry/\<close>; the engines and sessions, the service, the routes and the seeding.
  \<open>Features\<close>: \<open>feature_definitions.py\<close>, \<open>anomaly_scorer.py\<close> and the plans of the two jobs; what the rows of each
  feature count, bounds, types, and how the joins multiply rows.
  \<open>Job_Parity\<close>: the streaming plan and the backfill plan give the same rows on the same messages.
  \<open>Offline_Store\<close>: \<open>offline_store/\<close>; reads as of a time are stable, a repeated backfill duplicates.
  \<open>Sinks\<close>: \<open>redis_sink.py\<close>, \<open>delta_sink.py\<close>; no row is lost, and which batches reach the table.
  \<open>Streaming_Job\<close>: \<open>feature_processor.py\<close> and \<open>spark_session.py\<close>, the queries and their start.
  \<open>Api\<close>: \<open>api/\<close>, the handlers, the middleware and the start-up; errors, and the path from a batch to a response.
  \<open>Airflow\<close> and \<open>Dags\<close>: \<open>airflow/\<close>, the tasks and hooks, then the DAGs and their runs.
  \<open>Monitoring\<close>: \<open>monitoring/\<close>, the data functions and what the pages compute.
  \<open>Handles\<close>: the pool, clients and engine that several components create when first needed and then keep.
  \<open>Cache\<close> composes them: the operations of the online store, the Redis sink, the API and the refresh job on the feature keys
  are the rules of one step relation, which refines an abstract cache with lifetimes. The invariant of its runs, the expiry of
  unused features and the growth of the index of active users are proved of runs in any order.
  \<open>Table_Runs\<close> composes the writers of the offline store: the micro-batches of the Delta sink and the backfills are the rules of one
  step relation, which refines a versioned bag of rows; of runs in any order, reads of the past are settled, no user's day
  is lost and the partition columns agree with the data.
  \<open>Registry_Runs\<close> composes what uses the registry: start-ups, requests, recordings and scheduled jobs, each in its
  session; the tables keep their constraints and only grow, and a feature once served stays served.
  \<open>Backfill_Job\<close> composes the backfill DAG, its shell command, the script and the table: with Airflow's retry the rows are
  applied once.
  \<open>Pipeline\<close> composes the generator, the message format and the streaming job: the purchase counts computed from the
  topic are those of the events generated.

  Bounds. Loops over collections are structural recursions. Retries are recursions on the number of attempts the code gives
  (three for the online store and the model, five for Kafka, two for the backfill command), so no fuel is needed. The lifetime bound \<open>T\<close> of
  \<open>Cache\<close> is any number at least as large as the configured lifetimes and the 300 seconds two components use.

  Not modelled, and why. How connections are pooled below the accessors of \<open>Handles\<close> and the sessions of \<open>Registry\<close>:
  SQLAlchemy's and redis-py's. Logging, printing, sleeping and
  drawing (Streamlit, Plotly): no effect on the state the theorems are about. Routing and request validation: FastAPI's
  and Pydantic's. Incremental evaluation, watermarks and checkpoints: Spark's; a plan is evaluated on the finite set of
  events it has. Concurrency inside Redis and the database: their contracts say each pipeline and each transaction is
  one step, and \<open>Cache\<close> and \<open>Registry_Runs\<close> interleave such steps arbitrarily. Two jobs that write the table at the same instant
  are ordered by Delta's commits; the sink's look whether the table exists is one step with its write.
\<close>

end
